theory Spec2Isabelle
  imports Main "HOL-Library.Sublist"
begin

section \<open>Strings and the regular expressions of the extraction script\<close>

text \<open>
  JavaScript strings are modelled as \<open>string\<close>. The titles and paragraph texts of the
  rendered specification that the script inspects are compared against ASCII literals only.
  Of the line terminators that the regular-expression dot refuses, line feed and carriage
  return are representable; of the white space that \<open>\s\<close> accepts, the characters
  9 to 13, 32 and 160.
\<close>

definition is_line_terminator :: "char \<Rightarrow> bool" where
  "is_line_terminator c = (c = CHR 0x0A \<or> c = CHR 0x0D)"

definition is_space :: "char \<Rightarrow> bool" where
  "is_space c = (c \<in> set [CHR 0x09, CHR 0x0A, CHR 0x0B, CHR 0x0C, CHR 0x0D, CHR 0x20, CHR 0xA0])"

definition is_upper :: "char \<Rightarrow> bool" where
  "is_upper c = (c \<in> set ''ABCDEFGHIJKLMNOPQRSTUVWXYZ'')"

definition is_alpha :: "char \<Rightarrow> bool" where
  "is_alpha c = (is_upper c \<or> c \<in> set ''abcdefghijklmnopqrstuvwxyz'')"

text \<open>\<open>s.startsWith(p)\<close> is \<^const>\<open>prefix\<close>, \<open>s.endsWith(p)\<close> is \<^const>\<open>suffix\<close>.\<close>

text \<open>\<open>s.includes(p)\<close>.\<close>

fun includes_str :: "string \<Rightarrow> string \<Rightarrow> bool" where
  "includes_str [] p = (p = [])"
| "includes_str (c # cs) p = (prefix p (c # cs) \<or> includes_str cs p)"

text \<open>\<open>s.split(sep)\<close> for a one-character separator: the empty string splits into one
  empty token.\<close>

fun split_on :: "char \<Rightarrow> string \<Rightarrow> string list" where
  "split_on sep [] = [[]]"
| "split_on sep (c # cs) =
     (if c = sep then [] # split_on sep cs
      else (case split_on sep cs of [] \<Rightarrow> [[c]] | t # ts \<Rightarrow> (c # t) # ts))"

text \<open>\<open>s.replaceAll(" ", "")\<close>.\<close>

definition remove_spaces :: "string \<Rightarrow> string" where
  "remove_spaces s = filter (\<lambda>c. c \<noteq> CHR '' '') s"

text \<open>
  A backtracking matcher in continuation style. A matcher takes the rest of the input and
  returns what its continuation captured, or \<open>None\<close>. \<open>lit p k\<close> matches the literal
  \<open>p\<close>; \<open>dot_star k\<close> is the greedy \<open>(.*)\<close>: it first tries to take one more character
  (never a line terminator) and falls back to stopping here, and returns the text it took;
  \<open>search m\<close> tries \<open>m\<close> at every start position from the left, as an unanchored
  regular expression does.
\<close>

definition lit :: "string \<Rightarrow> (string \<Rightarrow> 'a option) \<Rightarrow> string \<Rightarrow> 'a option" where
  "lit p k s = (if prefix p s then k (drop (length p) s) else None)"

fun dot_star :: "(string \<Rightarrow> 'a option) \<Rightarrow> string \<Rightarrow> (string \<times> 'a) option" where
  "dot_star k [] = map_option (Pair []) (k [])"
| "dot_star k (c # cs) =
     (if is_line_terminator c then map_option (Pair []) (k (c # cs))
      else (case dot_star k cs of
              Some (m, r) \<Rightarrow> Some (c # m, r)
            | None \<Rightarrow> map_option (Pair []) (k (c # cs))))"

fun search :: "(string \<Rightarrow> 'a option) \<Rightarrow> string \<Rightarrow> 'a option" where
  "search m [] = m []"
| "search m (c # cs) = (case m (c # cs) of Some r \<Rightarrow> Some r | None \<Rightarrow> search m cs)"

definition accept :: "string \<Rightarrow> unit option" where
  "accept s = Some ()"

section \<open>Errors\<close>

text \<open>
  Every failure of the script aborts the run: a failed \<open>assert\<close>, a \<open>TypeError\<close>
  from reading a property of \<open>null\<close> or \<open>undefined\<close> behind a non-null assertion, the
  error that the expander throws for a descriptor that is not a class, or the error that
  the selector parser of the document library throws.
\<close>

datatype error = AssertionError | TypeError | NotAClass | SelectorError

section \<open>The signature parser\<close>

record Parameters =
  required :: int
  optional :: int
  rest :: bool

text \<open>\<open>title.replace(/(?<!,) /gu, "")\<close>: every space is removed unless the character
  before it in the original title is a comma.\<close>

fun strip_spaces :: "char option \<Rightarrow> string \<Rightarrow> string" where
  "strip_spaces prev [] = []"
| "strip_spaces prev (c # cs) =
     (if c = CHR '' '' \<and> prev \<noteq> Some CHR '','' then strip_spaces (Some c) cs
      else c # strip_spaces (Some c) cs)"

text \<open>\<open>/(?<name>.*)\((?<parameters>.*)\)/u\<close>, giving the groups \<open>name\<close> and
  \<open>parameters\<close>.\<close>

definition match_signature :: "string \<Rightarrow> (string \<times> string) option" where
  "match_signature s =
     map_option (\<lambda>(name, (parameters, _)). (name, parameters))
       (search (dot_star (lit ''('' (dot_star (lit '')'' accept)))) s)"

definition parseParameters :: "string \<Rightarrow> error + (string \<times> Parameters)" where
  "parseParameters title =
     (case match_signature (strip_spaces None title) of
        None \<Rightarrow> Inl TypeError
      | Some (name, parameters) \<Rightarrow>
          (let count = int (length (split_on CHR '','' parameters));
               optional = int (length (split_on CHR ''['' parameters)) - 1;
               rest = includes_str parameters ''...''
           in Inr (name @ ''()'',
                   \<lparr>required = count - optional - (if rest then 1 else 0),
                    optional = optional, rest = rest\<rparr>)))"

section \<open>Sections\<close>

text \<open>
  A section of the table of contents. The identifier is optional: the script reads it
  from an attribute that may be absent, and the rewritten \<open>Object Objects\<close> group is built
  without one.
\<close>

datatype Section = Section (title: string) (id_sec: "string option") (children: "Section list")

section \<open>Sequencing of steps that may abort\<close>

definition on_ok :: "error + 'a \<Rightarrow> ('a \<Rightarrow> error + 'b) \<Rightarrow> error + 'b" where
  "on_ok r f = (case r of Inl e \<Rightarrow> Inl e | Inr x \<Rightarrow> f x)"

fun map_err :: "('a \<Rightarrow> error + 'b) \<Rightarrow> 'a list \<Rightarrow> error + 'b list" where
  "map_err f [] = Inr []"
| "map_err f (x # xs) = on_ok (f x) (\<lambda>y. on_ok (map_err f xs) (\<lambda>ys. Inr (y # ys)))"

definition assert :: "bool \<Rightarrow> error + unit" where
  "assert b = (if b then Inr () else Inl AssertionError)"

section \<open>The selector engine\<close>

text \<open>
  The script reads the document through Cheerio's \<open>$(selector)\<close>, which is not part of the
  repository. \<open>$\<close> is a parameter here: given the selector text it throws or returns the
  texts of the elements matched, in document order.
\<close>

type_synonym document = "string \<Rightarrow> error + string list"

text \<open>
  Modelled from the library: what \<open>$\<close> answers is fixed, for a fragment of the selector
  language, by the grammar of Cheerio's selector parser and the meaning of its tokens. The
  fragment has identifier and tag selectors, the child combinator and the descendant
  combinator; it is enough for every selector \<open>#name > p\<close> and for what such a selector
  turns into when the name has characters that the script does not escape.

  The page: text nodes and elements with a tag name, an optional identifier and children.
\<close>

datatype node = Text string | Element (tag: string) (id_attr: "string option") (nodes: "node list")

type_synonym page = "node list"

text \<open>\<open>$(el).text()\<close>: the text nodes below the element, concatenated.\<close>

fun text_of :: "node \<Rightarrow> string" where
  "text_of (Text t) = t"
| "text_of (Element tg i ns) = concat (map text_of ns)"

text \<open>
  A name of the parser is the match of
  \<open>/^[^\\#]?(?:\\(?:[\da-f]{1,6}\s?|.)|[\w\-\u00b0-\uFFFF])+/\<close>, with its escapes
  resolved. \<open>name_run\<close> is the repeated group, matched as often as possible: the name
  characters and escaped characters read, and how many characters of the input they
  took. An escaped hexadecimal digit starts a numeric escape, which is beyond the
  fragment; a backslash before a line terminator, or at the end, is not an escape.
\<close>

definition is_name_char :: "char \<Rightarrow> bool" where
  "is_name_char c =
     (c \<in> set ''abcdefghijklmnopqrstuvwxyzABCDEFGHIJKLMNOPQRSTUVWXYZ0123456789_-'' \<or>
      (0xB0 :: nat) \<le> of_char c)"

definition is_hex :: "char \<Rightarrow> bool" where
  "is_hex c = (c \<in> set ''0123456789abcdefABCDEF'')"

definition is_css_space :: "char \<Rightarrow> bool" where
  "is_css_space c = (c \<in> set [CHR 0x20, CHR 0x09, CHR 0x0A, CHR 0x0C, CHR 0x0D])"

datatype run = Run string nat | Run_beyond

fun name_run :: "string \<Rightarrow> run" where
  "name_run [] = Run [] 0"
| "name_run [c] = (if is_name_char c then Run [c] 1 else Run [] 0)"
| "name_run (c # d # r) =
     (if c = CHR 0x5C then
        (if is_hex d then Run_beyond
         else if is_line_terminator d then Run [] 0
         else (case name_run r of Run n k \<Rightarrow> Run (d # n) (k + 2) | Run_beyond \<Rightarrow> Run_beyond))
      else if is_name_char c then
        (case name_run (d # r) of Run n k \<Rightarrow> Run (c # n) (k + 1) | Run_beyond \<Rightarrow> Run_beyond)
      else Run [] 0)"

text \<open>
  The optional first character of a name is any character but a backslash and a hash
  sign. The expression first takes it; when the group then matches nothing, it gives
  the character back, and the character has to start the group itself. \<open>parse_name\<close>
  gives the name and how many characters it took after the first.
\<close>

datatype parsed_name = Name string nat | No_name | Name_beyond

definition parse_name :: "string \<Rightarrow> parsed_name" where
  "parse_name s =
     (case s of
        [] \<Rightarrow> No_name
      | c # r \<Rightarrow>
          if c = CHR ''#'' then No_name
          else if c = CHR 0x5C then
            (case name_run s of
               Run_beyond \<Rightarrow> Name_beyond
             | Run n k \<Rightarrow> if n \<noteq> [] then Name n (k - 1) else No_name)
          else
            (case name_run r of
               Run_beyond \<Rightarrow> Name_beyond
             | Run n k \<Rightarrow> if n \<noteq> [] \<or> is_name_char c then Name (c # n) k else No_name))"

datatype token = Id string | Tag string | Child | Descendant

text \<open>
  The outcome of parsing a selector: its tokens, an exception, or a selector beyond the
  fragment, about which nothing is said. Beyond the fragment are the other combinators,
  commas, comments, class, attribute, universal and pseudo selectors, namespaces, numeric
  escapes, tag names with capital letters, and a selector that does not begin and end
  with a simple selector.

  \<open>parse_tokens\<close> has the tokens read so far, last first, and whether a simple selector
  was the last thing read. An identifier selector with no name throws. Where no name
  starts a tag selector the parser stops, and it throws because input is left.
\<close>

datatype parsed = Tokens "token list" | Throws | Beyond

function parse_tokens :: "token list \<Rightarrow> bool \<Rightarrow> string \<Rightarrow> parsed" where
  "parse_tokens toks after [] = (if after then Tokens (rev toks) else Beyond)"
| "parse_tokens toks after (c # r) =
     (if is_css_space c then
        (case dropWhile is_css_space r of
           [] \<Rightarrow> Beyond
         | d # r' \<Rightarrow>
             if \<not> after then Beyond
             else if d = CHR ''>'' then parse_tokens (Child # toks) False (dropWhile is_css_space r')
             else parse_tokens (Descendant # toks) False (d # r'))
      else if c = CHR ''>'' then
        (if after then parse_tokens (Child # toks) False (dropWhile is_css_space r) else Beyond)
      else if c \<in> set ''<~+,[:*|.'' then Beyond
      else if c = CHR ''/'' \<and> prefix ''*'' r then Beyond
      else if c = CHR ''#'' then
        (case parse_name r of
           Name n k \<Rightarrow> parse_tokens (Id n # toks) True (drop (Suc k) r)
         | No_name \<Rightarrow> Throws
         | Name_beyond \<Rightarrow> Beyond)
      else
        (case parse_name (c # r) of
           Name n k \<Rightarrow>
             if prefix ''|'' (drop k r) \<or> list_ex is_upper n then Beyond
             else parse_tokens (Tag n # toks) True (drop k r)
         | No_name \<Rightarrow> Throws
         | Name_beyond \<Rightarrow> Beyond))"
  by pat_completeness auto
termination
proof (relation "measure (\<lambda>(toks, after, s). length s)")
  show "wf (measure (\<lambda>(toks, after, s). length s))" by simp
next
  fix toks :: "token list" and after :: bool and c :: char and r :: string and d r'
  assume "dropWhile is_css_space r = d # r'"
  then have "length (d # r') \<le> length r"
    by (metis length_dropWhile_le)
  then show "((Child # toks, False, dropWhile is_css_space r'), toks, after, c # r)
       \<in> measure (\<lambda>(toks, after, s). length s)"
    using length_dropWhile_le [of is_css_space r'] by simp
next
  fix toks :: "token list" and after :: bool and c :: char and r :: string and d r'
  assume "dropWhile is_css_space r = d # r'"
  then have "length (d # r') \<le> length r"
    by (metis length_dropWhile_le)
  then show "((Descendant # toks, False, d # r'), toks, after, c # r)
       \<in> measure (\<lambda>(toks, after, s). length s)"
    by simp
next
  fix toks :: "token list" and after :: bool and c :: char and r :: string
  show "((Child # toks, False, dropWhile is_css_space r), toks, after, c # r)
       \<in> measure (\<lambda>(toks, after, s). length s)"
    using length_dropWhile_le [of is_css_space r] by simp
next
  fix toks :: "token list" and after :: bool and c :: char and r :: string and n k
  show "((Id n # toks, True, drop (Suc k) r), toks, after, c # r)
       \<in> measure (\<lambda>(toks, after, s). length s)"
    by simp
next
  fix toks :: "token list" and after :: bool and c :: char and r :: string and n k
  show "((Tag n # toks, True, drop k r), toks, after, c # r)
       \<in> measure (\<lambda>(toks, after, s). length s)"
    by simp
qed

definition parse_selector :: "string \<Rightarrow> parsed" where
  "parse_selector s = parse_tokens [] False s"

text \<open>
  An element, for matching, is its tag name and identifier, with its ancestors, nearest
  first. The tokens are matched last first: a compound selector against the element, the
  child combinator against its parent, the descendant combinator against some ancestor.
  The parent of a top-level element is the document, which no selector matches.
\<close>

fun matches :: "token list \<Rightarrow> string \<times> string option \<Rightarrow> (string \<times> string option) list \<Rightarrow> bool" where
  "matches [] e anc = True"
| "matches (Id x # ts) e anc = (snd e = Some x \<and> matches ts e anc)"
| "matches (Tag n # ts) e anc = (fst e = n \<and> matches ts e anc)"
| "matches (Child # ts) e anc = (case anc of [] \<Rightarrow> False | p # ps \<Rightarrow> matches ts p ps)"
| "matches (Descendant # ts) e anc =
     (case anc of [] \<Rightarrow> False | p # ps \<Rightarrow> matches ts p ps \<or> matches (Descendant # ts) p ps)"

fun select_nodes :: "token list \<Rightarrow> (string \<times> string option) list \<Rightarrow> node \<Rightarrow> string list" where
  "select_nodes ts anc (Text t) = []"
| "select_nodes ts anc (Element tg i ns) =
     (if matches ts (tg, i) anc then [text_of (Element tg i ns)] else []) @
     concat (map (select_nodes ts ((tg, i) # anc)) ns)"

definition select_texts :: "page \<Rightarrow> token list \<Rightarrow> string list" where
  "select_texts pg toks = concat (map (select_nodes (rev toks) []) pg)"

text \<open>\<open>$\<close> answers a page when, on every selector of the fragment, it throws where the
  parser throws and otherwise returns the texts of the elements that the tokens match.\<close>

definition answers :: "page \<Rightarrow> document \<Rightarrow> bool" where
  "answers pg doc =
     (\<forall>sel. case parse_selector sel of
              Tokens toks \<Rightarrow> doc sel = Inr (select_texts pg toks)
            | Throws \<Rightarrow> doc sel = Inl SelectorError
            | Beyond \<Rightarrow> True)"

text \<open>One engine that answers a page; beyond the fragment it is made to throw.\<close>

definition engine :: "page \<Rightarrow> document" where
  "engine pg sel =
     (case parse_selector sel of
        Tokens toks \<Rightarrow> Inr (select_texts pg toks)
      | Throws \<Rightarrow> Inl SelectorError
      | Beyond \<Rightarrow> Inl SelectorError)"

text \<open>The texts of the paragraphs whose parent is an element with the identifier \<open>i\<close>, in
  document order: what \<open>#name > p\<close> is meant to select when the name denotes \<open>i\<close>.\<close>

fun paragraphs_in :: "string \<Rightarrow> string option \<Rightarrow> node \<Rightarrow> string list" where
  "paragraphs_in i parent (Text t) = []"
| "paragraphs_in i parent (Element tg j ns) =
     (if tg = ''p'' \<and> parent = Some i then [text_of (Element tg j ns)] else []) @
     concat (map (paragraphs_in i j) ns)"

definition direct_paragraphs :: "page \<Rightarrow> string \<Rightarrow> string list" where
  "direct_paragraphs pg i = concat (map (paragraphs_in i None) pg)"

section \<open>The attribute extractor\<close>

text \<open>\<open>id.replaceAll(/[.@]/g, "\\$&")\<close>: a backslash before every dot and at sign.\<close>

definition escape_id :: "string \<Rightarrow> string" where
  "escape_id i = concat (map (\<lambda>c. if c = CHR ''.'' \<or> c = CHR ''@'' then [CHR 0x5C, c] else [c]) i)"

text \<open>The group \<open>(true|false)\<close>, passing the flag to the continuation.\<close>

definition bool_group :: "(bool \<Rightarrow> string \<Rightarrow> 'a option) \<Rightarrow> string \<Rightarrow> 'a option" where
  "bool_group k s =
     (case lit ''true'' (k True) s of Some r \<Rightarrow> Some r | None \<Rightarrow> lit ''false'' (k False) s)"

definition match_attributes :: "string \<Rightarrow> (bool \<times> bool \<times> bool) option" where
  "match_attributes =
     search (lit ''has the attributes { [[Writable]]: *'' (bool_group (\<lambda>writable.
             lit ''*, [[Enumerable]]: *'' (bool_group (\<lambda>enumerable.
             lit ''*, [[Configurable]]: *'' (bool_group (\<lambda>configurable.
             lit ''* }.'' (\<lambda>_. Some (writable, enumerable, configurable)))))))))"

definition attribute_code :: "bool \<Rightarrow> bool \<Rightarrow> bool \<Rightarrow> string" where
  "attribute_code writable enumerable configurable =
     (if writable then ''w'' else []) @ (if enumerable then ''e'' else []) @
     (if configurable then ''c'' else [])"

text \<open>
  \<open>paras\<close>: the texts that \<open>$\<close> returns for the selector built from the identifier,
  those with the marker kept. The selector is the identifier after a hash sign, with a
  backslash put before its dots and at signs only, then \<open> > p\<close>.
\<close>

definition paras :: "document \<Rightarrow> string \<Rightarrow> error + string list" where
  "paras doc i =
     on_ok (doc (''#'' @ escape_id i @ '' > p''))
       (\<lambda>texts. Inr (filter (\<lambda>t. includes_str t ''has the attributes'') texts))"

definition getAttributes :: "document \<Rightarrow> Section \<Rightarrow> error + string option" where
  "getAttributes doc s =
     (case id_sec s of
        None \<Rightarrow> Inl TypeError
      | Some i \<Rightarrow>
          on_ok (paras doc i) (\<lambda>paras.
          if length paras = 0 then Inr None
          else on_ok (assert (length paras = 1)) (\<lambda>_.
               case match_attributes (paras ! 0) of
                 None \<Rightarrow> Inl TypeError
               | Some (writable, enumerable, configurable) \<Rightarrow>
                   Inr (Some (attribute_code writable enumerable configurable)))))"

section \<open>Descriptors\<close>

datatype JSProperty =
    DataProperty (prop_name: string) (prop_attributes: string)
  | AccessorProperty (prop_name: string) (prop_attributes: string)

datatype JSMethod =
  Method (meth_name: string) (meth_parameters: Parameters) (meth_attributes: "string option")

datatype JSConstructor =
  Constructor (ctor_name: string) (ctor_parameters: Parameters)

datatype JSGlobal =
    Namespace (name: string) (global: bool)
      (staticProperties: "JSProperty list") (staticMethods: "JSMethod list")
  | Class (name: string) (global: bool) (constructor: "JSConstructor option")
      (staticProperties: "JSProperty list") (staticMethods: "JSMethod list")
      (prototypeProperties: "JSProperty list") (instanceMethods: "JSMethod list")
      (instanceProperties: "JSProperty list")
  | GlobalProperty (name: string) (gp_attributes: "string option")
  | Function (name: string) (fn_parameters: Parameters) (global: bool)

section \<open>The property and method classifier\<close>

text \<open>\<open>/^[A-Z][A-Za-z]+\s*\(|^`|Record$/u.test(t)\<close>. The three character classes of the
  first alternative are disjoint, so the greedy runs never give anything back.\<close>

definition is_ao_title :: "string \<Rightarrow> bool" where
  "is_ao_title t =
     ((case t of
         [] \<Rightarrow> False
       | c # cs \<Rightarrow> is_upper c \<and> takeWhile is_alpha cs \<noteq> [] \<and>
                  prefix ''('' (dropWhile is_space (dropWhile is_alpha cs)))
      \<or> prefix ''`'' t \<or> suffix ''Record'' t)"

text \<open>\<open>/^get |^set /.test(t)\<close>.\<close>

definition is_accessor_title :: "string \<Rightarrow> bool" where
  "is_accessor_title t = (prefix ''get '' t \<or> prefix ''set '' t)"

definition getBareSection :: "Section \<Rightarrow> error + Section" where
  "getBareSection section =
     on_ok (assert (list_all (\<lambda>s. is_ao_title (title s) \<and> length (children s) = 0) (children section)
                    \<or> length (filter (\<lambda>s. is_accessor_title (title s)) (children section)) = 2))
       (\<lambda>_. Inr section)"

text \<open>An attribute code of \<open>""\<close> is falsy, so the spread leaves the field out, as it
  does for \<open>null\<close>.\<close>

definition makeMethod :: "document \<Rightarrow> Section \<Rightarrow> error + JSMethod" where
  "makeMethod doc s =
     on_ok (getAttributes doc s) (\<lambda>attributes.
     on_ok (parseParameters (title s)) (\<lambda>(name, parameters).
     Inr (Method name parameters
            (case attributes of None \<Rightarrow> None | Some a \<Rightarrow> if a = [] then None else Some a))))"

definition makeConstructor :: "Section option \<Rightarrow> error + JSConstructor option" where
  "makeConstructor s =
     (case s of
        None \<Rightarrow> Inr None
      | Some s \<Rightarrow> on_ok (parseParameters (title s)) (\<lambda>(name, parameters).
                  Inr (Some (Constructor name parameters))))"

definition makeProperty :: "document \<Rightarrow> Section \<Rightarrow> error + JSProperty" where
  "makeProperty doc s =
     (if length (filter (\<lambda>t. is_accessor_title (title t)) (children s)) = 2
      then Inr (AccessorProperty (remove_spaces (title s)) ''gsc'')
      else if is_accessor_title (title s)
      then Inr (AccessorProperty (remove_spaces (drop 4 (title s)))
                  ((if prefix ''get '' (title s) then ''g'' else []) @
                   (if prefix ''set '' (title s) then ''s'' else []) @ ''c''))
      else on_ok (getAttributes doc s) (\<lambda>attributes.
           Inr (DataProperty (remove_spaces (title s))
                  (case attributes of None \<Rightarrow> ''wc'' | Some a \<Rightarrow> a))))"

section \<open>Array helpers\<close>

text \<open>\<open>xs.findIndex(p)\<close>: the first index whose element satisfies \<open>p\<close>, or \<open>-1\<close>.\<close>

fun findIndex :: "('a \<Rightarrow> bool) \<Rightarrow> 'a list \<Rightarrow> int" where
  "findIndex p [] = - 1"
| "findIndex p (x # xs) =
     (if p x then 0 else (let i = findIndex p xs in if i < 0 then - 1 else i + 1))"

text \<open>\<open>xs.slice(b, e)\<close>: a negative bound counts from the end, and both are clamped.\<close>

definition slice :: "int \<Rightarrow> int \<Rightarrow> 'a list \<Rightarrow> 'a list" where
  "slice b e xs =
     (let len = int (length xs);
          k = (if b < 0 then max (len + b) 0 else min b len);
          final = (if e < 0 then max (len + e) 0 else min e len)
      in take (nat (final - k)) (drop (nat k) xs))"

text \<open>\<open>xs.slice(b)\<close>.\<close>

definition slice_from :: "int \<Rightarrow> 'a list \<Rightarrow> 'a list" where
  "slice_from b xs = slice b (int (length xs)) xs"

section \<open>The section reclassifier\<close>

text \<open>
  The callback of the first \<open>flatMap\<close> over the groups. The \<open>Iteration\<close> branch returns
  whatever \<open>find\<close> returned, \<open>undefined\<close> included, so a group of the output is optional.
\<close>

definition reclassify :: "Section \<Rightarrow> error + Section option list" where
  "reclassify s =
     (if title s = ''Error Objects'' then
        (let endOfError =
               findIndex (\<lambda>t. title t = ''Properties of Error Instances'') (children s) + 1;
             subItems = slice endOfError (- 1) (children s)
         in case subItems of
              [] \<Rightarrow> Inl TypeError
            | nativeErrorTypes # others \<Rightarrow>
                on_ok (assert (title nativeErrorTypes = ''Native Error Types Used in This Standard''))
                  (\<lambda>_. case others of
                          [] \<Rightarrow> Inl TypeError
                        | nativeErrorStructure # otherErrors \<Rightarrow>
                            on_ok (assert (title nativeErrorStructure = ''_NativeError_ Object Structure''))
                              (\<lambda>_. Inr (Some (Section (title s) (id_sec s)
                                                  (slice 0 endOfError (children s)))
                                         # Some nativeErrorStructure
                                         # map Some otherErrors))))
      else if title s = ''TypedArray Objects'' then
        (let endOfTA =
               findIndex (\<lambda>t. title t = ''Abstract Operations for TypedArray Objects'') (children s) + 1
         in Inr [Some (Section (title s) (id_sec s) (slice 0 endOfTA (children s))),
                 Some (Section ''_TypedArray_'' (id_sec s) (slice_from endOfTA (children s)))])
      else if title s = ''Object Objects'' then
        (let prototypeProps =
               findIndex (\<lambda>t. title t = ''Properties of the Object Prototype Object'') (children s)
         in if prototypeProps < 0 then Inl TypeError
            else (let prototypePropsSection = children s ! nat prototypeProps
                  in Inr [Some (Section (title s) None
                            ((children s)[nat prototypeProps :=
                               Section (title prototypePropsSection) (id_sec prototypePropsSection)
                                 (concat (map (\<lambda>t. if title t = ''Legacy Object.prototype Accessor Methods''
                                                     then children t else [t])
                                            (children prototypePropsSection)))]))]))
      else if title s = ''Iteration'' then
        Inr [find (\<lambda>t. title t = ''The %IteratorPrototype% Object'') (children s),
             find (\<lambda>t. title t = ''The %AsyncIteratorPrototype% Object'') (children s)]
      else if title s = ''Module Namespace Objects'' then Inr []
      else Inr [Some s])"

section \<open>The global binding assembler\<close>

definition getSubsections :: "(string \<Rightarrow> bool) \<Rightarrow> Section list \<Rightarrow> error + Section list" where
  "getSubsections pattern cs =
     (case find (\<lambda>c. pattern (title c)) cs of
        None \<Rightarrow> Inr []
      | Some c \<Rightarrow> map_err getBareSection (children c))"

text \<open>\<open>t.endsWith(")")\<close>.\<close>

definition ends_paren :: "string \<Rightarrow> bool" where
  "ends_paren t = suffix '')'' t"

text \<open>\<open>/Properties of .* Constructor/u\<close> and its three relatives, as tests.\<close>

definition re_between :: "string \<Rightarrow> string \<Rightarrow> string \<Rightarrow> bool" where
  "re_between l r t = (search (lit l (dot_star (lit r accept))) t \<noteq> None)"

text \<open>\<open>title.replace(/^The | Object$/gu, "")\<close>: a leading \<open>The \<close> goes, and what is left
  of the title loses a trailing \<open> Object\<close>.\<close>

definition namespace_name :: "string \<Rightarrow> string" where
  "namespace_name t =
     (let u = (if prefix ''The '' t then drop 4 t else t)
      in if suffix '' Object'' u then take (length u - 7) u else u)"

text \<open>
  A global regular-expression replace by the empty string: at each position from the left
  the matcher is tried and returns the input after the match; the text of a match is
  dropped and the search goes on after it. Each match of the expression below takes at
  least one character, which the test on the lengths records.
\<close>

fun remove_matches :: "(string \<Rightarrow> string option) \<Rightarrow> string \<Rightarrow> string" where
  "remove_matches m [] = []"
| "remove_matches m (c # cs) =
     (case m (c # cs) of
        None \<Rightarrow> c # remove_matches m cs
      | Some r \<Rightarrow> if length r \<le> length cs then remove_matches m r
                  else c # remove_matches m cs)"

text \<open>\<open>/ Objects| \(.*\)/\<close> at one position.\<close>

definition objects_or_parens :: "string \<Rightarrow> string option" where
  "objects_or_parens s =
     (case lit '' Objects'' Some s of
        Some r \<Rightarrow> Some r
      | None \<Rightarrow> map_option snd (lit '' ('' (dot_star (lit '')'' Some)) s))"

definition class_name :: "string \<Rightarrow> string" where
  "class_name t = remove_matches objects_or_parens t"

text \<open>\<open>makeProperties(sections, method)\<close> keeps the sections whose title ends in a closing
  parenthesis exactly when \<open>method\<close> holds, and maps them with \<open>makeMethod\<close> or
  \<open>makeProperty\<close>; the two result types make it two functions here.\<close>

definition makeProperties_filter :: "Section list \<Rightarrow> bool \<Rightarrow> Section list" where
  "makeProperties_filter sections method = filter (\<lambda>p. ends_paren (title p) = method) sections"

definition makeProperties_false :: "document \<Rightarrow> Section list \<Rightarrow> error + JSProperty list" where
  "makeProperties_false doc sections = map_err (makeProperty doc) (makeProperties_filter sections False)"

definition makeProperties_true :: "document \<Rightarrow> Section list \<Rightarrow> error + JSMethod list" where
  "makeProperties_true doc sections = map_err (makeMethod doc) (makeProperties_filter sections True)"

definition assemble_namespace :: "document \<Rightarrow> string \<Rightarrow> Section list \<Rightarrow> error + JSGlobal" where
  "assemble_namespace doc t cs =
     on_ok (getSubsections (\<lambda>u. includes_str u ''Value Properties of'') cs) (\<lambda>valueSections.
     on_ok (getSubsections (\<lambda>u. includes_str u ''Function Properties of'') cs) (\<lambda>functionSections.
     on_ok (assert (list_all (\<lambda>p. \<not> ends_paren (title p)) valueSections)) (\<lambda>_.
     on_ok (assert (list_all (\<lambda>p. ends_paren (title p)) functionSections)) (\<lambda>_.
     on_ok (if length valueSections = 0 \<and> length functionSections = 0
            then on_ok (map_err getBareSection cs) (\<lambda>props.
                   Inr (filter (\<lambda>p. \<not> ends_paren (title p)) props,
                        filter (\<lambda>p. ends_paren (title p)) props))
            else Inr (valueSections, functionSections))
       (\<lambda>(staticPropertySections, staticMethodSections).
     on_ok (map_err (makeProperty doc) staticPropertySections) (\<lambda>staticProperties.
     on_ok (map_err (makeMethod doc) staticMethodSections) (\<lambda>staticMethods.
     Inr (Namespace (namespace_name t) False staticProperties staticMethods))))))))"

definition assemble_class :: "document \<Rightarrow> string \<Rightarrow> Section list \<Rightarrow> error + JSGlobal" where
  "assemble_class doc t cs =
     on_ok (getSubsections (re_between ''Properties of '' '' Constructor'') cs) (\<lambda>staticPropSecs.
     on_ok (getSubsections (re_between ''Properties of '' '' Instances'') cs) (\<lambda>instancePropSecs.
     on_ok (getSubsections (re_between ''Properties of '' '' Prototype Object'') cs) (\<lambda>protoPropSecs.
     (let ctorSection =
            (case find (\<lambda>c. re_between ''The '' '' Constructor'' (title c)) cs of
               None \<Rightarrow> None
             | Some c \<Rightarrow> (case children c of [] \<Rightarrow> None | x # _ \<Rightarrow> Some x))
      in
     on_ok (assert (case ctorSection of None \<Rightarrow> True | Some c \<Rightarrow> ends_paren (title c))) (\<lambda>_.
     on_ok (assert (list_all (\<lambda>p. \<not> ends_paren (title p)) instancePropSecs)) (\<lambda>_.
     on_ok (makeProperties_false doc staticPropSecs) (\<lambda>staticProperties.
     on_ok (makeProperties_true doc staticPropSecs) (\<lambda>staticMethods.
     on_ok (makeProperties_false doc protoPropSecs) (\<lambda>prototypeProperties.
     on_ok (makeProperties_true doc protoPropSecs) (\<lambda>instanceMethods.
     on_ok (map_err (makeProperty doc) instancePropSecs) (\<lambda>instanceProperties.
     on_ok (makeConstructor ctorSection) (\<lambda>ctor.
     Inr (Class (class_name t) False ctor staticProperties staticMethods
            prototypeProperties instanceMethods instanceProperties)))))))))))))"

text \<open>The callback of \<open>map\<close>: destructuring \<open>undefined\<close> throws.\<close>

definition assemble :: "document \<Rightarrow> Section option \<Rightarrow> error + JSGlobal" where
  "assemble doc g =
     (case g of
        None \<Rightarrow> Inl TypeError
      | Some s \<Rightarrow> if suffix ''Object'' (title s) then assemble_namespace doc (title s) (children s)
                  else assemble_class doc (title s) (children s))"

section \<open>The abstract class expander\<close>

text \<open>
  \<open>s.replace(pattern, replacement)\<close> with a string pattern replaces the first occurrence
  only, and the replacement is a template: \<open>$$\<close> stands for a dollar sign, \<open>$&\<close> for
  the matched text, \<open>$`\<close> and \<open>$'\<close> for the text before and after the match. With a
  string pattern there are no captures, so a dollar sign before anything else stands for
  itself.
\<close>

fun find_first :: "string \<Rightarrow> string \<Rightarrow> (string \<times> string) option" where
  "find_first pat [] = (if pat = [] then Some ([], []) else None)"
| "find_first pat (c # cs) =
     (if prefix pat (c # cs) then Some ([], drop (length pat) (c # cs))
      else map_option (\<lambda>(b, a). (c # b, a)) (find_first pat cs))"

fun get_substitution :: "string \<Rightarrow> string \<Rightarrow> string \<Rightarrow> string \<Rightarrow> string" where
  "get_substitution m b a [] = []"
| "get_substitution m b a [c] = [c]"
| "get_substitution m b a (c # d # r) =
     (if c = CHR ''$'' \<and> d = CHR ''$'' then CHR ''$'' # get_substitution m b a r
      else if c = CHR ''$'' \<and> d = CHR ''&'' then m @ get_substitution m b a r
      else if c = CHR ''$'' \<and> d = CHR 0x60 then b @ get_substitution m b a r
      else if c = CHR ''$'' \<and> d = CHR 0x27 then a @ get_substitution m b a r
      else c # get_substitution m b a (d # r))"

definition js_replace :: "string \<Rightarrow> string \<Rightarrow> string \<Rightarrow> string" where
  "js_replace s pat repl =
     (case find_first pat s of
        None \<Rightarrow> s
      | Some (b, a) \<Rightarrow> b @ get_substitution pat b a repl @ a)"

text \<open>\<open>expandSection\<close>, at each of the three types it is used at.\<close>

definition expandSection_property :: "string \<Rightarrow> string \<Rightarrow> JSProperty \<Rightarrow> JSProperty" where
  "expandSection_property abstractName nm p =
     (case p of
        DataProperty n a \<Rightarrow> DataProperty (js_replace n abstractName nm) a
      | AccessorProperty n a \<Rightarrow> AccessorProperty (js_replace n abstractName nm) a)"

definition expandSection_method :: "string \<Rightarrow> string \<Rightarrow> JSMethod \<Rightarrow> JSMethod" where
  "expandSection_method abstractName nm p =
     (case p of Method n ps a \<Rightarrow> Method (js_replace n abstractName nm) ps a)"

definition expandSection_constructor :: "string \<Rightarrow> string \<Rightarrow> JSConstructor option \<Rightarrow> JSConstructor option" where
  "expandSection_constructor abstractName nm p =
     (case p of
        None \<Rightarrow> None
      | Some (Constructor n ps) \<Rightarrow> Some (Constructor (js_replace n abstractName nm) ps))"

definition is_class :: "JSGlobal \<Rightarrow> bool" where
  "is_class s = (case s of Class _ _ _ _ _ _ _ _ \<Rightarrow> True | _ \<Rightarrow> False)"

definition is_namespace :: "JSGlobal \<Rightarrow> bool" where
  "is_namespace s = (case s of Namespace _ _ _ _ \<Rightarrow> True | _ \<Rightarrow> False)"

definition expandAbstractClass :: "JSGlobal \<Rightarrow> string \<Rightarrow> string \<Rightarrow> error + JSGlobal" where
  "expandAbstractClass s abstractName nm =
     (case s of
        Class n g c sp sm pp im ip \<Rightarrow>
          Inr (Class nm g (expandSection_constructor abstractName nm c)
                 (map (expandSection_property abstractName nm) sp)
                 (map (expandSection_method abstractName nm) sm)
                 (map (expandSection_property abstractName nm) pp)
                 (map (expandSection_method abstractName nm) im)
                 ip)
      | _ \<Rightarrow> Inl NotAClass)"

text \<open>The callback of the second \<open>flatMap\<close>, given the two reference lists.\<close>

definition expand :: "string list \<Rightarrow> string list \<Rightarrow> JSGlobal \<Rightarrow> error + JSGlobal list" where
  "expand typedArrayTypes errorTypes s =
     (if \<not> is_class s then Inr [s]
      else if name s = ''_TypedArray_''
      then map_err (\<lambda>t. expandAbstractClass s ''_TypedArray_'' t) typedArrayTypes
      else if name s = ''_NativeError_ Object Structure''
      then map_err (\<lambda>t. expandAbstractClass s ''_NativeError_'' t) errorTypes
      else Inr [s])"

text \<open>
  The same expander with the arrays of a class descriptor held by reference, as they are
  in the script. The store has the arrays by address: the arrays of properties and the
  arrays of methods, each in the order of their creation. A descriptor of a class has the
  addresses of its five arrays; a descriptor of another type, whose arrays the expander
  does not reach, is kept as a value.
\<close>

record store =
  property_arrays :: "JSProperty list list"
  method_arrays :: "JSMethod list list"

datatype JSGlobal_ref =
    Class_ref (name_ref: string) (global_ref: bool) (constructor_ref: "JSConstructor option")
      (staticProperties_ref: nat) (staticMethods_ref: nat)
      (prototypeProperties_ref: nat) (instanceMethods_ref: nat)
      (instanceProperties_ref: nat)
  | Other_ref JSGlobal

text \<open>\<open>s[k].map(expandSection)\<close>: a new array, of copies with the name replaced. The array
  read is left as it is.\<close>

definition map_properties :: "string \<Rightarrow> string \<Rightarrow> nat \<Rightarrow> store \<Rightarrow> error + nat \<times> store" where
  "map_properties abstractName nm a st =
     (if a < length (property_arrays st)
      then Inr (length (property_arrays st),
                st\<lparr>property_arrays := property_arrays st @
                     [map (expandSection_property abstractName nm) (property_arrays st ! a)]\<rparr>)
      else Inl TypeError)"

definition map_methods :: "string \<Rightarrow> string \<Rightarrow> nat \<Rightarrow> store \<Rightarrow> error + nat \<times> store" where
  "map_methods abstractName nm a st =
     (if a < length (method_arrays st)
      then Inr (length (method_arrays st),
                st\<lparr>method_arrays := method_arrays st @
                     [map (expandSection_method abstractName nm) (method_arrays st ! a)]\<rparr>)
      else Inl TypeError)"

text \<open>The object literal is evaluated in the order of its members; \<open>instanceProperties\<close>
  gets the reference that the template has.\<close>

definition expandAbstractClass_ref :: "JSGlobal_ref \<Rightarrow> string \<Rightarrow> string \<Rightarrow> store \<Rightarrow> error + JSGlobal_ref \<times> store" where
  "expandAbstractClass_ref s abstractName nm st =
     (case s of
        Class_ref n g c sp sm pp im ip \<Rightarrow>
          on_ok (map_properties abstractName nm sp st) (\<lambda>(sp', st).
          on_ok (map_methods abstractName nm sm st) (\<lambda>(sm', st).
          on_ok (map_properties abstractName nm pp st) (\<lambda>(pp', st).
          on_ok (map_methods abstractName nm im st) (\<lambda>(im', st).
          Inr (Class_ref nm g (expandSection_constructor abstractName nm c) sp' sm' pp' im' ip, st)))))
      | Other_ref _ \<Rightarrow> Inl NotAClass)"

text \<open>\<open>map\<close> with a callback that changes the store, left to right.\<close>

fun map_store :: "('a \<Rightarrow> store \<Rightarrow> error + 'b \<times> store) \<Rightarrow> 'a list \<Rightarrow> store \<Rightarrow> error + 'b list \<times> store" where
  "map_store f [] st = Inr ([], st)"
| "map_store f (x # xs) st =
     on_ok (f x st) (\<lambda>(y, st).
     on_ok (map_store f xs st) (\<lambda>(ys, st). Inr (y # ys, st)))"

definition expand_ref :: "string list \<Rightarrow> string list \<Rightarrow> JSGlobal_ref \<Rightarrow> store \<Rightarrow> error + JSGlobal_ref list \<times> store" where
  "expand_ref typedArrayTypes errorTypes s st =
     (case s of
        Other_ref _ \<Rightarrow> Inr ([s], st)
      | Class_ref n g c sp sm pp im ip \<Rightarrow>
          if n = ''_TypedArray_''
          then map_store (\<lambda>t. expandAbstractClass_ref s ''_TypedArray_'' t) typedArrayTypes st
          else if n = ''_NativeError_ Object Structure''
          then map_store (\<lambda>t. expandAbstractClass_ref s ''_NativeError_'' t) errorTypes st
          else Inr ([s], st))"

text \<open>The groups: the slice of the table of contents from \<open>Fundamental Objects\<close> to
  \<open>Reflection\<close>, flattened one level, each group reclassified.\<close>

definition reclassified :: "Section list \<Rightarrow> error + Section option list" where
  "reclassified toc =
     on_ok (map_err reclassify
              (concat (map children
                 (slice (findIndex (\<lambda>s. title s = ''Fundamental Objects'') toc)
                        (findIndex (\<lambda>s. title s = ''Reflection'') toc + 1) toc))))
       (\<lambda>groups. Inr (concat groups))"

text \<open>The catalog before the global object is looked at.\<close>

definition build_objects :: "document \<Rightarrow> string list \<Rightarrow> string list \<Rightarrow> Section list \<Rightarrow> error + JSGlobal list" where
  "build_objects doc typedArrayTypes errorTypes toc =
     on_ok (reclassified toc) (\<lambda>groups.
     on_ok (map_err (assemble doc) groups) (\<lambda>globals.
     on_ok (map_err (expand typedArrayTypes errorTypes) globals) (\<lambda>expanded.
     Inr (concat expanded))))"

section \<open>The global flag propagator\<close>

definition global_property :: "document \<Rightarrow> Section \<Rightarrow> error + JSGlobal" where
  "global_property doc s =
     on_ok (getBareSection s) (\<lambda>section.
     on_ok (getAttributes doc section) (\<lambda>attributes.
     Inr (GlobalProperty (title section) attributes)))"

text \<open>\<open>/^[A-Z]/u.test(t)\<close>.\<close>

definition starts_upper :: "string \<Rightarrow> bool" where
  "starts_upper t = (case t of [] \<Rightarrow> False | c # _ \<Rightarrow> is_upper c)"

definition global_function :: "Section \<Rightarrow> error + JSGlobal" where
  "global_function t =
     on_ok (getBareSection t) (\<lambda>section.
     on_ok (parseParameters (title section)) (\<lambda>(nm, parameters).
     Inr (Function nm parameters True)))"

definition global_functions :: "Section \<Rightarrow> error + JSGlobal list" where
  "global_functions s =
     map_err global_function
       (if title s = ''URI Handling Functions''
        then filter (\<lambda>t. \<not> starts_upper (title t)) (children s)
        else [s])"

text \<open>The flag is only ever set on a descriptor that passed the assertion on its type.\<close>

definition set_global :: "JSGlobal \<Rightarrow> JSGlobal" where
  "set_global s =
     (case s of
        Namespace n g sp sm \<Rightarrow> Namespace n True sp sm
      | Class n g c sp sm pp im ip \<Rightarrow> Class n True c sp sm pp im ip
      | _ \<Rightarrow> s)"

text \<open>
  \<open>objects.find((o) => o.name === title)\<close>, the assertion on the type of what was found
  (nothing found fails it too), and the assignment to its flag.
\<close>

fun mark_global :: "(JSGlobal \<Rightarrow> bool) \<Rightarrow> string \<Rightarrow> JSGlobal list \<Rightarrow> error + JSGlobal list" where
  "mark_global kind t [] = Inl AssertionError"
| "mark_global kind t (obj # objects) =
     (if name obj = t
      then on_ok (assert (kind obj)) (\<lambda>_. Inr (set_global obj # objects))
      else on_ok (mark_global kind t objects) (\<lambda>objects'. Inr (obj # objects')))"

text \<open>The two \<open>forEach\<close> loops, the catalog threaded through.\<close>

fun mark_constructors :: "Section list \<Rightarrow> JSGlobal list \<Rightarrow> error + JSGlobal list" where
  "mark_constructors [] objects = Inr objects"
| "mark_constructors (s # ss) objects =
     on_ok (getBareSection s) (\<lambda>section.
     on_ok (mark_global is_class (js_replace (title section) '' ( . . . )'' []) objects)
       (mark_constructors ss))"

fun mark_namespaces :: "Section list \<Rightarrow> JSGlobal list \<Rightarrow> error + JSGlobal list" where
  "mark_namespaces [] objects = Inr objects"
| "mark_namespaces (s # ss) objects =
     on_ok (getBareSection s) (\<lambda>section.
     on_ok (mark_global is_namespace (title section) objects)
       (mark_namespaces ss))"

definition propagate :: "document \<Rightarrow> Section list \<Rightarrow> JSGlobal list \<Rightarrow> error + JSGlobal list" where
  "propagate doc toc objects =
     (case find (\<lambda>s. title s = ''The Global Object'') toc of
        None \<Rightarrow> Inl TypeError
      | Some g \<Rightarrow>
          (case children g of
             [g0, g1, g2, g3] \<Rightarrow>
               on_ok (assert (title g0 = ''Value Properties of the Global Object'' \<and>
                              title g1 = ''Function Properties of the Global Object'' \<and>
                              title g2 = ''Constructor Properties of the Global Object'' \<and>
                              title g3 = ''Other Properties of the Global Object'')) (\<lambda>_.
               on_ok (map_err (global_property doc) (children g0)) (\<lambda>properties.
               on_ok (map_err global_functions (children g1)) (\<lambda>functions.
               on_ok (mark_constructors (children g2) (objects @ properties @ concat functions))
                 (mark_namespaces (children g3)))))
           | _ \<Rightarrow> Inl AssertionError))"

text \<open>The whole run, up to the catalog that is written out.\<close>

definition catalog :: "document \<Rightarrow> string list \<Rightarrow> string list \<Rightarrow> Section list \<Rightarrow> error + JSGlobal list" where
  "catalog doc typedArrayTypes errorTypes toc =
     on_ok (build_objects doc typedArrayTypes errorTypes toc) (propagate doc toc)"

section \<open>The sentence that declares attributes\<close>

text \<open>The sentence that the attribute pattern matches, for given flags.\<close>

definition flag_text :: "bool \<Rightarrow> string" where
  "flag_text b = (if b then ''true'' else ''false'')"

definition attributes_sentence :: "bool \<Rightarrow> bool \<Rightarrow> bool \<Rightarrow> string" where
  "attributes_sentence w e c =
     ''has the attributes { [[Writable]]: *'' @ flag_text w @
     ''*, [[Enumerable]]: *'' @ flag_text e @
     ''*, [[Configurable]]: *'' @ flag_text c @ ''* }.''"

section \<open>Shapes of titles\<close>

text \<open>
  A bare name has no space and no line terminator; a parameter name has, besides, none of
  the characters that the parser counts or matches on.
\<close>

definition is_name :: "string \<Rightarrow> bool" where
  "is_name s = list_all (\<lambda>c. c \<noteq> CHR '' '' \<and> \<not> is_line_terminator c) s"

definition is_param :: "string \<Rightarrow> bool" where
  "is_param s = list_all (\<lambda>c. c \<notin> set '' ,.()[]'' \<and> \<not> is_line_terminator c) s"

section \<open>Notions that the claims are stated with\<close>

text \<open>The \<open>type\<close> member of a property descriptor.\<close>

definition prop_type :: "JSProperty \<Rightarrow> string" where
  "prop_type p =
     (case p of
        DataProperty _ _ \<Rightarrow> ''data-property''
      | AccessorProperty _ _ \<Rightarrow> ''accessor-property'')"

text \<open>A member that is another member with its name changed by \<open>f\<close> and nothing else
  changed.\<close>

definition property_renamed :: "(string \<Rightarrow> string) \<Rightarrow> JSProperty \<Rightarrow> JSProperty \<Rightarrow> bool" where
  "property_renamed f p q =
     (prop_type q = prop_type p \<and> prop_name q = f (prop_name p) \<and>
      prop_attributes q = prop_attributes p)"

definition method_renamed :: "(string \<Rightarrow> string) \<Rightarrow> JSMethod \<Rightarrow> JSMethod \<Rightarrow> bool" where
  "method_renamed f m k =
     (meth_name k = f (meth_name m) \<and> meth_parameters k = meth_parameters m \<and>
      meth_attributes k = meth_attributes m)"

definition constructor_renamed :: "(string \<Rightarrow> string) \<Rightarrow> JSConstructor \<Rightarrow> JSConstructor \<Rightarrow> bool" where
  "constructor_renamed f c d =
     (ctor_name d = f (ctor_name c) \<and> ctor_parameters d = ctor_parameters c)"

text \<open>What the expander makes of a template class \<open>s\<close> for the concrete name \<open>t\<close>: a class
  named \<open>t\<close>, with the \<open>global\<close> flag of the template, whose constructor, static and
  prototype members are those of the template, one for one and in order, each with
  \<open>name.replace(placeholder, t)\<close> for its name and nothing else changed, and whose instance
  properties are the template's.\<close>

definition sibling_of :: "JSGlobal \<Rightarrow> string \<Rightarrow> JSGlobal \<Rightarrow> string \<Rightarrow> bool" where
  "sibling_of s placeholder c t =
     (is_class c \<and> name c = t \<and> global c = global s \<and>
      rel_option (constructor_renamed (\<lambda>n. js_replace n placeholder t))
        (constructor s) (constructor c) \<and>
      list_all2 (property_renamed (\<lambda>n. js_replace n placeholder t))
        (staticProperties s) (staticProperties c) \<and>
      list_all2 (method_renamed (\<lambda>n. js_replace n placeholder t))
        (staticMethods s) (staticMethods c) \<and>
      list_all2 (property_renamed (\<lambda>n. js_replace n placeholder t))
        (prototypeProperties s) (prototypeProperties c) \<and>
      list_all2 (method_renamed (\<lambda>n. js_replace n placeholder t))
        (instanceMethods s) (instanceMethods c) \<and>
      instanceProperties c = instanceProperties s)"

text \<open>The descriptor that a reference-holding descriptor stands for in a store: its arrays
  read at their addresses.\<close>

definition load :: "store \<Rightarrow> JSGlobal_ref \<Rightarrow> JSGlobal option" where
  "load st r =
     (case r of
        Other_ref g \<Rightarrow> if is_class g then None else Some g
      | Class_ref n g c sp sm pp im ip \<Rightarrow>
          if sp < length (property_arrays st) \<and> sm < length (method_arrays st) \<and>
             pp < length (property_arrays st) \<and> im < length (method_arrays st) \<and>
             ip < length (property_arrays st)
          then Some (Class n g c (property_arrays st ! sp) (method_arrays st ! sm)
                       (property_arrays st ! pp) (method_arrays st ! im)
                       (property_arrays st ! ip))
          else None)"

text \<open>The sibling that \<open>expandAbstractClass\<close> returns for a class.\<close>

definition expanded :: "JSGlobal \<Rightarrow> string \<Rightarrow> string \<Rightarrow> JSGlobal" where
  "expanded s a t =
     Class t (global s) (expandSection_constructor a t (constructor s))
       (map (expandSection_property a t) (staticProperties s))
       (map (expandSection_method a t) (staticMethods s))
       (map (expandSection_property a t) (prototypeProperties s))
       (map (expandSection_method a t) (instanceMethods s))
       (instanceProperties s)"

text \<open>Both loops over the children of the global object, as one: \<open>kind\<close> is the type
  asserted and \<open>key\<close> the name looked up for a child.\<close>

fun mark_all :: "(JSGlobal \<Rightarrow> bool) \<Rightarrow> (string \<Rightarrow> string) \<Rightarrow> Section list \<Rightarrow> JSGlobal list \<Rightarrow> error + JSGlobal list" where
  "mark_all kind key [] objects = Inr objects"
| "mark_all kind key (s # ss) objects =
     on_ok (getBareSection s) (\<lambda>section.
     on_ok (mark_global kind (key (title section)) objects) (mark_all kind key ss))"

text \<open>The name that a child of the constructor properties is looked up by.\<close>

definition constructor_key :: "string \<Rightarrow> string" where
  "constructor_key t = js_replace t '' ( . . . )'' []"

text \<open>One step of the propagator on a descriptor: nothing, or the flag of a descriptor of
  the asserted type, with one of the given names, set.\<close>

definition flag_raised :: "(JSGlobal \<Rightarrow> bool) \<Rightarrow> string set \<Rightarrow> JSGlobal \<Rightarrow> JSGlobal \<Rightarrow> bool" where
  "flag_raised kind names obj obj' =
     (obj' = obj \<or> (kind obj \<and> name obj \<in> names \<and> obj' = set_global obj))"

text \<open>A standalone descriptor of the kind the propagator appends.\<close>

definition standalone :: "JSGlobal \<Rightarrow> bool" where
  "standalone a = (case a of GlobalProperty _ _ \<Rightarrow> True | Function _ _ g \<Rightarrow> g | _ \<Rightarrow> False)"

text \<open>\<open>global_set obj obj'\<close>: \<open>obj'\<close> is the class or namespace \<open>obj\<close> with its flag true and
  every other field as it was.\<close>

definition global_set :: "JSGlobal \<Rightarrow> JSGlobal \<Rightarrow> bool" where
  "global_set obj obj' =
     (case obj of
        Namespace n g sp sm \<Rightarrow> obj' = Namespace n True sp sm
      | Class n g c sp sm pp im ip \<Rightarrow> obj' = Class n True c sp sm pp im ip
      | _ \<Rightarrow> False)"

text \<open>The name that \<open>makeProperty\<close> gives the property of a section.\<close>

definition property_name :: "Section \<Rightarrow> string" where
  "property_name s =
     (if length (filter (\<lambda>t. is_accessor_title (title t)) (children s)) = 2
      then remove_spaces (title s)
      else if is_accessor_title (title s) then remove_spaces (drop 4 (title s))
      else remove_spaces (title s))"

text \<open>
  A character that the selector built from an identifier reads as itself: a name character
  of the selector language, or a dot or an at sign, before which the script puts a
  backslash.
\<close>

definition plain_id_char :: "char \<Rightarrow> bool" where
  "plain_id_char c = (is_name_char c \<or> c = CHR ''.'' \<or> c = CHR ''@'')"

text \<open>The direct paragraphs of the element with the identifier \<open>i\<close> that have the marker.\<close>

definition marker_paragraphs :: "page \<Rightarrow> string \<Rightarrow> string list" where
  "marker_paragraphs pg i =
     filter (\<lambda>t. includes_str t ''has the attributes'') (direct_paragraphs pg i)"

section \<open>Example documents, sections and descriptors\<close>

definition page_wc :: page where
  "page_wc =
     [Element ''emu-clause'' (Some ''sec-foo.bar'')
        [Element ''h1'' None [Text ''Foo.bar''],
         Element ''p'' None [Text ''The initial value is 0.''],
         Element ''p'' None
           [Text ''This property has the attributes { [[Writable]]: *true*, [[Enumerable]]: *false*, [[Configurable]]: *true* }.'']],
      Element ''emu-clause'' (Some ''sec-baz'')
        [Element ''p'' None
           [Text ''This property has the attributes { [[Writable]]: *false*, [[Enumerable]]: *false*, [[Configurable]]: *false* }.'']]]"

definition doc_wc :: document where
  "doc_wc = engine page_wc"

definition page_typed_array :: page where
  "page_typed_array =
     [Element ''emu-clause'' (Some ''sec-%typedarray%'')
        [Element ''h1'' None [Text ''%TypedArray%''],
         Element ''p'' None
           [Text ''This property has the attributes { [[Writable]]: *false*, [[Enumerable]]: *false*, [[Configurable]]: *false* }.'']],
      Element ''emu-clause'' (Some ''sec-%typedarray%.from'')
        [Element ''h1'' None [Text ''%TypedArray%.from''],
         Element ''p'' None
           [Text ''This property has the attributes { [[Writable]]: *true*, [[Enumerable]]: *false*, [[Configurable]]: *true* }.''],
         Element ''p'' None [Text ''Otherwise it has the attributes of its prototype.'']],
      Element ''emu-clause'' (Some ''sec-%typedarray%.prototype'')
        [Element ''h1'' None [Text ''%TypedArray%.prototype''],
         Element ''p'' None
           [Text ''This property has the attributes { [[Writable]]: *false*, [[Enumerable]]: *false*, [[Configurable]]: *false* }.'']],
      Element ''emu-clause'' (Some ''sec-length'')
        [Element ''h1'' None [Text ''length''],
         Element ''p'' None [Text ''The value is a Number.'']],
      Element ''emu-clause'' (Some ''sec-two'')
        [Element ''p'' None
           [Text ''This property has the attributes { [[Writable]]: *true*, [[Enumerable]]: *false*, [[Configurable]]: *true* }.''],
         Element ''p'' None [Text ''Otherwise it has the attributes of its prototype.'']]]"

definition error_objects_example :: Section where
  "error_objects_example =
     Section ''Error Objects'' (Some ''sec-error-objects'')
       [Section ''The Error Constructor'' (Some ''sec-error-constructor'') [],
        Section ''Properties of Error Instances'' (Some ''sec-properties-of-error-instances'') [],
        Section ''Native Error Types Used in This Standard'' (Some ''sec-native-error-types-used-in-this-standard'') [],
        Section ''_NativeError_ Object Structure'' (Some ''sec-nativeerror-object-structure'') [],
        Section ''AggregateError Objects'' (Some ''sec-aggregate-error-objects'') [],
        Section ''Abstract Operations for Error Objects'' (Some ''sec-abstract-operations-for-error-objects'') []]"

definition native_error_template :: JSGlobal where
  "native_error_template =
     Class ''_NativeError_ Object Structure'' False
       (Some (Constructor ''_NativeError_()'' \<lparr>required = 1, optional = 1, rest = False\<rparr>))
       [DataProperty ''_NativeError_.prototype'' []]
       []
       [DataProperty ''_NativeError_.prototype.constructor'' ''wc'',
        DataProperty ''_NativeError_.prototype.message'' ''wc'']
       []
       []"

definition typed_array_template :: JSGlobal where
  "typed_array_template =
     Class ''_TypedArray_'' False
       (Some (Constructor ''_TypedArray_()'' \<lparr>required = 0, optional = 0, rest = True\<rparr>))
       [DataProperty ''_TypedArray_.BYTES_PER_ELEMENT'' [],
        DataProperty ''_TypedArray_.prototype'' []]
       []
       [DataProperty ''_TypedArray_.prototype.BYTES_PER_ELEMENT'' [],
        DataProperty ''_TypedArray_.prototype.constructor'' ''wc'']
       []
       [DataProperty ''length'' ''wc'']"

definition typed_array_store :: store where
  "typed_array_store =
     \<lparr>property_arrays =
        [[DataProperty ''_TypedArray_.BYTES_PER_ELEMENT'' [],
          DataProperty ''_TypedArray_.prototype'' []],
         [DataProperty ''_TypedArray_.prototype.BYTES_PER_ELEMENT'' [],
          DataProperty ''_TypedArray_.prototype.constructor'' ''wc''],
         [DataProperty ''length'' ''wc'']],
      method_arrays = [[], []]\<rparr>"

definition typed_array_template_ref :: JSGlobal_ref where
  "typed_array_template_ref =
     Class_ref ''_TypedArray_'' False
       (Some (Constructor ''_TypedArray_()'' \<lparr>required = 0, optional = 0, rest = True\<rparr>))
       0 0 1 1 2"

definition int8_array_class :: JSGlobal where
  "int8_array_class =
     Class ''Int8Array'' False
       (Some (Constructor ''Int8Array()'' \<lparr>required = 0, optional = 0, rest = True\<rparr>))
       [DataProperty ''Int8Array.BYTES_PER_ELEMENT'' [],
        DataProperty ''Int8Array.prototype'' []]
       []
       [DataProperty ''Int8Array.prototype.BYTES_PER_ELEMENT'' [],
        DataProperty ''Int8Array.prototype.constructor'' ''wc'']
       []
       [DataProperty ''length'' ''wc'']"

definition doc_none :: document where
  "doc_none = engine []"

definition reflect_example :: Section where
  "reflect_example =
     Section ''The Reflect Object'' (Some ''sec-reflect-object'')
       [Section ''Reflect.apply ( target, thisArgument, argumentsList )'' (Some ''sec-reflect.apply'') [],
        Section ''Reflect [ @@toStringTag ]'' (Some ''sec-reflect-@@tostringtag'') []]"

definition foo_example :: Section where
  "foo_example =
     Section ''Foo Objects'' (Some ''sec-foo-objects'')
       [Section ''The Foo Constructor'' (Some ''sec-foo-constructor'')
          [Section ''Foo ( value )'' (Some ''sec-foo-value'') []],
        Section ''Properties of the Foo Constructor'' (Some ''sec-properties-of-the-foo-constructor'')
          [Section ''Foo.bar ( x, y )'' (Some ''sec-foo.bar'') [],
           Section ''Foo.prototype'' (Some ''sec-foo.prototype'') []],
        Section ''Properties of the Foo Prototype Object'' (Some ''sec-properties-of-the-foo-prototype-object'')
          [Section ''Foo.prototype.baz ( )'' (Some ''sec-foo.prototype.baz'') [],
           Section ''Foo.prototype.constructor'' (Some ''sec-foo.prototype.constructor'') []],
        Section ''Properties of Foo Instances'' (Some ''sec-properties-of-foo-instances'')
          [Section ''length'' (Some ''sec-foo-length'') []]]"

definition reflect_namespace :: JSGlobal where
  "reflect_namespace =
     Namespace ''Reflect'' False
       [DataProperty ''Reflect[@@toStringTag]'' ''wc'']
       [Method ''Reflect.apply()'' \<lparr>required = 3, optional = 0, rest = False\<rparr> None]"

definition foo_class :: JSGlobal where
  "foo_class =
     Class ''Foo'' False
       (Some (Constructor ''Foo()'' \<lparr>required = 1, optional = 0, rest = False\<rparr>))
       [DataProperty ''Foo.prototype'' ''wc'']
       [Method ''Foo.bar()'' \<lparr>required = 2, optional = 0, rest = False\<rparr> None]
       [DataProperty ''Foo.prototype.constructor'' ''wc'']
       [Method ''Foo.prototype.baz()'' \<lparr>required = 1, optional = 0, rest = False\<rparr> None]
       [DataProperty ''length'' ''wc'']"

definition page_globals :: page where
  "page_globals =
     [Element ''emu-clause'' (Some ''sec-globalthis'')
        [Element ''p'' None
           [Text ''This property has the attributes { [[Writable]]: *true*, [[Enumerable]]: *false*, [[Configurable]]: *true* }.'']]]"

definition doc_globals :: document where
  "doc_globals = engine page_globals"

definition global_object_example :: Section where
  "global_object_example =
     Section ''The Global Object'' (Some ''sec-global-object'')
       [Section ''Value Properties of the Global Object'' (Some ''sec-value-properties-of-the-global-object'')
          [Section ''globalThis'' (Some ''sec-globalthis'') []],
        Section ''Function Properties of the Global Object'' (Some ''sec-function-properties-of-the-global-object'')
          [Section ''parseInt ( string, radix )'' (Some ''sec-parseint-string-radix'') [],
           Section ''URI Handling Functions'' (Some ''sec-uri-handling-functions'')
             [Section ''decodeURI ( encodedURI )'' (Some ''sec-decodeuri-encodeduri'') [],
              Section ''Encode ( string, extraUnescaped )'' (Some ''sec-encode'') []]],
        Section ''Constructor Properties of the Global Object'' (Some ''sec-constructor-properties-of-the-global-object'')
          [Section ''Foo ( . . . )'' (Some ''sec-constructor-properties-of-the-global-object-foo'') []],
        Section ''Other Properties of the Global Object'' (Some ''sec-other-properties-of-the-global-object'')
          [Section ''Reflect'' (Some ''sec-reflect'') []]]"

definition short_global_object_example :: Section where
  "short_global_object_example =
     Section ''The Global Object'' (Some ''sec-global-object'')
       [Section ''Value Properties of the Global Object'' (Some ''sec-value-properties-of-the-global-object'') [],
        Section ''Function Properties of the Global Object'' (Some ''sec-function-properties-of-the-global-object'') [],
        Section ''Constructor Properties of the Global Object'' (Some ''sec-constructor-properties-of-the-global-object'') []]"

definition bar_example :: Section where
  "bar_example =
     Section ''Bar Objects'' (Some ''sec-bar-objects'')
       [Section ''Properties of the Bar Prototype Object'' (Some ''sec-properties-of-the-bar-prototype-object'')
          [Section ''length'' (Some ''sec-bar.prototype.length'') []],
        Section ''Properties of Bar Instances'' (Some ''sec-properties-of-bar-instances'')
          [Section ''length'' (Some ''sec-bar-instances-length'') []]]"

definition bar_toc :: "Section list" where
  "bar_toc =
     [Section ''Fundamental Objects'' (Some ''sec-fundamental-objects'') [bar_example],
      Section ''Reflection'' (Some ''sec-reflection'') [],
      Section ''The Global Object'' (Some ''sec-global-object'')
        [Section ''Value Properties of the Global Object'' (Some ''sec-value-properties-of-the-global-object'') [],
         Section ''Function Properties of the Global Object'' (Some ''sec-function-properties-of-the-global-object'') [],
         Section ''Constructor Properties of the Global Object'' (Some ''sec-constructor-properties-of-the-global-object'')
           [Section ''Bar ( . . . )'' (Some ''sec-constructor-properties-of-the-global-object-bar'') []],
         Section ''Other Properties of the Global Object'' (Some ''sec-other-properties-of-the-global-object'') []]]"

definition foo_toc :: "Section list" where
  "foo_toc =
     [Section ''Fundamental Objects'' (Some ''sec-fundamental-objects'') [foo_example],
      Section ''Reflection'' (Some ''sec-reflection'') [reflect_example],
      global_object_example]"

definition foo_class_global :: JSGlobal where
  "foo_class_global =
     Class ''Foo'' True
       (Some (Constructor ''Foo()'' \<lparr>required = 1, optional = 0, rest = False\<rparr>))
       [DataProperty ''Foo.prototype'' ''wc'']
       [Method ''Foo.bar()'' \<lparr>required = 2, optional = 0, rest = False\<rparr> None]
       [DataProperty ''Foo.prototype.constructor'' ''wc'']
       [Method ''Foo.prototype.baz()'' \<lparr>required = 1, optional = 0, rest = False\<rparr> None]
       [DataProperty ''length'' ''wc'']"

section \<open>Properties of the matcher\<close>

lemma dot_star_none:
  "(\<And>i. i \<le> length s \<Longrightarrow> k (drop i s) = None) \<Longrightarrow> dot_star k s = None"
proof (induction s)
  case Nil
  then show ?case by simp
next
  case (Cons c cs)
  have "k (drop 0 (c # cs)) = None" by (rule Cons.prems) simp
  moreover have "dot_star k cs = None"
  proof (rule Cons.IH)
    fix i assume "i \<le> length cs"
    then have "k (drop (Suc i) (c # cs)) = None" by (intro Cons.prems) simp
    then show "k (drop i cs) = None" by simp
  qed
  ultimately show ?case by simp
qed

lemma dot_star_append:
  "\<forall>c \<in> set m. \<not> is_line_terminator c \<Longrightarrow> dot_star k r = Some (m', a)
   \<Longrightarrow> dot_star k (m @ r) = Some (m @ m', a)"
  by (induction m) auto

lemma search_hit: "m s = Some r \<Longrightarrow> search m s = Some r"
  by (cases s) auto

lemma strip_spaces_id: "CHR '' '' \<notin> set u \<Longrightarrow> strip_spaces p u = u"
  by (induction u arbitrary: p) auto

lemma strip_spaces_comma:
  "CHR '' '' \<notin> set u \<Longrightarrow>
   strip_spaces p (u @ CHR '','' # CHR '' '' # v) = u @ CHR '','' # CHR '' '' # strip_spaces (Some CHR '' '') v"
  by (induction u arbitrary: p) auto

lemma length_split_on: "length (split_on sep s) = Suc (count_list s sep)"
  by (induction s) (auto split: list.splits)

lemma includes_str_iff: "includes_str s p \<longleftrightarrow> (\<exists>u v. s = u @ p @ v)"
proof (induction s)
  case Nil
  then show ?case by auto
next
  case (Cons c cs)
  show ?case
  proof
    assume "includes_str (c # cs) p"
    then consider "prefix p (c # cs)" | "includes_str cs p" by auto
    then show "\<exists>u v. c # cs = u @ p @ v"
    proof cases
      case 1
      then obtain v where "c # cs = p @ v" by (auto simp: prefix_def)
      then have "c # cs = [] @ p @ v" by simp
      then show ?thesis by blast
    next
      case 2
      then obtain u v where "cs = u @ p @ v" using Cons.IH by auto
      then have "c # cs = (c # u) @ p @ v" by simp
      then show ?thesis by blast
    qed
  next
    assume "\<exists>u v. c # cs = u @ p @ v"
    then obtain u v where uv: "c # cs = u @ p @ v" by auto
    show "includes_str (c # cs) p"
    proof (cases u)
      case Nil
      then have "prefix p (c # cs)" using uv by (simp add: prefix_def)
      then show ?thesis by simp
    next
      case (Cons a u')
      then have "cs = u' @ p @ v" using uv by simp
      then show ?thesis using Cons.IH by auto
    qed
  qed
qed

lemma lit_paren_none: "CHR ''('' \<notin> set s \<Longrightarrow> lit ''('' k (drop i s) = None"
proof -
  assume a: "CHR ''('' \<notin> set s"
  have "\<not> prefix ''('' (drop i s)"
  proof
    assume "prefix ''('' (drop i s)"
    then obtain v where "drop i s = CHR ''('' # v" by (auto simp: prefix_def)
    then have "CHR ''('' \<in> set (drop i s)" by simp
    then show False using a by (meson in_set_dropD)
  qed
  then show ?thesis by (simp add: lit_def)
qed

lemma dot_star_close: "dot_star (lit '')'' accept) '')'' = Some ([], ())"
  by (simp add: lit_def accept_def is_line_terminator_def)

lemma match_signature_shape:
  assumes nm: "\<forall>c \<in> set nm. \<not> is_line_terminator c"
    and ps: "\<forall>c \<in> set ps. \<not> is_line_terminator c \<and> c \<noteq> CHR ''(''"
  shows "match_signature (nm @ ''('' @ ps @ '')'') = Some (nm, ps)"
proof -
  let ?k2 = "lit '')'' accept"
  let ?k1 = "lit ''('' (dot_star ?k2)"
  have inner: "dot_star ?k2 (ps @ '')'') = Some (ps, ())"
    using dot_star_append [of ps ?k2 "'')''" "[]" "()"] ps dot_star_close by simp
  have none: "dot_star ?k1 (ps @ '')'') = None"
    by (rule dot_star_none, rule lit_paren_none) (use ps in auto)
  have "dot_star ?k1 (''('' @ ps @ '')'') = Some ([], (ps, ()))"
    using none inner by (simp add: is_line_terminator_def lit_def)
  then have "dot_star ?k1 (nm @ ''('' @ ps @ '')'') = Some (nm, (ps, ()))"
    using dot_star_append [of nm ?k1 "''('' @ ps @ '')''" "[]" "(ps, ())"] nm by simp
  then have "search (dot_star ?k1) (nm @ ''('' @ ps @ '')'') = Some (nm, (ps, ()))"
    by (rule search_hit)
  then show ?thesis by (simp add: match_signature_def)
qed

lemma match_signature_empty:
  assumes nm: "\<forall>c \<in> set nm. \<not> is_line_terminator c"
  shows "match_signature (nm @ ''()'') = Some (nm, [])"
proof -
  let ?k2 = "lit '')'' accept"
  let ?k1 = "lit ''('' (dot_star ?k2)"
  have "dot_star ?k1 ''()'' = Some ([], ([], ()))"
    by (simp add: is_line_terminator_def lit_def accept_def)
  then have "dot_star ?k1 (nm @ ''()'') = Some (nm, ([], ()))"
    using dot_star_append [of nm ?k1 "''()''" "[]" "([], ())"] nm by simp
  then have "search (dot_star ?k1) (nm @ ''()'') = Some (nm, ([], ()))"
    by (rule search_hit)
  then show ?thesis by (simp add: match_signature_def)
qed


lemma includes_str_set: "includes_str s p \<Longrightarrow> set p \<subseteq> set s"
  by (auto simp: includes_str_iff)

lemma is_param_chars:
  assumes "is_param a"
  shows "CHR '' '' \<notin> set a" "CHR '','' \<notin> set a" "CHR ''.'' \<notin> set a" "CHR ''('' \<notin> set a"
    "CHR ''['' \<notin> set a" "list_all (\<lambda>x. \<not> is_line_terminator x \<and> x \<noteq> CHR ''('') a"
  using assms by (auto simp: is_param_def list_all_iff)

lemma is_name_chars:
  assumes "is_name a"
  shows "CHR '' '' \<notin> set a" "\<forall>c \<in> set a. \<not> is_line_terminator c"
  using assms by (auto simp: is_name_def list_all_iff)

lemma shape_three:
  assumes "is_name nm" "is_param a" "is_param b" "is_param c"
  shows "parseParameters (nm @ ''('' @ a @ '', '' @ b @ '', ['' @ c @ ''])'') =
        Inr (nm @ ''()'', \<lparr>required = 2, optional = 1, rest = False\<rparr>)"
proof -
  let ?P = "a @ '', '' @ b @ '', ['' @ c @ '']''"
  note A = is_param_chars [OF assms(2)] and B = is_param_chars [OF assms(3)]
    and C = is_param_chars [OF assms(4)] and N = is_name_chars [OF assms(1)]
  have s3: "strip_spaces (Some CHR '' '') (''['' @ c @ ''])'') = ''['' @ c @ ''])''"
    by (rule strip_spaces_id) (use C(1) in simp)
  have s2: "strip_spaces (Some CHR '' '') (b @ CHR '','' # CHR '' '' # (''['' @ c @ ''])''))
            = b @ CHR '','' # CHR '' '' # (''['' @ c @ ''])'')"
    using strip_spaces_comma [OF B(1)] s3 by simp
  have "CHR '' '' \<notin> set (nm @ ''('' @ a)" using N(1) A(1) by simp
  then have e: "strip_spaces None ((nm @ ''('' @ a) @ CHR '','' # CHR '' '' # r)
            = (nm @ ''('' @ a) @ CHR '','' # CHR '' '' # strip_spaces (Some CHR '' '') r" for r
    by (rule strip_spaces_comma)
  have s1: "strip_spaces None ((nm @ ''('' @ a) @ CHR '','' # CHR '' '' # (b @ CHR '','' # CHR '' '' # (''['' @ c @ ''])'')))
            = (nm @ ''('' @ a) @ CHR '','' # CHR '' '' # (b @ CHR '','' # CHR '' '' # (''['' @ c @ ''])''))"
    by (simp only: e s2)
  have strip: "strip_spaces None (nm @ ''('' @ a @ '', '' @ b @ '', ['' @ c @ ''])'')
        = nm @ ''('' @ ?P @ '')''"
    using s1 by simp
  have "list_all (\<lambda>x. \<not> is_line_terminator x \<and> x \<noteq> CHR ''('') ?P"
    by (simp add: A(6) B(6) C(6)) (simp add: is_line_terminator_def)
  then have lt: "\<forall>x \<in> set ?P. \<not> is_line_terminator x \<and> x \<noteq> CHR ''(''"
    by (simp only: list_all_iff)
  have m: "match_signature (nm @ ''('' @ ?P @ '')'') = Some (nm, ?P)"
    by (rule match_signature_shape [OF N(2) lt])
  have c1: "count_list ?P CHR '','' = 2"
    using A(2) B(2) C(2) by simp
  have c2: "count_list ?P CHR ''['' = 1"
    using A(5) B(5) C(5) by simp
  have "CHR ''.'' \<notin> set ?P" using A(3) B(3) C(3) by simp
  then have nr: "\<not> includes_str ?P ''...''" using includes_str_set by fastforce
  show ?thesis
    unfolding parseParameters_def strip m using c1 c2 nr
    by (simp add: length_split_on Let_def del: includes_str.simps split_on.simps)
qed

lemma shape_rest:
  assumes "is_name nm" "is_param args"
  shows "parseParameters (nm @ ''(...'' @ args @ '')'') =
        Inr (nm @ ''()'', \<lparr>required = 0, optional = 0, rest = True\<rparr>)"
proof -
  let ?P = "''...'' @ args"
  note A = is_param_chars [OF assms(2)] and N = is_name_chars [OF assms(1)]
  have sp: "CHR '' '' \<notin> set (nm @ ''('' @ ?P @ '')'')"
    using A(1) N(1) by simp
  have strip: "strip_spaces None (nm @ ''(...'' @ args @ '')'') = nm @ ''('' @ ?P @ '')''"
    using strip_spaces_id [OF sp] by simp
  have "list_all (\<lambda>x. \<not> is_line_terminator x \<and> x \<noteq> CHR ''('') ?P"
    by (simp add: A(6)) (simp add: is_line_terminator_def)
  then have lt: "\<forall>x \<in> set ?P. \<not> is_line_terminator x \<and> x \<noteq> CHR ''(''"
    by (simp only: list_all_iff)
  have m: "match_signature (nm @ ''('' @ ?P @ '')'') = Some (nm, ?P)"
    by (rule match_signature_shape [OF N(2) lt])
  have c1: "count_list ?P CHR '','' = 0"
    using A(2) by simp
  have c2: "count_list ?P CHR ''['' = 0"
    using A(5) by simp
  have r: "includes_str ?P ''...''"
    unfolding includes_str_iff by (rule exI [of _ "[]"], rule exI [of _ args]) simp
  show ?thesis
    unfolding parseParameters_def strip m using c1 c2 r
    by (simp add: length_split_on Let_def del: includes_str.simps split_on.simps)
qed

lemma parse_general:
  assumes h: "parseParameters t = Inr (n, ps)"
  shows "\<exists>bare parameters.
         match_signature (strip_spaces None t) = Some (bare, parameters) \<and>
         n = bare @ ''()'' \<and>
         optional ps = int (count_list parameters CHR ''['') \<and>
         rest ps = (\<exists>u v. parameters = u @ ''...'' @ v) \<and>
         required ps = int (length (split_on CHR '','' parameters)) - optional ps
                         - (if rest ps then 1 else 0)"
proof -
  obtain bare parameters where
    m: "match_signature (strip_spaces None t) = Some (bare, parameters)"
    using h by (auto simp: parseParameters_def split: option.splits)
  have r: "ps = \<lparr>required = int (length (split_on CHR '','' parameters))
                    - (int (length (split_on CHR ''['' parameters)) - 1)
                    - (if includes_str parameters ''...'' then 1 else 0),
                 optional = int (length (split_on CHR ''['' parameters)) - 1,
                 rest = includes_str parameters ''...''\<rparr>" and n: "n = bare @ ''()''"
    using h unfolding parseParameters_def m by (simp_all add: Let_def)
  have "optional ps = int (count_list parameters CHR ''['')"
    unfolding r by (simp add: length_split_on)
  moreover have "rest ps = (\<exists>u v. parameters = u @ ''...'' @ v)"
    unfolding r by (simp add: includes_str_iff del: includes_str.simps)
  moreover have "required ps = int (length (split_on CHR '','' parameters)) - optional ps
                         - (if rest ps then 1 else 0)"
    unfolding r by simp
  ultimately show ?thesis using m n by blast
qed

section \<open>The signature parser: claims\<close>

text \<open>
  Claim C1. For a title \<open>Name(a, b, [c])\<close> the parser returns the name \<open>Name()\<close> with
  two required parameters, one optional parameter and no rest parameter; for
  \<open>Name(...args)\<close> it returns none required, none optional and a rest parameter. For every
  title that parses, the name returned is the text matched before the parenthesis followed
  by \<open>()\<close>, the optional count is the number of opening brackets in the parameter text,
  the rest flag says whether the parameter text has an ellipsis, and the required count is
  the number of comma-separated tokens minus the optional count minus one for the ellipsis.
\<close>

theorem parseParameters_signature:
  "(is_name nm \<and> is_param a \<and> is_param b \<and> is_param c \<longrightarrow>
      parseParameters (nm @ ''('' @ a @ '', '' @ b @ '', ['' @ c @ ''])'') =
        Inr (nm @ ''()'', \<lparr>required = 2, optional = 1, rest = False\<rparr>)) \<and>
   (is_name nm \<and> is_param args \<longrightarrow>
      parseParameters (nm @ ''(...'' @ args @ '')'') =
        Inr (nm @ ''()'', \<lparr>required = 0, optional = 0, rest = True\<rparr>)) \<and>
   (parseParameters t = Inr (n, ps) \<longrightarrow>
      (\<exists>bare parameters.
         match_signature (strip_spaces None t) = Some (bare, parameters) \<and>
         n = bare @ ''()'' \<and>
         optional ps = int (count_list parameters CHR ''['') \<and>
         rest ps = (\<exists>u v. parameters = u @ ''...'' @ v) \<and>
         required ps = int (length (split_on CHR '','' parameters)) - optional ps
                         - (if rest ps then 1 else 0)))"
  using shape_three [of nm a b c] shape_rest [of nm args] parse_general [of t n ps]
  by blast

theorem parseParameters_signature_witness:
  "is_name ''Name'' \<and> is_param ''a'' \<and> is_param ''b'' \<and> is_param ''c'' \<and> is_param ''args'' \<and>
   parseParameters ''Name(a, b, [c])'' =
     Inr (''Name()'', \<lparr>required = 2, optional = 1, rest = False\<rparr>) \<and>
   parseParameters ''Name(...args)'' =
     Inr (''Name()'', \<lparr>required = 0, optional = 0, rest = True\<rparr>) \<and>
   parseParameters ''concat ( x, [y], ...items )'' =
     Inr (''concat()'', \<lparr>required = 1, optional = 1, rest = True\<rparr>) \<and>
   (\<exists>bare parameters.
      match_signature (strip_spaces None ''concat ( x, [y], ...items )'') = Some (bare, parameters) \<and>
      ''concat()'' = bare @ ''()'' \<and>
      (1::int) = int (count_list parameters CHR ''['') \<and>
      (\<exists>u v. parameters = u @ ''...'' @ v) \<and>
      (1::int) = int (length (split_on CHR '','' parameters)) - 1 - 1)"
proof -
  have h1: "is_name ''Name'' \<and> is_param ''a'' \<and> is_param ''b'' \<and> is_param ''c'' \<and> is_param ''args''"
    by (simp add: is_name_def is_param_def is_line_terminator_def)
  have h2: "parseParameters ''concat ( x, [y], ...items )'' =
     Inr (''concat()'', \<lparr>required = 1, optional = 1, rest = True\<rparr>)"
    by code_simp
  show ?thesis
    using h1 h2
      parseParameters_signature [of "''Name''" "''a''" "''b''" "''c''" "''args''"
        "''concat ( x, [y], ...items )''" "''concat()''" "\<lparr>required = 1, optional = 1, rest = True\<rparr>"]
    by simp
qed

text \<open>
  Claim C10. A title whose parameter list is empty once the spaces are stripped gets one
  required parameter: splitting the empty parameter text at commas gives one token.
\<close>

theorem parseParameters_empty_list:
  "list_all (\<lambda>c. \<not> is_line_terminator c) nm \<Longrightarrow> strip_spaces None t = nm @ ''()'' \<Longrightarrow>
   parseParameters t = Inr (nm @ ''()'', \<lparr>required = 1, optional = 0, rest = False\<rparr>)"
  by (simp add: parseParameters_def match_signature_empty list_all_iff)

theorem parseParameters_empty_list_witness:
  "list_all (\<lambda>c. \<not> is_line_terminator c) ''Name'' \<and>
   strip_spaces None ''Name ( )'' = ''Name'' @ ''()'' \<and>
   parseParameters ''Name ( )'' = Inr (''Name()'', \<lparr>required = 1, optional = 0, rest = False\<rparr>)"
proof -
  have h1: "list_all (\<lambda>c. \<not> is_line_terminator c) ''Name''"
    by (simp add: is_line_terminator_def)
  have h2: "strip_spaces None ''Name ( )'' = ''Name'' @ ''()''"
    by simp
  show ?thesis
    using h1 h2 parseParameters_empty_list [OF h1 h2] by simp
qed

lemma lit_append: "lit p k (p @ r) = k r"
  by (simp add: lit_def)

lemma bool_group_flag: "bool_group k (flag_text b @ r) = k b r"
  by (cases b) (auto simp: bool_group_def flag_text_def lit_def split: option.splits)

lemma match_here:
  "lit ''has the attributes { [[Writable]]: *'' (bool_group (\<lambda>writable.
             lit ''*, [[Enumerable]]: *'' (bool_group (\<lambda>enumerable.
             lit ''*, [[Configurable]]: *'' (bool_group (\<lambda>configurable.
             lit ''* }.'' (\<lambda>_. Some (writable, enumerable, configurable)))))))) (attributes_sentence w e c @ post)
   = Some (w, e, c)"
  unfolding attributes_sentence_def append_assoc
  by (simp only: lit_append bool_group_flag)

lemma search_skip:
  "(\<And>u. u \<noteq> [] \<Longrightarrow> suffix u pre \<Longrightarrow> m (u @ r) = None) \<Longrightarrow> search m (pre @ r) = search m r"
proof (induction pre)
  case Nil
  then show ?case by simp
next
  case (Cons c pre)
  have "m ((c # pre) @ r) = None" by (rule Cons.prems) simp_all
  moreover have "search m (pre @ r) = search m r"
    by (rule Cons.IH, rule Cons.prems) (auto simp: suffix_Cons)
  ultimately show ?case by simp
qed

lemma no_overlap:
  assumes "x \<notin> set u" "u \<noteq> []" "x \<notin> set a"
  shows "\<not> prefix (a @ [x]) (u @ a @ r)"
proof
  assume "prefix (a @ [x]) (u @ a @ r)"
  then obtain v where v: "u @ a @ r = (a @ [x]) @ v"
    by (auto simp: prefix_def)
  have "((a @ [x]) @ v) ! length a = x" by (simp add: nth_append)
  then have x: "(u @ a @ r) ! length a = x" using v by simp
  show False
  proof (cases "length a < length u")
    case True
    then have "u ! length a = x" using x by (simp add: nth_append)
    then show False using assms(1) True nth_mem by metis
  next
    case False
    let ?k = "length a - length u"
    have k: "?k < length a" using assms(2) False by (cases u) auto
    have "(a @ r) ! ?k = x"
      using x False by (simp add: nth_append)
    then have "a ! ?k = x"
      using k by (simp add: nth_append)
    then show False using assms(3) k nth_mem by metis
  qed
qed

lemma no_brace_before:
  assumes "CHR ''{'' \<notin> set u" "u \<noteq> []"
  shows "lit ''has the attributes { [[Writable]]: *'' k (u @ attributes_sentence w e c @ post) = None"
proof -
  have "\<not> prefix (''has the attributes '' @ ''{'') (u @ ''has the attributes '' @ r)" for r
    by (rule no_overlap) (use assms in simp_all)
  then have n: "\<not> prefix ''has the attributes {'' (u @ ''has the attributes '' @ r)" for r
    by simp
  have "attributes_sentence w e c @ post = ''has the attributes '' @ drop 19 (attributes_sentence w e c @ post)"
    by (simp add: attributes_sentence_def)
  then have "\<not> prefix ''has the attributes {'' (u @ attributes_sentence w e c @ post)"
    using n by metis
  moreover have "prefix ''has the attributes {'' ''has the attributes { [[Writable]]: *''"
    by simp
  ultimately have "\<not> prefix ''has the attributes { [[Writable]]: *'' (u @ attributes_sentence w e c @ post)"
    using prefix_order.trans by blast
  then show ?thesis by (simp add: lit_def)
qed

lemma match_attributes_sentence:
  assumes "CHR ''{'' \<notin> set pre"
  shows "match_attributes (pre @ attributes_sentence w e c @ post) = Some (w, e, c)"
proof -
  let ?m = "lit ''has the attributes { [[Writable]]: *'' (bool_group (\<lambda>writable.
             lit ''*, [[Enumerable]]: *'' (bool_group (\<lambda>enumerable.
             lit ''*, [[Configurable]]: *'' (bool_group (\<lambda>configurable.
             lit ''* }.'' (\<lambda>_. Some (writable, enumerable, configurable))))))))"
  have "search ?m (pre @ attributes_sentence w e c @ post) = search ?m (attributes_sentence w e c @ post)"
  proof (rule search_skip)
    fix u assume "u \<noteq> []" "suffix u pre"
    then have "CHR ''{'' \<notin> set u" using assms by (auto simp: suffix_def)
    then show "?m (u @ attributes_sentence w e c @ post) = None"
      using \<open>u \<noteq> []\<close> by (rule no_brace_before)
  qed
  also have "\<dots> = Some (w, e, c)"
    by (rule search_hit, rule match_here)
  finally show ?thesis by (simp add: match_attributes_def)
qed

lemma marker_in_sentence: "includes_str (pre @ attributes_sentence w e c @ post) ''has the attributes''"
proof -
  have "pre @ attributes_sentence w e c @ post =
        pre @ ''has the attributes'' @ drop 18 (attributes_sentence w e c @ post)"
    by (simp add: attributes_sentence_def)
  then show ?thesis unfolding includes_str_iff by blast
qed

lemma attribute_code_letters:
  "(CHR ''w'' \<in> set (attribute_code w e c) \<longleftrightarrow> w) \<and>
   (CHR ''e'' \<in> set (attribute_code w e c) \<longleftrightarrow> e) \<and>
   (CHR ''c'' \<in> set (attribute_code w e c) \<longleftrightarrow> c) \<and>
   subseq (attribute_code w e c) ''wec''"
  by (cases w; cases e; cases c) (simp_all add: attribute_code_def)

section \<open>The attribute extractor: claims\<close>

text \<open>
  Claim C5. When the one paragraph with the marker holds the attribute sentence for the
  flags \<open>w\<close>, \<open>e\<close>, \<open>c\<close> (after text without a brace, before any text), the extractor
  returns a code that has the letter w exactly when Writable is declared true, e exactly
  when Enumerable is, c exactly when Configurable is, in the order w, e, c. Writable and
  configurable but not enumerable gives \<open>wc\<close>; all three false gives the empty code.
\<close>

theorem getAttributes_code:
  assumes "id_sec s = Some i"
    and "paras doc i = Inr [pre @ attributes_sentence w e c @ post]"
    and "CHR ''{'' \<notin> set pre"
  shows "getAttributes doc s = Inr (Some (attribute_code w e c)) \<and>
         (CHR ''w'' \<in> set (attribute_code w e c) \<longleftrightarrow> w) \<and>
         (CHR ''e'' \<in> set (attribute_code w e c) \<longleftrightarrow> e) \<and>
         (CHR ''c'' \<in> set (attribute_code w e c) \<longleftrightarrow> c) \<and>
         subseq (attribute_code w e c) ''wec'' \<and>
         (w \<and> \<not> e \<and> c \<longrightarrow> getAttributes doc s = Inr (Some ''wc'')) \<and>
         (\<not> w \<and> \<not> e \<and> \<not> c \<longrightarrow> getAttributes doc s = Inr (Some []))"
proof -
  have m: "match_attributes (pre @ attributes_sentence w e c @ post) = Some (w, e, c)"
    using assms(3) by (rule match_attributes_sentence)
  have g: "getAttributes doc s = Inr (Some (attribute_code w e c))"
    by (simp add: getAttributes_def assms(1,2) m assert_def on_ok_def)
  have wc: "w \<and> \<not> e \<and> c \<longrightarrow> attribute_code w e c = ''wc''"
    by (simp add: attribute_code_def)
  have none: "\<not> w \<and> \<not> e \<and> \<not> c \<longrightarrow> attribute_code w e c = []"
    by (simp add: attribute_code_def)
  show ?thesis using g wc none attribute_code_letters [of w e c] by simp
qed

theorem getAttributes_code_witness:
  "id_sec (Section ''Foo.bar'' (Some ''sec-foo.bar'') []) = Some ''sec-foo.bar'' \<and>
   paras doc_wc ''sec-foo.bar'' = Inr [''This property '' @ attributes_sentence True False True @ []] \<and>
   CHR ''{'' \<notin> set ''This property '' \<and>
   getAttributes doc_wc (Section ''Foo.bar'' (Some ''sec-foo.bar'') []) = Inr (Some ''wc'') \<and>
   paras doc_wc ''sec-baz'' = Inr [''This property '' @ attributes_sentence False False False @ []] \<and>
   getAttributes doc_wc (Section ''baz'' (Some ''sec-baz'') []) = Inr (Some [])"
proof -
  have i1: "id_sec (Section ''Foo.bar'' (Some ''sec-foo.bar'') []) = Some ''sec-foo.bar''"
    and i2: "id_sec (Section ''baz'' (Some ''sec-baz'') []) = Some ''sec-baz''"
    by simp_all
  have p1: "paras doc_wc ''sec-foo.bar'' = Inr [''This property '' @ attributes_sentence True False True @ []]"
    by code_simp
  have p2: "paras doc_wc ''sec-baz'' = Inr [''This property '' @ attributes_sentence False False False @ []]"
    by code_simp
  have b: "CHR ''{'' \<notin> set ''This property ''" by simp
  show ?thesis
    using getAttributes_code [OF i1 p1 b] getAttributes_code [OF i2 p2 b] i1 p1 p2 b
    by (simp add: attribute_code_def)
qed

lemma answers_engine: "answers pg (engine pg)"
  by (simp add: answers_def engine_def split: parsed.splits)

lemma name_char_facts:
  "is_name_char c \<Longrightarrow> c \<noteq> CHR 0x5C \<and> c \<noteq> CHR ''#'' \<and> c \<noteq> CHR ''.'' \<and> c \<noteq> CHR ''@'' \<and> c \<noteq> CHR '' ''"
  by (auto simp: is_name_char_def)

lemma name_run_escaped:
  "list_all plain_id_char i \<Longrightarrow>
   name_run (escape_id i @ CHR '' '' # z) = Run i (length (escape_id i))"
proof (induction i)
  case Nil
  show ?case by (cases z) (simp_all add: escape_id_def is_name_char_def)
next
  case (Cons c i)
  then have ih: "name_run (escape_id i @ CHR '' '' # z) = Run i (length (escape_id i))"
    and sc: "plain_id_char c" by simp_all
  obtain x xs where x: "escape_id i @ CHR '' '' # z = x # xs"
    by (cases "escape_id i @ CHR '' '' # z") simp_all
  show ?case
  proof (cases "is_name_char c")
    case True
    then show ?thesis using ih x name_char_facts [OF True]
      by (simp add: escape_id_def)
  next
    case False
    then have "c = CHR ''.'' \<or> c = CHR ''@''" using sc by (simp add: plain_id_char_def)
    then show ?thesis using ih
      by (auto simp: escape_id_def is_hex_def is_line_terminator_def)
  qed
qed


lemma parse_name_escaped:
  assumes "list_all plain_id_char i" and "i \<noteq> []"
  shows "parse_name (escape_id i @ CHR '' '' # z) = Name i (length (escape_id i) - 1)"
proof -
  obtain c j where i: "i = c # j" using assms(2) by (cases i) simp_all
  have sc: "plain_id_char c" and sj: "list_all plain_id_char j" using assms(1) i by simp_all
  show ?thesis
  proof (cases "is_name_char c")
    case True
    then show ?thesis
      using name_run_escaped [OF sj, of z] name_char_facts [OF True]
      by (simp add: parse_name_def i escape_id_def)
  next
    case False
    then have "c = CHR ''.'' \<or> c = CHR ''@''" using sc by (simp add: plain_id_char_def)
    then show ?thesis
      using name_run_escaped [OF assms(1), of z] assms(2)
      by (auto simp: parse_name_def i escape_id_def)
  qed
qed

lemma parse_selector_escaped:
  assumes "list_all plain_id_char i" and "i \<noteq> []"
  shows "parse_selector (''#'' @ escape_id i @ '' > p'') = Tokens [Id i, Child, Tag ''p'']"
proof -
  have n: "parse_name (escape_id i @ '' > p'') = Name i (length (escape_id i) - 1)"
    using parse_name_escaped [OF assms, of "''> p''"] by simp
  have l: "escape_id i \<noteq> []" using assms(2) by (cases i) (simp_all add: escape_id_def)
  then have d: "Suc (length (escape_id i) - Suc 0) = length (escape_id i)"
    by (cases "escape_id i") simp_all
  have t: "parse_tokens [Id i] True '' > p'' = Tokens [Id i, Child, Tag ''p'']"
    by (simp add: is_css_space_def parse_name_def is_name_char_def is_upper_def)
  have s: "parse_tokens [] False (CHR ''#'' # r) =
      (case parse_name r of
         Name n k \<Rightarrow> parse_tokens [Id n] True (drop (Suc k) r)
       | No_name \<Rightarrow> Throws
       | Name_beyond \<Rightarrow> Beyond)" for r
    by (simp add: is_css_space_def)
  show ?thesis
    unfolding parse_selector_def
    by (simp add: s n d t del: parse_tokens.simps)
qed


lemma select_nodes_paragraphs:
  "select_nodes [Tag ''p'', Child, Id i] anc n =
   paragraphs_in i (case anc of [] \<Rightarrow> None | p # ps \<Rightarrow> snd p) n"
proof (induction n arbitrary: anc)
  case (Text t)
  show ?case by simp
next
  case (Element tg j ns)
  have h: "select_nodes [Tag ''p'', Child, Id i] ((tg, j) # a) x = paragraphs_in i j x"
    if "x \<in> set ns" for x a
    using Element [OF that, of "(tg, j) # a"] by simp
  have e: "concat (map (select_nodes [Tag ''p'', Child, Id i] ((tg, j) # a)) ns) =
           concat (map (paragraphs_in i j) ns)" for a
    by (rule arg_cong [where f = concat], rule map_cong [OF refl], rule h)
  show ?case by (cases anc) (auto simp: e)
qed

lemma select_texts_paragraphs:
  "select_texts pg [Id i, Child, Tag ''p''] = direct_paragraphs pg i"
proof -
  have "select_nodes [Tag ''p'', Child, Id i] [] = paragraphs_in i None"
    by (rule ext) (simp add: select_nodes_paragraphs)
  then show ?thesis by (simp add: select_texts_def direct_paragraphs_def)
qed

lemma select_nodes_none:
  assumes "\<And>e anc. \<not> matches ts e anc"
  shows "select_nodes ts anc n = []"
proof (induction n arbitrary: anc)
  case (Text t)
  show ?case by simp
next
  case (Element tg j ns)
  then show ?case using assms by simp
qed

lemma paras_safe:
  assumes "answers pg doc" and "list_all plain_id_char i" and "i \<noteq> []"
  shows "paras doc i =
         Inr (filter (\<lambda>t. includes_str t ''has the attributes'') (direct_paragraphs pg i))"
proof -
  have "doc (''#'' @ escape_id i @ '' > p'') = Inr (select_texts pg [Id i, Child, Tag ''p''])"
    using assms(1) parse_selector_escaped [OF assms(2,3)]
    by (simp add: answers_def split: parsed.splits)
  then show ?thesis by (simp add: paras_def on_ok_def select_texts_paragraphs)
qed


lemma answers_throws:
  "answers pg doc \<Longrightarrow> parse_selector sel = Throws \<Longrightarrow> doc sel = Inl SelectorError"
  by (simp add: answers_def split: parsed.splits)

lemma answers_tokens:
  "answers pg doc \<Longrightarrow> parse_selector sel = Tokens toks \<Longrightarrow> doc sel = Inr (select_texts pg toks)"
  by (simp add: answers_def split: parsed.splits)

lemma select_texts_two_tags:
  assumes "a \<noteq> b"
  shows "select_texts pg [x, Tag a, Tag b, Child, Tag c] = []"
proof -
  have "\<not> matches [Tag c, Child, Tag b, Tag a, x] e anc" for e anc
    using assms by (cases anc) auto
  then have "select_nodes [Tag c, Child, Tag b, Tag a, x] [] n = []" for n
    by (rule select_nodes_none)
  then show ?thesis by (simp add: select_texts_def)
qed

text \<open>
  Claim C6. The selector is built with a backslash before the dots and at signs of the
  identifier only, and a percent sign is not a name character of the selector language.
  Let \<open>$\<close> answer a page. For a section whose identifier is not empty and has only name
  characters, dots and at signs, the extractor returns no attributes when no direct
  paragraph of the element with that identifier has the marker, and fails when more than
  one has it; a data property for which the extractor returns no attributes gets the code
  \<open>wc\<close>. For the identifier \<open>sec-%typedarray%\<close> the selector is malformed and the
  extractor fails with the error of the selector parser. For \<open>sec-%typedarray%.from\<close> and
  \<open>sec-%typedarray%.prototype\<close> the selector asks for an element with two tag names,
  so the extractor returns no attributes whatever paragraphs the element has, and the
  property gets the code \<open>wc\<close>.
\<close>

theorem getAttributes_selector:
  assumes "answers pg doc"
  shows "(list_all plain_id_char i \<and> i \<noteq> [] \<and> id_sec s = Some i \<longrightarrow>
            (length (marker_paragraphs pg i) = 0 \<longrightarrow> getAttributes doc s = Inr None) \<and>
            (1 < length (marker_paragraphs pg i) \<longrightarrow> getAttributes doc s = Inl AssertionError)) \<and>
         (getAttributes doc s = Inr None \<and>
          length (filter (\<lambda>t. is_accessor_title (title t)) (children s)) \<noteq> 2 \<and>
          \<not> is_accessor_title (title s) \<longrightarrow>
            makeProperty doc s = Inr (DataProperty (remove_spaces (title s)) ''wc'')) \<and>
         getAttributes doc (Section t (Some ''sec-%typedarray%'') cs) = Inl SelectorError \<and>
         getAttributes doc (Section t (Some ''sec-%typedarray%.from'') cs) = Inr None \<and>
         makeProperty doc (Section ''%TypedArray%.prototype'' (Some ''sec-%typedarray%.prototype'') []) =
           Inr (DataProperty ''%TypedArray%.prototype'' ''wc'')"
proof -
  have zero: "getAttributes doc s = Inr None"
    if "list_all plain_id_char i" "i \<noteq> []" "id_sec s = Some i"
      "length (marker_paragraphs pg i) = 0"
    using paras_safe [OF assms that(1,2)] that(3,4)
    by (simp add: getAttributes_def marker_paragraphs_def on_ok_def)
  have many: "getAttributes doc s = Inl AssertionError"
    if "list_all plain_id_char i" "i \<noteq> []" "id_sec s = Some i"
      "1 < length (marker_paragraphs pg i)"
    using paras_safe [OF assms that(1,2)] that(3,4)
    by (auto simp: getAttributes_def marker_paragraphs_def on_ok_def assert_def)
  have default:
    "getAttributes doc s = Inr None \<and>
     length (filter (\<lambda>t. is_accessor_title (title t)) (children s)) \<noteq> 2 \<and>
     \<not> is_accessor_title (title s) \<longrightarrow>
       makeProperty doc s = Inr (DataProperty (remove_spaces (title s)) ''wc'')"
    by (simp add: makeProperty_def on_ok_def)
  have "parse_selector (''#'' @ escape_id ''sec-%typedarray%'' @ '' > p'') = Throws"
    by code_simp
  then have "doc (''#'' @ escape_id ''sec-%typedarray%'' @ '' > p'') = Inl SelectorError"
    by (rule answers_throws [OF assms])
  then have throws: "getAttributes doc (Section t (Some ''sec-%typedarray%'') cs) = Inl SelectorError"
    by (simp add: getAttributes_def paras_def on_ok_def)
  have "parse_selector (''#'' @ escape_id ''sec-%typedarray%.from'' @ '' > p'') =
        Tokens [Id ''sec-'', Tag ''%typedarray'', Tag ''%.from'', Child, Tag ''p'']"
    by code_simp
  then have "doc (''#'' @ escape_id ''sec-%typedarray%.from'' @ '' > p'') = Inr []"
    using answers_tokens [OF assms] select_texts_two_tags [of "''%typedarray''" "''%.from''" pg]
    by simp
  then have null: "getAttributes doc (Section t (Some ''sec-%typedarray%.from'') cs) = Inr None"
    by (simp add: getAttributes_def paras_def on_ok_def)
  have "parse_selector (''#'' @ escape_id ''sec-%typedarray%.prototype'' @ '' > p'') =
        Tokens [Id ''sec-'', Tag ''%typedarray'', Tag ''%.prototype'', Child, Tag ''p'']"
    by code_simp
  then have "doc (''#'' @ escape_id ''sec-%typedarray%.prototype'' @ '' > p'') = Inr []"
    using answers_tokens [OF assms] select_texts_two_tags [of "''%typedarray''" "''%.prototype''" pg]
    by simp
  then have "getAttributes doc (Section ''%TypedArray%.prototype'' (Some ''sec-%typedarray%.prototype'') []) = Inr None"
    by (simp add: getAttributes_def paras_def on_ok_def)
  moreover have "\<not> is_accessor_title ''%TypedArray%.prototype''"
    "remove_spaces ''%TypedArray%.prototype'' = ''%TypedArray%.prototype''"
    by code_simp+
  ultimately have wc: "makeProperty doc (Section ''%TypedArray%.prototype'' (Some ''sec-%typedarray%.prototype'') []) =
           Inr (DataProperty ''%TypedArray%.prototype'' ''wc'')"
    by (simp add: makeProperty_def on_ok_def)
  show ?thesis
  proof (intro conjI impI)
    assume "list_all plain_id_char i \<and> i \<noteq> [] \<and> id_sec s = Some i"
      and "length (marker_paragraphs pg i) = 0"
    then show "getAttributes doc s = Inr None" using zero by blast
  next
    assume "list_all plain_id_char i \<and> i \<noteq> [] \<and> id_sec s = Some i"
      and "1 < length (marker_paragraphs pg i)"
    then show "getAttributes doc s = Inl AssertionError" using many by blast
  next
    assume "getAttributes doc s = Inr None \<and>
      length (filter (\<lambda>t. is_accessor_title (title t)) (children s)) \<noteq> 2 \<and>
      \<not> is_accessor_title (title s)"
    then show "makeProperty doc s = Inr (DataProperty (remove_spaces (title s)) ''wc'')"
      using default by blast
  qed (rule throws null wc)+
qed

theorem getAttributes_selector_witness:
  "answers page_typed_array (engine page_typed_array) \<and>
   list_all plain_id_char ''sec-length'' \<and>
   length (marker_paragraphs page_typed_array ''sec-length'') = 0 \<and>
   getAttributes (engine page_typed_array) (Section ''length'' (Some ''sec-length'') []) = Inr None \<and>
   makeProperty (engine page_typed_array) (Section ''length'' (Some ''sec-length'') []) =
     Inr (DataProperty ''length'' ''wc'') \<and>
   list_all plain_id_char ''sec-two'' \<and>
   1 < length (marker_paragraphs page_typed_array ''sec-two'') \<and>
   getAttributes (engine page_typed_array) (Section ''two'' (Some ''sec-two'') []) = Inl AssertionError \<and>
   length (marker_paragraphs page_typed_array ''sec-%typedarray%'') = 1 \<and>
   getAttributes (engine page_typed_array) (Section ''%TypedArray%'' (Some ''sec-%typedarray%'') []) =
     Inl SelectorError \<and>
   length (marker_paragraphs page_typed_array ''sec-%typedarray%.from'') = 2 \<and>
   getAttributes (engine page_typed_array) (Section ''%TypedArray%.from'' (Some ''sec-%typedarray%.from'') []) =
     Inr None \<and>
   marker_paragraphs page_typed_array ''sec-%typedarray%.prototype'' =
     [''This property '' @ attributes_sentence False False False] \<and>
   makeProperty (engine page_typed_array)
     (Section ''%TypedArray%.prototype'' (Some ''sec-%typedarray%.prototype'') []) =
     Inr (DataProperty ''%TypedArray%.prototype'' ''wc'')"
proof -
  have a: "answers page_typed_array (engine page_typed_array)" by (rule answers_engine)
  have s1: "list_all plain_id_char ''sec-length''" "''sec-length'' \<noteq> []"
    "id_sec (Section ''length'' (Some ''sec-length'') []) = Some ''sec-length''"
    "length (marker_paragraphs page_typed_array ''sec-length'') = 0"
    "length (filter (\<lambda>t. is_accessor_title (title t)) (children (Section ''length'' (Some ''sec-length'') []))) \<noteq> 2"
    "\<not> is_accessor_title (title (Section ''length'' (Some ''sec-length'') []))"
    "remove_spaces (title (Section ''length'' (Some ''sec-length'') [])) = ''length''"
    by code_simp+
  have s2: "list_all plain_id_char ''sec-two''" "''sec-two'' \<noteq> []"
    "id_sec (Section ''two'' (Some ''sec-two'') []) = Some ''sec-two''"
    "1 < length (marker_paragraphs page_typed_array ''sec-two'')"
    by code_simp+
  have m: "length (marker_paragraphs page_typed_array ''sec-%typedarray%'') = 1"
    "length (marker_paragraphs page_typed_array ''sec-%typedarray%.from'') = 2"
    "marker_paragraphs page_typed_array ''sec-%typedarray%.prototype'' =
       [''This property '' @ attributes_sentence False False False]"
    by code_simp+
  note t1 = getAttributes_selector [OF a, where i = "''sec-length''"
      and s = "Section ''length'' (Some ''sec-length'') []"
      and t = "''%TypedArray%''" and cs = "[]"]
  note t2 = getAttributes_selector [OF a, where i = "''sec-two''"
      and s = "Section ''two'' (Some ''sec-two'') []"
      and t = "''%TypedArray%.from''" and cs = "[]"]
  have g1: "getAttributes (engine page_typed_array) (Section ''length'' (Some ''sec-length'') []) = Inr None"
    using t1 s1 by blast
  have g2: "makeProperty (engine page_typed_array) (Section ''length'' (Some ''sec-length'') []) =
     Inr (DataProperty ''length'' ''wc'')"
    using t1 g1 s1(5,6,7) by metis
  have g3: "getAttributes (engine page_typed_array) (Section ''two'' (Some ''sec-two'') []) = Inl AssertionError"
    using t2 s2 by blast
  show ?thesis
    using a s1(1,4) s2(1,4) m g1 g2 g3 t1 t2 by (intro conjI) blast+
qed

lemma findIndex_append:
  "list_all (\<lambda>t. \<not> p t) pre \<Longrightarrow> p x \<Longrightarrow> findIndex p (pre @ x # r) = int (length pre)"
  by (induction pre) (auto simp: Let_def)

lemma slice_drop_last: "slice (int (length a)) (- 1) (a @ b @ [x]) = b"
  by (simp add: slice_def Let_def)

lemma slice_prefix: "slice 0 (int (length a)) (a @ b) = a"
  by (simp add: slice_def Let_def)

section \<open>The section reclassifier: claims\<close>

text \<open>
  Claim C4, as stated: the \<open>Error Objects\<close> group becomes the truncated group, the
  \<open>_NativeError_ Object Structure\<close> subtree, and every sibling after it. It fails: the
  slice of the children ends one before the end, so the last child of the group never
  reaches the output. Here the last child, \<open>Abstract Operations for Error Objects\<close>, follows
  the structure subtree and is left out.
\<close>

theorem reclassify_error_objects_counterexample:
  "reclassify error_objects_example =
     Inr [Some (Section ''Error Objects'' (Some ''sec-error-objects'')
            [Section ''The Error Constructor'' (Some ''sec-error-constructor'') [],
             Section ''Properties of Error Instances'' (Some ''sec-properties-of-error-instances'') []]),
          Some (Section ''_NativeError_ Object Structure'' (Some ''sec-nativeerror-object-structure'') []),
          Some (Section ''AggregateError Objects'' (Some ''sec-aggregate-error-objects'') [])] \<and>
   children error_objects_example ! 5 =
     Section ''Abstract Operations for Error Objects'' (Some ''sec-abstract-operations-for-error-objects'') [] \<and>
   (\<exists>out. reclassify error_objects_example = Inr out \<and>
      Some (children error_objects_example ! 5) \<notin> set out)"
  by (simp add: reclassify_def error_objects_example_def slice_def assert_def on_ok_def Let_def)

text \<open>
  Claim C4, amended: the \<open>Error Objects\<close> group becomes the group truncated after
  \<open>Properties of Error Instances\<close>, the \<open>_NativeError_ Object Structure\<close> subtree, and
  every sibling after it but the last child of the group, each unchanged and in order.
\<close>

theorem reclassify_error_objects:
  assumes "title s = ''Error Objects''"
    and "children s = pre @ [inst] @ [types, struct] @ others @ [lastc]"
    and "list_all (\<lambda>t. title t \<noteq> ''Properties of Error Instances'') pre"
    and "title inst = ''Properties of Error Instances''"
    and "title types = ''Native Error Types Used in This Standard''"
    and "title struct = ''_NativeError_ Object Structure''"
  shows "reclassify s =
           Inr (Some (Section ''Error Objects'' (id_sec s) (pre @ [inst]))
                # Some struct # map Some others)"
proof -
  let ?p = "\<lambda>t. title t = ''Properties of Error Instances''"
  have "findIndex ?p (pre @ inst # ([types, struct] @ others @ [lastc])) = int (length pre)"
    by (rule findIndex_append) (use assms(3,4) in \<open>simp_all add: list_all_iff\<close>)
  then have e: "findIndex ?p (children s) + 1 = int (length (pre @ [inst]))"
    by (simp add: assms(2))
  have c: "children s = (pre @ [inst]) @ ([types, struct] @ others) @ [lastc]"
    by (simp add: assms(2))
  have sub: "slice (findIndex ?p (children s) + 1) (- 1) (children s) = types # struct # others"
    unfolding e by (subst c, subst slice_drop_last) simp
  have c2: "children s = (pre @ [inst]) @ ([types, struct] @ others @ [lastc])"
    by (simp add: assms(2))
  have trunc: "slice 0 (findIndex ?p (children s) + 1) (children s) = pre @ [inst]"
    unfolding e by (subst c2, subst slice_prefix) simp
  show ?thesis
    unfolding reclassify_def Let_def sub trunc
    by (simp add: assms(1,5,6) assert_def on_ok_def)
qed

theorem reclassify_error_objects_witness:
  "title error_objects_example = ''Error Objects'' \<and>
   reclassify error_objects_example =
     Inr (Some (Section ''Error Objects'' (id_sec error_objects_example)
                 ([Section ''The Error Constructor'' (Some ''sec-error-constructor'') []] @
                  [Section ''Properties of Error Instances'' (Some ''sec-properties-of-error-instances'') []]))
          # Some (Section ''_NativeError_ Object Structure'' (Some ''sec-nativeerror-object-structure'') [])
          # map Some [Section ''AggregateError Objects'' (Some ''sec-aggregate-error-objects'') []])"
proof -
  have t: "title error_objects_example = ''Error Objects''"
    by (simp add: error_objects_example_def)
  have c: "children error_objects_example =
      [Section ''The Error Constructor'' (Some ''sec-error-constructor'') []] @
      [Section ''Properties of Error Instances'' (Some ''sec-properties-of-error-instances'') []] @
      [Section ''Native Error Types Used in This Standard'' (Some ''sec-native-error-types-used-in-this-standard'') [],
       Section ''_NativeError_ Object Structure'' (Some ''sec-nativeerror-object-structure'') []] @
      [Section ''AggregateError Objects'' (Some ''sec-aggregate-error-objects'') []] @
      [Section ''Abstract Operations for Error Objects'' (Some ''sec-abstract-operations-for-error-objects'') []]"
    by (simp add: error_objects_example_def)
  show ?thesis
    using t reclassify_error_objects [OF t c] by simp
qed

lemma map_err_total: "(\<And>x. f x = Inr (g x)) \<Longrightarrow> map_err f xs = Inr (map g xs)"
  by (induction xs) (simp_all add: on_ok_def)

lemma expandSection_property_sel:
  "prop_name (expandSection_property a t p) = js_replace (prop_name p) a t"
  "prop_attributes (expandSection_property a t p) = prop_attributes p"
  by (cases p; simp add: expandSection_property_def)+

lemma expandSection_method_sel:
  "meth_name (expandSection_method a t m) = js_replace (meth_name m) a t"
  "meth_parameters (expandSection_method a t m) = meth_parameters m"
  "meth_attributes (expandSection_method a t m) = meth_attributes m"
  by (cases m; simp add: expandSection_method_def)+

lemma expandSection_constructor_sel:
  "map_option ctor_name (expandSection_constructor a t c) = map_option (\<lambda>k. js_replace (ctor_name k) a t) c"
  "map_option ctor_parameters (expandSection_constructor a t c) = map_option ctor_parameters c"
  by (cases c; simp add: expandSection_constructor_def split: JSConstructor.splits)+

lemma expandAbstractClass_class:
  "is_class s \<Longrightarrow> expandAbstractClass s a t = Inr (expanded s a t)"
  by (cases s) (simp_all add: is_class_def expandAbstractClass_def expanded_def)

lemma expandSection_property_renamed:
  "property_renamed (\<lambda>n. js_replace n a t) p (expandSection_property a t p)"
  by (cases p) (simp_all add: property_renamed_def expandSection_property_def prop_type_def)

lemma expandSection_method_renamed:
  "method_renamed (\<lambda>n. js_replace n a t) m (expandSection_method a t m)"
  by (cases m) (simp add: method_renamed_def expandSection_method_def)

lemma expandSection_constructor_renamed:
  "rel_option (constructor_renamed (\<lambda>n. js_replace n a t)) c (expandSection_constructor a t c)"
  by (cases c)
    (simp_all add: constructor_renamed_def expandSection_constructor_def split: JSConstructor.splits)

lemma expandSection_properties_renamed:
  "list_all2 (property_renamed (\<lambda>n. js_replace n a t)) ps (map (expandSection_property a t) ps)"
  by (induction ps) (simp_all add: expandSection_property_renamed)

lemma expandSection_methods_renamed:
  "list_all2 (method_renamed (\<lambda>n. js_replace n a t)) ms (map (expandSection_method a t) ms)"
  by (induction ms) (simp_all add: expandSection_method_renamed)

lemma expanded_sibling: "sibling_of s a (expanded s a t) t"
  by (simp add: sibling_of_def expanded_def is_class_def expandSection_constructor_renamed
      expandSection_properties_renamed expandSection_methods_renamed)

lemma expand_list:
  assumes "is_class s"
  shows "map_err (\<lambda>t. expandAbstractClass s a t) ts = Inr (map (expanded s a) ts)"
  by (rule map_err_total) (rule expandAbstractClass_class [OF assms])

lemma siblings_of_list:
  "map name (map (expanded s a) ts) = ts \<and> list_all2 (sibling_of s a) (map (expanded s a) ts) ts"
  by (induction ts) (simp_all add: expanded_sibling, simp add: expanded_def)

lemma find_first_snoc:
  "\<not> includes_str (u @ q) (q @ [x]) \<Longrightarrow> find_first (q @ [x]) (u @ (q @ [x]) @ v) = Some (u, v)"
proof (induction u)
  case Nil
  then show ?case by (cases q) simp_all
next
  case (Cons c u)
  have np: "\<not> prefix (q @ [x]) ((c # u) @ q)" and ni: "\<not> includes_str (u @ q) (q @ [x])"
    using Cons.prems(1) by simp_all
  have "\<not> prefix (q @ [x]) (c # u @ (q @ [x]) @ v)"
  proof
    assume a: "prefix (q @ [x]) (c # u @ (q @ [x]) @ v)"
    have b: "prefix ((c # u) @ q) (c # u @ (q @ [x]) @ v)" by simp
    have "prefix (q @ [x]) ((c # u) @ q)"
      by (rule prefix_length_prefix [OF a b]) simp
    then show False using np by simp
  qed
  then show ?case using Cons.IH [OF ni] by simp
qed

lemma find_first_here:
  assumes "\<not> includes_str (u @ butlast p) p" "p \<noteq> []"
  shows "find_first p (u @ p @ v) = Some (u, v)"
proof -
  have p: "p = butlast p @ [last p]" using assms(2) by simp
  have "find_first (butlast p @ [last p]) (u @ (butlast p @ [last p]) @ v) = Some (u, v)"
    by (rule find_first_snoc) (use assms(1) p in simp)
  then show ?thesis using p by simp
qed

lemma get_substitution_plain: "CHR ''$'' \<notin> set t \<Longrightarrow> get_substitution m b a t = t"
  by (induction m b a t rule: get_substitution.induct) auto

section \<open>The abstract class expander: claims\<close>

lemma property_renamed_unique:
  "property_renamed f p q \<Longrightarrow> property_renamed f p q' \<Longrightarrow> q = q'"
  by (cases q; cases q') (auto simp: property_renamed_def prop_type_def split: JSProperty.splits)

lemma method_renamed_unique:
  "method_renamed f m k \<Longrightarrow> method_renamed f m k' \<Longrightarrow> k = k'"
  by (cases k; cases k') (simp add: method_renamed_def)

lemma constructor_renamed_unique:
  "rel_option (constructor_renamed f) c d \<Longrightarrow> rel_option (constructor_renamed f) c d' \<Longrightarrow> d = d'"
  by (cases c; cases d; cases d') (auto simp: constructor_renamed_def intro: JSConstructor.expand)

lemma list_all2_unique:
  assumes "\<And>x y z. r x y \<Longrightarrow> r x z \<Longrightarrow> y = z"
  shows "list_all2 r xs ys \<Longrightarrow> list_all2 r xs zs \<Longrightarrow> ys = zs"
proof (induction xs arbitrary: ys zs)
  case Nil
  then show ?case by simp
next
  case (Cons x xs)
  then show ?case using assms by (auto simp: list_all2_Cons1)
qed

lemma properties_renamed_unique:
  assumes "list_all2 (property_renamed f) xs ys" and "list_all2 (property_renamed f) xs zs"
  shows "ys = zs"
  by (rule list_all2_unique [OF _ assms]) (rule property_renamed_unique)

lemma methods_renamed_unique:
  assumes "list_all2 (method_renamed f) xs ys" and "list_all2 (method_renamed f) xs zs"
  shows "ys = zs"
  by (rule list_all2_unique [OF _ assms]) (rule method_renamed_unique)

lemma sibling_of_unique:
  assumes "sibling_of s p c t" and "sibling_of s p c' t"
  shows "c = c'"
proof -
  have "constructor c = constructor c'"
    using assms by (auto simp: sibling_of_def intro: constructor_renamed_unique)
  moreover have "staticProperties c = staticProperties c'"
    using assms by (auto simp: sibling_of_def intro: properties_renamed_unique)
  moreover have "prototypeProperties c = prototypeProperties c'"
    using assms by (auto simp: sibling_of_def intro: properties_renamed_unique)
  moreover have "staticMethods c = staticMethods c'"
    using assms by (auto simp: sibling_of_def intro: methods_renamed_unique)
  moreover have "instanceMethods c = instanceMethods c'"
    using assms by (auto simp: sibling_of_def intro: methods_renamed_unique)
  moreover have "is_class c" "is_class c'" "name c = name c'" "global c = global c'"
    "instanceProperties c = instanceProperties c'"
    using assms by (simp_all add: sibling_of_def)
  ultimately show ?thesis
    by (cases c; cases c') (simp_all add: is_class_def)
qed

lemma find_first_some: "find_first p s = Some (b, a) \<Longrightarrow> s = b @ p @ a"
proof (induction s arbitrary: b)
  case Nil
  then show ?case by (simp split: if_splits)
next
  case (Cons c cs)
  show ?case
  proof (cases "prefix p (c # cs)")
    case True
    then show ?thesis using Cons.prems by (auto simp: prefix_def)
  next
    case False
    then obtain b' where "find_first p cs = Some (b', a)" "b = c # b'"
      using Cons.prems by auto
    then show ?thesis using Cons.IH by simp
  qed
qed

lemma find_first_none: "find_first p s = None \<longleftrightarrow> \<not> includes_str s p"
  by (induction s) auto

lemma js_replace_absent: "\<not> includes_str n p \<Longrightarrow> js_replace n p t = n"
  by (simp add: js_replace_def find_first_none [symmetric])

lemma js_replace_template:
  "\<not> includes_str (u @ butlast p) p \<Longrightarrow> p \<noteq> [] \<Longrightarrow>
   js_replace (u @ p @ v) p t = u @ get_substitution p u v t @ v"
  by (simp add: js_replace_def find_first_here)


lemma load_mono:
  assumes "load st r = Some s"
    and "prefix (property_arrays st) (property_arrays st')"
    and "prefix (method_arrays st) (method_arrays st')"
  shows "load st' r = Some s"
proof -
  obtain ps ms where e: "property_arrays st' = property_arrays st @ ps"
    "method_arrays st' = method_arrays st @ ms"
    using assms(2,3) by (auto simp: prefix_def)
  show ?thesis
    using assms(1)
    by (cases r) (auto simp: load_def e nth_append split: if_splits)
qed

lemma expandAbstractClass_ref_loaded:
  assumes "load st r = Some s" and "is_class s"
  shows "\<exists>c st'. expandAbstractClass_ref r a t st = Inr (c, st') \<and>
           load st' c = Some (expanded s a t) \<and>
           instanceProperties_ref c = instanceProperties_ref r \<and>
           prefix (property_arrays st) (property_arrays st') \<and>
           prefix (method_arrays st) (method_arrays st')"
proof (cases r)
  case (Class_ref n g c sp sm pp im ip)
  then have b: "sp < length (property_arrays st)" "sm < length (method_arrays st)"
    "pp < length (property_arrays st)" "im < length (method_arrays st)"
    "ip < length (property_arrays st)"
    and s: "s = Class n g c (property_arrays st ! sp) (method_arrays st ! sm)
                  (property_arrays st ! pp) (method_arrays st ! im) (property_arrays st ! ip)"
    using assms(1) by (auto simp: load_def split: if_splits)
  show ?thesis
    using b
    by (simp add: Class_ref s expandAbstractClass_ref_def map_properties_def map_methods_def
        on_ok_def load_def expanded_def nth_append)
next
  case (Other_ref g)
  then show ?thesis using assms by (auto simp: load_def split: if_splits)
qed

lemma map_store_loaded:
  assumes "is_class s"
  shows "load st r = Some s \<Longrightarrow>
         \<exists>cs st'. map_store (\<lambda>t. expandAbstractClass_ref r a t) ts st = Inr (cs, st') \<and>
           map (load st') cs = map (\<lambda>t. Some (expanded s a t)) ts \<and>
           list_all (\<lambda>c. instanceProperties_ref c = instanceProperties_ref r) cs \<and>
           prefix (property_arrays st) (property_arrays st') \<and>
           prefix (method_arrays st) (method_arrays st')"
proof (induction ts arbitrary: st)
  case Nil
  show ?case by simp
next
  case (Cons t ts)
  obtain c st1 where h: "expandAbstractClass_ref r a t st = Inr (c, st1)"
    "load st1 c = Some (expanded s a t)"
    "instanceProperties_ref c = instanceProperties_ref r"
    "prefix (property_arrays st) (property_arrays st1)"
    "prefix (method_arrays st) (method_arrays st1)"
    using expandAbstractClass_ref_loaded [OF Cons.prems assms, of a t] by blast
  have "load st1 r = Some s" using Cons.prems h(4,5) by (rule load_mono)
  then obtain cs st2 where i: "map_store (\<lambda>t. expandAbstractClass_ref r a t) ts st1 = Inr (cs, st2)"
    "map (load st2) cs = map (\<lambda>t. Some (expanded s a t)) ts"
    "list_all (\<lambda>c. instanceProperties_ref c = instanceProperties_ref r) cs"
    "prefix (property_arrays st1) (property_arrays st2)"
    "prefix (method_arrays st1) (method_arrays st2)"
    using Cons.IH by blast
  have l: "load st2 c = Some (expanded s a t)" using h(2) i(4,5) by (rule load_mono)
  have r: "map_store (\<lambda>t. expandAbstractClass_ref r a t) (t # ts) st = Inr (c # cs, st2)"
    by (simp add: h(1) i(1) on_ok_def)
  have p: "prefix (property_arrays st) (property_arrays st2)"
    "prefix (method_arrays st) (method_arrays st2)"
    using h(4,5) i(4,5) by (blast intro: prefix_order.trans)+
  show ?case
    unfolding r using l i(2,3) h(3) p by simp
qed


text \<open>
  Claim C2, as stated: in each sibling the placeholder is replaced by the concrete name in
  the class name as in the member names. It fails for the class name: the expander sets the
  class name to the concrete name. The template \<open>_NativeError_ Object Structure\<close> expands
  to a class named \<open>EvalError\<close>, where replacing the placeholder in the template's name
  gives \<open>EvalError Object Structure\<close>. It fails for the member names too when the concrete
  name has a dollar sign, since \<open>replace\<close> reads it as a template: for the concrete name
  \<open>$&X\<close> the members are named with \<open>_TypedArray_X\<close>. And \<open>replace\<close> changes the first
  occurrence of the placeholder only.
\<close>

theorem expand_native_error_counterexample:
  "expand [] [''EvalError''] native_error_template =
     Inr [Class ''EvalError'' False
            (Some (Constructor ''EvalError()'' \<lparr>required = 1, optional = 1, rest = False\<rparr>))
            [DataProperty ''EvalError.prototype'' []]
            []
            [DataProperty ''EvalError.prototype.constructor'' ''wc'',
             DataProperty ''EvalError.prototype.message'' ''wc'']
            []
            []] \<and>
   js_replace (name native_error_template) ''_NativeError_'' ''EvalError'' = ''EvalError Object Structure'' \<and>
   (\<exists>c. expand [] [''EvalError''] native_error_template = Inr [c] \<and>
        name c \<noteq> js_replace (name native_error_template) ''_NativeError_'' ''EvalError'') \<and>
   expand [''$&X''] [] typed_array_template =
     Inr [Class ''$&X'' False
            (Some (Constructor ''_TypedArray_X()'' \<lparr>required = 0, optional = 0, rest = True\<rparr>))
            [DataProperty ''_TypedArray_X.BYTES_PER_ELEMENT'' [],
             DataProperty ''_TypedArray_X.prototype'' []]
            []
            [DataProperty ''_TypedArray_X.prototype.BYTES_PER_ELEMENT'' [],
             DataProperty ''_TypedArray_X.prototype.constructor'' ''wc'']
            []
            [DataProperty ''length'' ''wc'']] \<and>
   js_replace ''_NativeError_.prototype._NativeError_'' ''_NativeError_'' ''EvalError'' =
     ''EvalError.prototype._NativeError_''"
proof -
  have e: "expand [] [''EvalError''] native_error_template =
     Inr [Class ''EvalError'' False
            (Some (Constructor ''EvalError()'' \<lparr>required = 1, optional = 1, rest = False\<rparr>))
            [DataProperty ''EvalError.prototype'' []]
            []
            [DataProperty ''EvalError.prototype.constructor'' ''wc'',
             DataProperty ''EvalError.prototype.message'' ''wc'']
            []
            []]"
    by code_simp
  have r: "js_replace (name native_error_template) ''_NativeError_'' ''EvalError'' = ''EvalError Object Structure''"
    by code_simp
  have d: "expand [''$&X''] [] typed_array_template =
     Inr [Class ''$&X'' False
            (Some (Constructor ''_TypedArray_X()'' \<lparr>required = 0, optional = 0, rest = True\<rparr>))
            [DataProperty ''_TypedArray_X.BYTES_PER_ELEMENT'' [],
             DataProperty ''_TypedArray_X.prototype'' []]
            []
            [DataProperty ''_TypedArray_X.prototype.BYTES_PER_ELEMENT'' [],
             DataProperty ''_TypedArray_X.prototype.constructor'' ''wc'']
            []
            [DataProperty ''length'' ''wc'']]"
    by code_simp
  have f: "js_replace ''_NativeError_.prototype._NativeError_'' ''_NativeError_'' ''EvalError'' =
     ''EvalError.prototype._NativeError_''"
    by code_simp
  show ?thesis unfolding e r d f by simp
qed

text \<open>
  Claim C2, amended: expanding the \<open>_TypedArray_\<close> or the \<open>_NativeError_\<close> template class
  gives one sibling class per name of the corresponding reference list, in order, named by
  that name itself. In each sibling the constructor and every static property, static
  method, prototype property and instance method is the template's, one for one, with
  \<open>name.replace(placeholder, concrete name)\<close> for its name and nothing else changed; such a
  sibling is unique. \<open>replace\<close> leaves a name without the placeholder as it is, and else
  puts, in the place of the first occurrence of the placeholder, the concrete name read as
  a replacement template, which is the concrete name itself when it has no dollar sign.
  The \<open>instanceProperties\<close> array is the very same array, shared by reference by the
  template and all siblings and not modified: run on a store of arrays, the expander gives
  every sibling the address that the template has for it, the store only grows, and the
  siblings read from the new store are those of the run on values.
\<close>

theorem expand_templates:
  assumes "is_class s"
  shows "(name s = ''_TypedArray_'' \<longrightarrow>
            (\<exists>siblings. expand typedArrayTypes errorTypes s = Inr siblings \<and>
               map name siblings = typedArrayTypes \<and>
               list_all2 (sibling_of s ''_TypedArray_'') siblings typedArrayTypes)) \<and>
         (name s = ''_NativeError_ Object Structure'' \<longrightarrow>
            (\<exists>siblings. expand typedArrayTypes errorTypes s = Inr siblings \<and>
               map name siblings = errorTypes \<and>
               list_all2 (sibling_of s ''_NativeError_'') siblings errorTypes)) \<and>
         (load st r = Some s \<and>
          (name s = ''_TypedArray_'' \<or> name s = ''_NativeError_ Object Structure'') \<longrightarrow>
            (\<exists>refs st' siblings.
               expand_ref typedArrayTypes errorTypes r st = Inr (refs, st') \<and>
               expand typedArrayTypes errorTypes s = Inr siblings \<and>
               map (load st') refs = map Some siblings \<and>
               list_all (\<lambda>c. instanceProperties_ref c = instanceProperties_ref r) refs \<and>
               prefix (property_arrays st) (property_arrays st') \<and>
               prefix (method_arrays st) (method_arrays st'))) \<and>
         (sibling_of s p c t \<and> sibling_of s p c' t \<longrightarrow> c = c') \<and>
         (\<not> includes_str n p \<longrightarrow> js_replace n p t = n) \<and>
         (\<not> includes_str (u @ butlast p) p \<and> p \<noteq> [] \<longrightarrow>
            js_replace (u @ p @ v) p t = u @ get_substitution p u v t @ v) \<and>
         (CHR ''$'' \<notin> set t \<longrightarrow> get_substitution p u v t = t)"
proof (intro conjI impI)
  assume n: "name s = ''_TypedArray_''"
  have "expand typedArrayTypes errorTypes s = Inr (map (expanded s ''_TypedArray_'') typedArrayTypes)"
    by (simp add: expand_def assms n expand_list [OF assms])
  then show "\<exists>siblings. expand typedArrayTypes errorTypes s = Inr siblings \<and>
               map name siblings = typedArrayTypes \<and>
               list_all2 (sibling_of s ''_TypedArray_'') siblings typedArrayTypes"
    using siblings_of_list [of s "''_TypedArray_''" typedArrayTypes] by blast
next
  assume n: "name s = ''_NativeError_ Object Structure''"
  have "expand typedArrayTypes errorTypes s = Inr (map (expanded s ''_NativeError_'') errorTypes)"
    by (simp add: expand_def assms n expand_list [OF assms])
  then show "\<exists>siblings. expand typedArrayTypes errorTypes s = Inr siblings \<and>
               map name siblings = errorTypes \<and>
               list_all2 (sibling_of s ''_NativeError_'') siblings errorTypes"
    using siblings_of_list [of s "''_NativeError_''" errorTypes] by blast
next
  assume a: "load st r = Some s \<and>
    (name s = ''_TypedArray_'' \<or> name s = ''_NativeError_ Object Structure'')"
  then have l: "load st r = Some s" by simp
  obtain nm g c sp sm pp im ip where r: "r = Class_ref nm g c sp sm pp im ip"
    using l assms by (cases r) (auto simp: load_def split: if_splits)
  have nm: "name s = nm" using l by (auto simp: r load_def split: if_splits)
  have "\<exists>a ts. expand_ref typedArrayTypes errorTypes r st =
            map_store (\<lambda>t. expandAbstractClass_ref r a t) ts st \<and>
          expand typedArrayTypes errorTypes s = Inr (map (expanded s a) ts)"
  proof (cases "name s = ''_TypedArray_''")
    case True
    then show ?thesis
      using nm by (auto simp: expand_ref_def r expand_def assms expand_list [OF assms])
  next
    case False
    then have "name s = ''_NativeError_ Object Structure''" using a by simp
    then show ?thesis
      using nm by (auto simp: expand_ref_def r expand_def assms expand_list [OF assms])
  qed
  then obtain a ts where e: "expand_ref typedArrayTypes errorTypes r st =
            map_store (\<lambda>t. expandAbstractClass_ref r a t) ts st"
    and v: "expand typedArrayTypes errorTypes s = Inr (map (expanded s a) ts)"
    by blast
  obtain refs st' where m: "map_store (\<lambda>t. expandAbstractClass_ref r a t) ts st = Inr (refs, st')"
    "map (load st') refs = map (\<lambda>t. Some (expanded s a t)) ts"
    "list_all (\<lambda>c. instanceProperties_ref c = instanceProperties_ref r) refs"
    "prefix (property_arrays st) (property_arrays st')"
    "prefix (method_arrays st) (method_arrays st')"
    using map_store_loaded [OF assms l, of a ts] by blast
  have w: "map (load st') refs = map Some (map (expanded s a) ts)"
    using m(2) by (simp add: comp_def)
  show "\<exists>refs st' siblings.
               expand_ref typedArrayTypes errorTypes r st = Inr (refs, st') \<and>
               expand typedArrayTypes errorTypes s = Inr siblings \<and>
               map (load st') refs = map Some siblings \<and>
               list_all (\<lambda>c. instanceProperties_ref c = instanceProperties_ref r) refs \<and>
               prefix (property_arrays st) (property_arrays st') \<and>
               prefix (method_arrays st) (method_arrays st')"
  proof (intro exI conjI)
    show "expand_ref typedArrayTypes errorTypes r st = Inr (refs, st')" using e m(1) by simp
    show "expand typedArrayTypes errorTypes s = Inr (map (expanded s a) ts)" by (rule v)
  qed (rule w m(3,4,5))+
next
  assume "sibling_of s p c t \<and> sibling_of s p c' t"
  then show "c = c'" by (blast intro: sibling_of_unique)
next
  assume "\<not> includes_str n p"
  then show "js_replace n p t = n" by (rule js_replace_absent)
next
  assume "\<not> includes_str (u @ butlast p) p \<and> p \<noteq> []"
  then show "js_replace (u @ p @ v) p t = u @ get_substitution p u v t @ v"
    by (simp add: js_replace_template)
next
  assume "CHR ''$'' \<notin> set t"
  then show "get_substitution p u v t = t" by (rule get_substitution_plain)
qed


theorem expand_templates_witness:
  "is_class typed_array_template \<and> name typed_array_template = ''_TypedArray_'' \<and>
   (\<exists>siblings. expand [''Int8Array'', ''Uint8Array''] [''EvalError''] typed_array_template = Inr siblings \<and>
      map name siblings = [''Int8Array'', ''Uint8Array''] \<and>
      list_all2 (sibling_of typed_array_template ''_TypedArray_'') siblings [''Int8Array'', ''Uint8Array'']) \<and>
   is_class native_error_template \<and> name native_error_template = ''_NativeError_ Object Structure'' \<and>
   (\<exists>siblings. expand [''Int8Array'', ''Uint8Array''] [''EvalError''] native_error_template = Inr siblings \<and>
      map name siblings = [''EvalError''] \<and>
      list_all2 (sibling_of native_error_template ''_NativeError_'') siblings [''EvalError'']) \<and>
   load typed_array_store typed_array_template_ref = Some typed_array_template \<and>
   (\<exists>refs st' siblings.
      expand_ref [''Int8Array'', ''Uint8Array''] [''EvalError''] typed_array_template_ref typed_array_store =
        Inr (refs, st') \<and>
      expand [''Int8Array'', ''Uint8Array''] [''EvalError''] typed_array_template = Inr siblings \<and>
      map (load st') refs = map Some siblings \<and>
      list_all (\<lambda>c. instanceProperties_ref c = instanceProperties_ref typed_array_template_ref) refs \<and>
      prefix (property_arrays typed_array_store) (property_arrays st') \<and>
      prefix (method_arrays typed_array_store) (method_arrays st')) \<and>
   (\<exists>refs st'.
      expand_ref [''Int8Array'', ''Uint8Array''] [''EvalError''] typed_array_template_ref typed_array_store =
        Inr (refs, st') \<and>
      map name_ref refs = [''Int8Array'', ''Uint8Array''] \<and>
      map instanceProperties_ref refs = [2, 2] \<and>
      instanceProperties_ref typed_array_template_ref = 2 \<and>
      property_arrays st' ! 2 = [DataProperty ''length'' ''wc''] \<and>
      load st' (refs ! 0) = Some int8_array_class) \<and>
   sibling_of typed_array_template ''_TypedArray_'' int8_array_class ''Int8Array'' \<and>
   \<not> includes_str ''length'' ''_TypedArray_'' \<and>
   js_replace ''length'' ''_TypedArray_'' ''Int8Array'' = ''length'' \<and>
   \<not> includes_str ([] @ butlast ''_TypedArray_'') ''_TypedArray_'' \<and>
   js_replace ''_TypedArray_.prototype'' ''_TypedArray_'' ''Int8Array'' = ''Int8Array.prototype'' \<and>
   CHR ''$'' \<notin> set ''Int8Array'' \<and>
   get_substitution ''_TypedArray_'' [] ''.prototype'' ''Int8Array'' = ''Int8Array''"
proof -
  have c1: "is_class typed_array_template" and n1: "name typed_array_template = ''_TypedArray_''"
    by (simp_all add: typed_array_template_def is_class_def)
  have c2: "is_class native_error_template"
    and n2: "name native_error_template = ''_NativeError_ Object Structure''"
    by (simp_all add: native_error_template_def is_class_def)
  have l: "load typed_array_store typed_array_template_ref = Some typed_array_template"
    by code_simp
  have s: "sibling_of typed_array_template ''_TypedArray_'' int8_array_class ''Int8Array''"
    by code_simp
  have h: "\<not> includes_str ''length'' ''_TypedArray_''"
    "\<not> includes_str ([] @ butlast ''_TypedArray_'') ''_TypedArray_''"
    "''_TypedArray_'' \<noteq> []"
    "CHR ''$'' \<notin> set ''Int8Array''"
    by simp_all
  have "case expand_ref [''Int8Array'', ''Uint8Array''] [''EvalError''] typed_array_template_ref typed_array_store of
      Inl e \<Rightarrow> False
    | Inr (refs, st') \<Rightarrow>
        map name_ref refs = [''Int8Array'', ''Uint8Array''] \<and>
        map instanceProperties_ref refs = [2, 2] \<and>
        instanceProperties_ref typed_array_template_ref = 2 \<and>
        property_arrays st' ! 2 = [DataProperty ''length'' ''wc''] \<and>
        load st' (refs ! 0) = Some int8_array_class"
    by code_simp
  then have ev: "\<exists>refs st'.
      expand_ref [''Int8Array'', ''Uint8Array''] [''EvalError''] typed_array_template_ref typed_array_store =
        Inr (refs, st') \<and>
      map name_ref refs = [''Int8Array'', ''Uint8Array''] \<and>
      map instanceProperties_ref refs = [2, 2] \<and>
      instanceProperties_ref typed_array_template_ref = 2 \<and>
      property_arrays st' ! 2 = [DataProperty ''length'' ''wc''] \<and>
      load st' (refs ! 0) = Some int8_array_class"
    by (cases "expand_ref [''Int8Array'', ''Uint8Array''] [''EvalError''] typed_array_template_ref typed_array_store")
      (simp_all split: prod.splits)
  note t1 = expand_templates [OF c1, where typedArrayTypes = "[''Int8Array'', ''Uint8Array'']"
      and errorTypes = "[''EvalError'']" and st = typed_array_store and r = typed_array_template_ref
      and p = "''_TypedArray_''" and c = int8_array_class and c' = int8_array_class
      and t = "''Int8Array''" and n = "''length''" and u = "[]" and v = "''.prototype''"]
  note t2 = expand_templates [OF c2, where typedArrayTypes = "[''Int8Array'', ''Uint8Array'']"
      and errorTypes = "[''EvalError'']" and st = typed_array_store and r = typed_array_template_ref
      and p = "''_TypedArray_''" and c = int8_array_class and c' = int8_array_class
      and t = "''Int8Array''" and n = "''length''" and u = "[]" and v = "''.prototype''"]
  have a1: "\<exists>siblings. expand [''Int8Array'', ''Uint8Array''] [''EvalError''] typed_array_template = Inr siblings \<and>
      map name siblings = [''Int8Array'', ''Uint8Array''] \<and>
      list_all2 (sibling_of typed_array_template ''_TypedArray_'') siblings [''Int8Array'', ''Uint8Array'']"
    using t1 n1 by blast
  have a2: "\<exists>siblings. expand [''Int8Array'', ''Uint8Array''] [''EvalError''] native_error_template = Inr siblings \<and>
      map name siblings = [''EvalError''] \<and>
      list_all2 (sibling_of native_error_template ''_NativeError_'') siblings [''EvalError'']"
    using t2 n2 by blast
  have a3: "\<exists>refs st' siblings.
      expand_ref [''Int8Array'', ''Uint8Array''] [''EvalError''] typed_array_template_ref typed_array_store =
        Inr (refs, st') \<and>
      expand [''Int8Array'', ''Uint8Array''] [''EvalError''] typed_array_template = Inr siblings \<and>
      map (load st') refs = map Some siblings \<and>
      list_all (\<lambda>c. instanceProperties_ref c = instanceProperties_ref typed_array_template_ref) refs \<and>
      prefix (property_arrays typed_array_store) (property_arrays st') \<and>
      prefix (method_arrays typed_array_store) (method_arrays st')"
    using t1 l n1 by blast
  have a4: "js_replace ''length'' ''_TypedArray_'' ''Int8Array'' = ''length''"
    using t1 h(1) by blast
  have a5: "js_replace ([] @ ''_TypedArray_'' @ ''.prototype'') ''_TypedArray_'' ''Int8Array'' =
      [] @ get_substitution ''_TypedArray_'' [] ''.prototype'' ''Int8Array'' @ ''.prototype''"
    using t1 h(2,3) by blast
  have a6: "get_substitution ''_TypedArray_'' [] ''.prototype'' ''Int8Array'' = ''Int8Array''"
    using t1 h(4) by blast
  have a7: "js_replace ''_TypedArray_.prototype'' ''_TypedArray_'' ''Int8Array'' = ''Int8Array.prototype''"
    using a5 a6 by simp
  show ?thesis
    by (intro conjI) (rule c1 n1 a1 c2 n2 a2 l a3 ev s h a4 a7 a6)+
qed

lemma on_okE:
  assumes "on_ok r f = Inr y"
  obtains x where "r = Inr x" "f x = Inr y"
  using assms by (cases r) (simp_all add: on_ok_def)

lemma map_err_all2: "map_err f xs = Inr ys \<Longrightarrow> list_all2 (\<lambda>x y. f x = Inr y) xs ys"
proof (induction xs arbitrary: ys)
  case Nil
  then show ?case by simp
next
  case (Cons x xs)
  from Cons.prems obtain y where y: "f x = Inr y"
    and r: "on_ok (map_err f xs) (\<lambda>ys'. Inr (y # ys')) = Inr ys"
    by (auto elim: on_okE)
  from r obtain ys' where "map_err f xs = Inr ys'" "ys = y # ys'"
    by (auto elim: on_okE)
  then show ?case using y Cons.IH by simp
qed

lemma getBareSection_same: "getBareSection s = Inr s' \<Longrightarrow> s' = s"
  by (auto simp: getBareSection_def elim: on_okE)

lemma map_err_getBareSection: "map_err getBareSection xs = Inr ys \<Longrightarrow> ys = xs"
proof -
  assume "map_err getBareSection xs = Inr ys"
  then have "list_all2 (\<lambda>x y. getBareSection x = Inr y) xs ys" by (rule map_err_all2)
  then have "list_all2 (\<lambda>x y. y = x) xs ys"
    by (rule list_all2_mono) (simp add: getBareSection_same)
  then show ?thesis by (simp add: list_all2_eq [symmetric] list_all2_conv_all_nth list_eq_iff_nth_eq)
qed

lemma getSubsections_none: "find (\<lambda>c. pat (title c)) cs = None \<Longrightarrow> getSubsections pat cs = Inr []"
  by (simp add: getSubsections_def)

lemma assemble_namespace_fallback:
  assumes v: "find (\<lambda>c. includes_str (title c) ''Value Properties of'') cs = None"
    and f: "find (\<lambda>c. includes_str (title c) ''Function Properties of'') cs = None"
    and a: "assemble_namespace doc t cs = Inr g"
  shows "list_all2 (\<lambda>s p. makeProperty doc s = Inr p)
           (filter (\<lambda>s. \<not> ends_paren (title s)) cs) (staticProperties g) \<and>
         list_all2 (\<lambda>s m. makeMethod doc s = Inr m)
           (filter (\<lambda>s. ends_paren (title s)) cs) (staticMethods g)"
proof -
  from a obtain props ps ms where
    b: "map_err getBareSection cs = Inr props"
    and p: "map_err (makeProperty doc) (filter (\<lambda>p. \<not> ends_paren (title p)) props) = Inr ps"
    and m: "map_err (makeMethod doc) (filter (\<lambda>p. ends_paren (title p)) props) = Inr ms"
    and g: "g = Namespace (namespace_name t) False ps ms"
    unfolding assemble_namespace_def getSubsections_none [OF v] getSubsections_none [OF f]
    by (auto simp: assert_def elim!: on_okE)
  have "props = cs" using b by (rule map_err_getBareSection)
  then show ?thesis using map_err_all2 [OF p] map_err_all2 [OF m] g by simp
qed

lemma assemble_class_partition:
  assumes s: "getSubsections (re_between ''Properties of '' '' Constructor'') cs = Inr staticPropSecs"
    and p: "getSubsections (re_between ''Properties of '' '' Prototype Object'') cs = Inr protoPropSecs"
    and a: "assemble_class doc t cs = Inr g"
  shows "list_all2 (\<lambda>s p. makeProperty doc s = Inr p)
           (filter (\<lambda>s. \<not> ends_paren (title s)) staticPropSecs) (staticProperties g) \<and>
         list_all2 (\<lambda>s m. makeMethod doc s = Inr m)
           (filter (\<lambda>s. ends_paren (title s)) staticPropSecs) (staticMethods g) \<and>
         list_all2 (\<lambda>s p. makeProperty doc s = Inr p)
           (filter (\<lambda>s. \<not> ends_paren (title s)) protoPropSecs) (prototypeProperties g) \<and>
         list_all2 (\<lambda>s m. makeMethod doc s = Inr m)
           (filter (\<lambda>s. ends_paren (title s)) protoPropSecs) (instanceMethods g)"
proof -
  from a obtain sp sm pp im ip c where
    "makeProperties_false doc staticPropSecs = Inr sp"
    "makeProperties_true doc staticPropSecs = Inr sm"
    "makeProperties_false doc protoPropSecs = Inr pp"
    "makeProperties_true doc protoPropSecs = Inr im"
    and g: "g = Class (class_name t) False c sp sm pp im ip"
    unfolding assemble_class_def s p Let_def
    by (auto elim!: on_okE)
  then have "list_all2 (\<lambda>s p. makeProperty doc s = Inr p)
           (filter (\<lambda>s. \<not> ends_paren (title s)) staticPropSecs) sp"
    "list_all2 (\<lambda>s m. makeMethod doc s = Inr m)
           (filter (\<lambda>s. ends_paren (title s)) staticPropSecs) sm"
    "list_all2 (\<lambda>s p. makeProperty doc s = Inr p)
           (filter (\<lambda>s. \<not> ends_paren (title s)) protoPropSecs) pp"
    "list_all2 (\<lambda>s m. makeMethod doc s = Inr m)
           (filter (\<lambda>s. ends_paren (title s)) protoPropSecs) im"
    using map_err_all2 [of "makeProperty doc"] map_err_all2 [of "makeMethod doc"]
    by (simp_all add: makeProperties_false_def makeProperties_true_def makeProperties_filter_def)
  then show ?thesis using g by simp
qed

section \<open>The global binding assembler: claims\<close>

text \<open>
  Claim C3, as stated: without value-property and function-property subsections, a direct
  child of a namespace is a static method exactly when its title ends in \<open>()\<close>. It fails:
  the test is for a closing parenthesis. The title of \<open>Reflect.apply\<close> with its three
  parameters does not end in \<open>()\<close>, and the child becomes a static method.
\<close>

theorem namespace_method_counterexample:
  "assemble doc_none (Some reflect_example) = Inr reflect_namespace \<and>
   find (\<lambda>c. includes_str (title c) ''Value Properties of'') (children reflect_example) = None \<and>
   find (\<lambda>c. includes_str (title c) ''Function Properties of'') (children reflect_example) = None \<and>
   title (children reflect_example ! 0) = ''Reflect.apply ( target, thisArgument, argumentsList )'' \<and>
   \<not> suffix ''()'' (title (children reflect_example ! 0)) \<and>
   makeMethod doc_none (children reflect_example ! 0) = Inr (staticMethods reflect_namespace ! 0) \<and>
   staticMethods reflect_namespace =
     [Method ''Reflect.apply()'' \<lparr>required = 3, optional = 0, rest = False\<rparr> None]"
proof -
  have a: "assemble doc_none (Some reflect_example) = Inr reflect_namespace"
    by code_simp
  have b: "find (\<lambda>c. includes_str (title c) ''Value Properties of'') (children reflect_example) = None"
    "find (\<lambda>c. includes_str (title c) ''Function Properties of'') (children reflect_example) = None"
    by code_simp+
  have c: "title (children reflect_example ! 0) = ''Reflect.apply ( target, thisArgument, argumentsList )''"
    by (simp add: reflect_example_def)
  have d: "\<not> suffix ''()'' (title (children reflect_example ! 0))"
    unfolding c by code_simp
  have e: "makeMethod doc_none (children reflect_example ! 0) = Inr (staticMethods reflect_namespace ! 0)"
    by code_simp
  have f: "staticMethods reflect_namespace =
     [Method ''Reflect.apply()'' \<lparr>required = 3, optional = 0, rest = False\<rparr> None]"
    by (simp add: reflect_namespace_def)
  show ?thesis using a b c d e f by blast
qed

text \<open>
  Claim C3, amended: the test is whether the title ends in a closing parenthesis. When a
  namespace has neither subsection and is assembled, its static properties are made, in
  order, from the direct children whose title does not end in a closing parenthesis, and
  its static methods from those whose title does. When a class is assembled, the same test
  splits the children of its constructor-properties subsection into static properties and
  static methods, and those of its prototype-properties subsection into prototype
  properties and instance methods.
\<close>

theorem classified_by_closing_parenthesis:
  assumes "assemble doc (Some s) = Inr g"
  shows "(suffix ''Object'' (title s) \<and>
          find (\<lambda>c. includes_str (title c) ''Value Properties of'') (children s) = None \<and>
          find (\<lambda>c. includes_str (title c) ''Function Properties of'') (children s) = None \<longrightarrow>
            list_all2 (\<lambda>s p. makeProperty doc s = Inr p)
              (filter (\<lambda>s. \<not> ends_paren (title s)) (children s)) (staticProperties g) \<and>
            list_all2 (\<lambda>s m. makeMethod doc s = Inr m)
              (filter (\<lambda>s. ends_paren (title s)) (children s)) (staticMethods g)) \<and>
         (\<not> suffix ''Object'' (title s) \<and>
          getSubsections (re_between ''Properties of '' '' Constructor'') (children s) = Inr staticPropSecs \<and>
          getSubsections (re_between ''Properties of '' '' Prototype Object'') (children s) = Inr protoPropSecs \<longrightarrow>
            list_all2 (\<lambda>s p. makeProperty doc s = Inr p)
              (filter (\<lambda>s. \<not> ends_paren (title s)) staticPropSecs) (staticProperties g) \<and>
            list_all2 (\<lambda>s m. makeMethod doc s = Inr m)
              (filter (\<lambda>s. ends_paren (title s)) staticPropSecs) (staticMethods g) \<and>
            list_all2 (\<lambda>s p. makeProperty doc s = Inr p)
              (filter (\<lambda>s. \<not> ends_paren (title s)) protoPropSecs) (prototypeProperties g) \<and>
            list_all2 (\<lambda>s m. makeMethod doc s = Inr m)
              (filter (\<lambda>s. ends_paren (title s)) protoPropSecs) (instanceMethods g)) \<and>
         (\<forall>t. ends_paren t \<longleftrightarrow> suffix '')'' t)"
proof (intro conjI impI)
  assume h: "suffix ''Object'' (title s) \<and>
          find (\<lambda>c. includes_str (title c) ''Value Properties of'') (children s) = None \<and>
          find (\<lambda>c. includes_str (title c) ''Function Properties of'') (children s) = None"
  then have "assemble_namespace doc (title s) (children s) = Inr g"
    using assms by (simp add: assemble_def)
  then have r: "list_all2 (\<lambda>s p. makeProperty doc s = Inr p)
              (filter (\<lambda>s. \<not> ends_paren (title s)) (children s)) (staticProperties g) \<and>
            list_all2 (\<lambda>s m. makeMethod doc s = Inr m)
              (filter (\<lambda>s. ends_paren (title s)) (children s)) (staticMethods g)"
    using h assemble_namespace_fallback by blast
  from r show "list_all2 (\<lambda>s p. makeProperty doc s = Inr p)
              (filter (\<lambda>s. \<not> ends_paren (title s)) (children s)) (staticProperties g)" ..
  from r show "list_all2 (\<lambda>s m. makeMethod doc s = Inr m)
              (filter (\<lambda>s. ends_paren (title s)) (children s)) (staticMethods g)" ..
next
  assume h: "\<not> suffix ''Object'' (title s) \<and>
          getSubsections (re_between ''Properties of '' '' Constructor'') (children s) = Inr staticPropSecs \<and>
          getSubsections (re_between ''Properties of '' '' Prototype Object'') (children s) = Inr protoPropSecs"
  then have "assemble_class doc (title s) (children s) = Inr g"
    using assms by (simp add: assemble_def)
  then have r: "list_all2 (\<lambda>s p. makeProperty doc s = Inr p)
              (filter (\<lambda>s. \<not> ends_paren (title s)) staticPropSecs) (staticProperties g) \<and>
            list_all2 (\<lambda>s m. makeMethod doc s = Inr m)
              (filter (\<lambda>s. ends_paren (title s)) staticPropSecs) (staticMethods g) \<and>
            list_all2 (\<lambda>s p. makeProperty doc s = Inr p)
              (filter (\<lambda>s. \<not> ends_paren (title s)) protoPropSecs) (prototypeProperties g) \<and>
            list_all2 (\<lambda>s m. makeMethod doc s = Inr m)
              (filter (\<lambda>s. ends_paren (title s)) protoPropSecs) (instanceMethods g)"
    using h assemble_class_partition by blast
  from r show "list_all2 (\<lambda>s p. makeProperty doc s = Inr p)
              (filter (\<lambda>s. \<not> ends_paren (title s)) staticPropSecs) (staticProperties g)" by blast
  from r show "list_all2 (\<lambda>s m. makeMethod doc s = Inr m)
              (filter (\<lambda>s. ends_paren (title s)) staticPropSecs) (staticMethods g)" by blast
  from r show "list_all2 (\<lambda>s p. makeProperty doc s = Inr p)
              (filter (\<lambda>s. \<not> ends_paren (title s)) protoPropSecs) (prototypeProperties g)" by blast
  from r show "list_all2 (\<lambda>s m. makeMethod doc s = Inr m)
              (filter (\<lambda>s. ends_paren (title s)) protoPropSecs) (instanceMethods g)" by blast
next
  show "\<forall>t. ends_paren t \<longleftrightarrow> suffix '')'' t" by (simp add: ends_paren_def)
qed

theorem classified_by_closing_parenthesis_witness:
  "assemble doc_none (Some reflect_example) = Inr reflect_namespace \<and>
   suffix ''Object'' (title reflect_example) \<and>
   find (\<lambda>c. includes_str (title c) ''Value Properties of'') (children reflect_example) = None \<and>
   find (\<lambda>c. includes_str (title c) ''Function Properties of'') (children reflect_example) = None \<and>
   list_all2 (\<lambda>s p. makeProperty doc_none s = Inr p)
     (filter (\<lambda>s. \<not> ends_paren (title s)) (children reflect_example)) (staticProperties reflect_namespace) \<and>
   list_all2 (\<lambda>s m. makeMethod doc_none s = Inr m)
     (filter (\<lambda>s. ends_paren (title s)) (children reflect_example)) (staticMethods reflect_namespace) \<and>
   assemble doc_none (Some foo_example) = Inr foo_class \<and>
   \<not> suffix ''Object'' (title foo_example) \<and>
   getSubsections (re_between ''Properties of '' '' Constructor'') (children foo_example) =
     Inr [Section ''Foo.bar ( x, y )'' (Some ''sec-foo.bar'') [],
          Section ''Foo.prototype'' (Some ''sec-foo.prototype'') []] \<and>
   getSubsections (re_between ''Properties of '' '' Prototype Object'') (children foo_example) =
     Inr [Section ''Foo.prototype.baz ( )'' (Some ''sec-foo.prototype.baz'') [],
          Section ''Foo.prototype.constructor'' (Some ''sec-foo.prototype.constructor'') []] \<and>
   list_all2 (\<lambda>s m. makeMethod doc_none s = Inr m)
     (filter (\<lambda>s. ends_paren (title s))
        [Section ''Foo.bar ( x, y )'' (Some ''sec-foo.bar'') [],
         Section ''Foo.prototype'' (Some ''sec-foo.prototype'') []])
     (staticMethods foo_class) \<and>
   list_all2 (\<lambda>s p. makeProperty doc_none s = Inr p)
     (filter (\<lambda>s. \<not> ends_paren (title s))
        [Section ''Foo.prototype.baz ( )'' (Some ''sec-foo.prototype.baz'') [],
         Section ''Foo.prototype.constructor'' (Some ''sec-foo.prototype.constructor'') []])
     (prototypeProperties foo_class)"
proof -
  have a: "assemble doc_none (Some reflect_example) = Inr reflect_namespace"
    by code_simp
  have b: "suffix ''Object'' (title reflect_example)"
    "find (\<lambda>c. includes_str (title c) ''Value Properties of'') (children reflect_example) = None"
    "find (\<lambda>c. includes_str (title c) ''Function Properties of'') (children reflect_example) = None"
    by code_simp+
  have c: "assemble doc_none (Some foo_example) = Inr foo_class"
    by code_simp
  have d: "\<not> suffix ''Object'' (title foo_example)"
    "getSubsections (re_between ''Properties of '' '' Constructor'') (children foo_example) =
     Inr [Section ''Foo.bar ( x, y )'' (Some ''sec-foo.bar'') [],
          Section ''Foo.prototype'' (Some ''sec-foo.prototype'') []]"
    "getSubsections (re_between ''Properties of '' '' Prototype Object'') (children foo_example) =
     Inr [Section ''Foo.prototype.baz ( )'' (Some ''sec-foo.prototype.baz'') [],
          Section ''Foo.prototype.constructor'' (Some ''sec-foo.prototype.constructor'') []]"
    by code_simp+
  show ?thesis
    using a b c d
      classified_by_closing_parenthesis [OF a]
      classified_by_closing_parenthesis [OF c,
        of "[Section ''Foo.bar ( x, y )'' (Some ''sec-foo.bar'') [],
             Section ''Foo.prototype'' (Some ''sec-foo.prototype'') []]"
           "[Section ''Foo.prototype.baz ( )'' (Some ''sec-foo.prototype.baz'') [],
             Section ''Foo.prototype.constructor'' (Some ''sec-foo.prototype.constructor'') []]"]
    by blast
qed

lemma mark_constructors_all: "mark_constructors ss = mark_all is_class constructor_key ss"
proof (induction ss)
  case Nil
  show ?case by (rule ext) simp
next
  case (Cons s ss)
  show ?case by (rule ext) (simp add: Cons.IH constructor_key_def)
qed

lemma mark_namespaces_all: "mark_namespaces ss = mark_all is_namespace (\<lambda>t. t) ss"
proof (induction ss)
  case Nil
  show ?case by (rule ext) simp
next
  case (Cons s ss)
  show ?case by (rule ext) (simp add: Cons.IH)
qed

lemma set_global_keeps:
  "name (set_global obj) = name obj"
  "is_class (set_global obj) = is_class obj"
  "is_namespace (set_global obj) = is_namespace obj"
  "set_global (set_global obj) = set_global obj"
  by (cases obj; simp add: set_global_def is_class_def is_namespace_def)+

lemma flag_raised_keeps:
  assumes "flag_raised kind names obj obj'"
  shows "name obj' = name obj" "is_class obj' = is_class obj" "is_namespace obj' = is_namespace obj"
  using assms by (auto simp: flag_raised_def set_global_keeps)

lemma flag_raised_refl: "flag_raised kind names obj obj"
  by (simp add: flag_raised_def)

lemma flag_raised_mono: "flag_raised kind A obj obj' \<Longrightarrow> A \<subseteq> B \<Longrightarrow> flag_raised kind A obj obj' \<and> flag_raised kind B obj obj'"
  by (auto simp: flag_raised_def)

lemma flag_raised_trans:
  assumes k: "kind = is_class \<or> kind = is_namespace"
    and a: "flag_raised kind A x y" and b: "flag_raised kind B y z"
  shows "flag_raised kind (A \<union> B) x z"
  using k a b by (auto simp: flag_raised_def set_global_keeps)

lemma mark_global_append:
  assumes "mark_global kind t (xs @ ys) = Inr r" "list_all (\<lambda>y. \<not> kind y) ys"
  shows "(\<exists>xs'. r = xs' @ ys \<and> list_all2 (flag_raised kind {t}) xs xs') \<and>
         (\<exists>obj \<in> set xs. kind obj \<and> name obj = t)"
  using assms
proof (induction xs arbitrary: r)
  case Nil
  have "\<And>r. mark_global kind t ys = Inr r \<Longrightarrow> list_all (\<lambda>y. \<not> kind y) ys \<Longrightarrow> False"
  proof (induction ys)
    case Nil
    then show ?case by simp
  next
    case (Cons y ys)
    show ?case
    proof (cases "name y = t")
      case True
      then show ?thesis using Cons.prems by (simp add: assert_def on_ok_def)
    next
      case False
      then obtain r' where "mark_global kind t ys = Inr r'"
        using Cons.prems(1) by (auto elim: on_okE)
      then show ?thesis using Cons.IH Cons.prems(2) by simp
    qed
  qed
  then show ?case using Nil by auto
next
  case (Cons x xs)
  show ?case
  proof (cases "name x = t")
    case True
    then have k: "kind x" and r: "r = set_global x # xs @ ys"
      using Cons.prems(1) by (auto simp: assert_def on_ok_def split: if_splits)
    have "list_all2 (flag_raised kind {t}) (x # xs) (set_global x # xs)"
      using True k by (simp add: flag_raised_def list_all2_refl)
    then show ?thesis using r True k by auto
  next
    case False
    then obtain r' where m: "mark_global kind t (xs @ ys) = Inr r'" and r: "r = x # r'"
      using Cons.prems(1) by (auto elim: on_okE)
    from Cons.IH [OF m Cons.prems(2)] obtain xs' where
      "r' = xs' @ ys" "list_all2 (flag_raised kind {t}) xs xs'" "\<exists>obj \<in> set xs. kind obj \<and> name obj = t"
      by blast
    then show ?thesis using r by (auto simp: flag_raised_refl)
  qed
qed

lemma list_all2_flag_raised_trans:
  assumes k: "kind = is_class \<or> kind = is_namespace"
    and a: "list_all2 (flag_raised kind A) xs ys" and b: "list_all2 (flag_raised kind B) ys zs"
  shows "list_all2 (flag_raised kind (A \<union> B)) xs zs"
  using a b
proof (induction arbitrary: zs rule: list_all2_induct)
  case Nil
  then show ?case by simp
next
  case (Cons x xs y ys)
  from Cons.prems obtain z zs' where z: "zs = z # zs'" "flag_raised kind B y z"
    "list_all2 (flag_raised kind B) ys zs'"
    by (auto simp: list_all2_Cons1)
  then show ?case using Cons.IH Cons.hyps(1) flag_raised_trans [OF k] by auto
qed

lemma list_all2_flag_raised_set:
  assumes "list_all2 (flag_raised kind A) xs ys" "y \<in> set ys"
  shows "\<exists>x \<in> set xs. name x = name y \<and> is_class x = is_class y \<and> is_namespace x = is_namespace y"
  using assms
proof (induction rule: list_all2_induct)
  case Nil
  then show ?case by simp
next
  case (Cons x xs y' ys)
  then show ?case using flag_raised_keeps [of kind A x y'] by auto
qed

lemma mark_all_append:
  assumes k: "kind = is_class \<or> kind = is_namespace"
    and "mark_all kind key ss (xs @ ys) = Inr r" "list_all (\<lambda>y. \<not> kind y) ys"
  shows "(\<exists>xs'. r = xs' @ ys \<and> list_all2 (flag_raised kind ((\<lambda>s. key (title s)) ` set ss)) xs xs') \<and>
         (\<forall>s \<in> set ss. \<exists>obj \<in> set xs. kind obj \<and> name obj = key (title s))"
  using assms(2,3)
proof (induction ss arbitrary: xs)
  case Nil
  then show ?case by (auto intro!: list_all2_refl simp: flag_raised_refl)
next
  case (Cons s ss)
  from Cons.prems(1) obtain sec r1 where
    b: "getBareSection s = Inr sec"
    and m: "mark_global kind (key (title sec)) (xs @ ys) = Inr r1"
    and rest: "mark_all kind key ss r1 = Inr r"
    by (auto elim!: on_okE)
  have sec: "sec = s" using b by (rule getBareSection_same)
  from mark_global_append [OF m Cons.prems(2)] obtain xs1 where
    r1: "r1 = xs1 @ ys" and a1: "list_all2 (flag_raised kind {key (title s)}) xs xs1"
    and e1: "\<exists>obj \<in> set xs. kind obj \<and> name obj = key (title s)"
    using sec by blast
  from Cons.IH [of xs1] rest r1 Cons.prems(2) obtain xs' where
    r: "r = xs' @ ys" and a2: "list_all2 (flag_raised kind ((\<lambda>s. key (title s)) ` set ss)) xs1 xs'"
    and e2: "\<forall>s \<in> set ss. \<exists>obj \<in> set xs1. kind obj \<and> name obj = key (title s)"
    by blast
  have "list_all2 (flag_raised kind ({key (title s)} \<union> (\<lambda>s. key (title s)) ` set ss)) xs xs'"
    by (rule list_all2_flag_raised_trans [OF k a1 a2])
  then have A: "list_all2 (flag_raised kind ((\<lambda>s. key (title s)) ` set (s # ss))) xs xs'"
    by simp
  have B: "\<forall>s' \<in> set (s # ss). \<exists>obj \<in> set xs. kind obj \<and> name obj = key (title s')"
  proof
    fix s' assume "s' \<in> set (s # ss)"
    then consider "s' = s" | "s' \<in> set ss" by auto
    then show "\<exists>obj \<in> set xs. kind obj \<and> name obj = key (title s')"
    proof cases
      case 1
      then show ?thesis using e1 by simp
    next
      case 2
      then obtain o1 where o1: "o1 \<in> set xs1" "kind o1" "name o1 = key (title s')"
        using e2 by blast
      from list_all2_flag_raised_set [OF a1 o1(1)] obtain x where
        "x \<in> set xs" "name x = name o1" "is_class x = is_class o1" "is_namespace x = is_namespace o1"
        by blast
      then show ?thesis using o1 k by auto
    qed
  qed
  show ?case using r A B by blast
qed

lemma map_err_list_all:
  assumes "map_err f xs = Inr ys" "\<And>x y. f x = Inr y \<Longrightarrow> P y"
  shows "list_all P ys"
proof -
  have "list_all2 (\<lambda>x y. f x = Inr y) xs ys" using assms(1) by (rule map_err_all2)
  then show ?thesis by (induction rule: list_all2_induct) (simp_all add: assms(2))
qed

lemma global_property_standalone: "global_property doc s = Inr p \<Longrightarrow> standalone p"
  by (auto simp: global_property_def standalone_def elim!: on_okE)

lemma global_function_standalone: "global_function t = Inr f \<Longrightarrow> standalone f"
  by (auto simp: global_function_def standalone_def elim!: on_okE)

lemma global_functions_standalone: "global_functions s = Inr fs \<Longrightarrow> list_all standalone fs"
  unfolding global_functions_def
  by (erule map_err_list_all) (rule global_function_standalone)

lemma standalone_kind: "standalone a \<Longrightarrow> \<not> is_class a \<and> \<not> is_namespace a"
  by (cases a) (simp_all add: standalone_def is_class_def is_namespace_def)

lemma propagate_steps:
  assumes "propagate doc toc objects = Inr r"
  obtains g g0 g1 g2 g3 added r1 where
    "find (\<lambda>s. title s = ''The Global Object'') toc = Some g"
    "children g = [g0, g1, g2, g3]"
    "title g0 = ''Value Properties of the Global Object''"
    "title g1 = ''Function Properties of the Global Object''"
    "title g2 = ''Constructor Properties of the Global Object''"
    "title g3 = ''Other Properties of the Global Object''"
    "list_all standalone added"
    "mark_constructors (children g2) (objects @ added) = Inr r1"
    "mark_namespaces (children g3) r1 = Inr r"
proof -
  from assms obtain g where g: "find (\<lambda>s. title s = ''The Global Object'') toc = Some g"
    by (auto simp: propagate_def split: option.splits)
  from assms g obtain g0 g1 g2 g3 where c: "children g = [g0, g1, g2, g3]"
    by (auto simp: propagate_def split: list.splits)
  from assms have
    p: "on_ok (assert (title g0 = ''Value Properties of the Global Object'' \<and>
                       title g1 = ''Function Properties of the Global Object'' \<and>
                       title g2 = ''Constructor Properties of the Global Object'' \<and>
                       title g3 = ''Other Properties of the Global Object'')) (\<lambda>_.
        on_ok (map_err (global_property doc) (children g0)) (\<lambda>properties.
        on_ok (map_err global_functions (children g1)) (\<lambda>functions.
        on_ok (mark_constructors (children g2) (objects @ properties @ concat functions))
          (mark_namespaces (children g3))))) = Inr r"
    by (simp add: propagate_def g c)
  then obtain props funs r1 where
    t: "title g0 = ''Value Properties of the Global Object'' \<and>
        title g1 = ''Function Properties of the Global Object'' \<and>
        title g2 = ''Constructor Properties of the Global Object'' \<and>
        title g3 = ''Other Properties of the Global Object''"
    and ps: "map_err (global_property doc) (children g0) = Inr props"
    and fs: "map_err global_functions (children g1) = Inr funs"
    and m1: "mark_constructors (children g2) (objects @ props @ concat funs) = Inr r1"
    and m2: "mark_namespaces (children g3) r1 = Inr r"
    by (auto simp: assert_def elim!: on_okE split: if_splits)
  have "list_all standalone props"
    using ps by (rule map_err_list_all) (rule global_property_standalone)
  moreover have "list_all (list_all standalone) funs"
    using fs by (rule map_err_list_all) (rule global_functions_standalone)
  then have "list_all standalone (concat funs)"
    by (induction funs) simp_all
  ultimately have "list_all standalone (props @ concat funs)" by simp
  then show ?thesis using that [OF g c _ _ _ _ _ _ m2, of "props @ concat funs"] t m1
    by simp
qed

lemma global_set_set_global: "is_class obj \<or> is_namespace obj \<Longrightarrow> global_set obj (set_global obj)"
  by (cases obj) (simp_all add: global_set_def set_global_def is_class_def is_namespace_def)

lemma two_flag_steps:
  assumes "flag_raised is_class A x y" "flag_raised is_namespace B y z"
  shows "z = x \<or> global_set x z \<and> (is_class x \<and> name x \<in> A \<or> is_namespace x \<and> name x \<in> B)"
proof -
  have "is_class x \<Longrightarrow> \<not> is_namespace (set_global x)"
    by (cases x) (simp_all add: is_class_def is_namespace_def set_global_def)
  then show ?thesis using assms global_set_set_global [of x]
    by (auto simp: flag_raised_def)
qed

lemma propagate_result:
  assumes "propagate doc toc objects = Inr r"
  obtains g g0 g1 g2 g3 kept added where
    "find (\<lambda>s. title s = ''The Global Object'') toc = Some g"
    "children g = [g0, g1, g2, g3]"
    "title g0 = ''Value Properties of the Global Object''"
    "title g1 = ''Function Properties of the Global Object''"
    "title g2 = ''Constructor Properties of the Global Object''"
    "title g3 = ''Other Properties of the Global Object''"
    "r = kept @ added" "list_all standalone added"
    "list_all2 (\<lambda>obj obj'. obj' = obj \<or>
        global_set obj obj' \<and>
        (is_class obj \<and> name obj \<in> (\<lambda>s. constructor_key (title s)) ` set (children g2) \<or>
         is_namespace obj \<and> name obj \<in> title ` set (children g3))) objects kept"
    "\<forall>s \<in> set (children g2). \<exists>obj \<in> set objects. is_class obj \<and> name obj = constructor_key (title s)"
    "\<forall>s \<in> set (children g3). \<exists>obj \<in> set objects. is_namespace obj \<and> name obj = title s"
proof (rule propagate_steps [OF assms])
  fix g g0 g1 g2 g3 added r1
  assume g: "find (\<lambda>s. title s = ''The Global Object'') toc = Some g"
    and c: "children g = [g0, g1, g2, g3]"
    and t0: "title g0 = ''Value Properties of the Global Object''"
    and t1: "title g1 = ''Function Properties of the Global Object''"
    and t2: "title g2 = ''Constructor Properties of the Global Object''"
    and t3: "title g3 = ''Other Properties of the Global Object''"
    and st: "list_all standalone added"
    and m1: "mark_constructors (children g2) (objects @ added) = Inr r1"
    and m2: "mark_namespaces (children g3) r1 = Inr r"
  have nc: "list_all (\<lambda>y. \<not> is_class y) added" and nn: "list_all (\<lambda>y. \<not> is_namespace y) added"
    using st standalone_kind by (simp_all add: list_all_iff)
  have k1: "is_class = is_class \<or> is_class = is_namespace"
    and k2: "is_namespace = is_class \<or> is_namespace = is_namespace"
    by simp_all
  have m1': "mark_all is_class constructor_key (children g2) (objects @ added) = Inr r1"
    using m1 by (simp add: mark_constructors_all)
  from mark_all_append [OF k1 m1' nc]
  obtain xs1 where r1: "r1 = xs1 @ added"
    and a1: "list_all2 (flag_raised is_class ((\<lambda>s. constructor_key (title s)) ` set (children g2))) objects xs1"
    and e1: "\<forall>s \<in> set (children g2). \<exists>obj \<in> set objects. is_class obj \<and> name obj = constructor_key (title s)"
    by blast
  have m2': "mark_all is_namespace (\<lambda>t. t) (children g3) (xs1 @ added) = Inr r"
    using m2 r1 by (simp add: mark_namespaces_all)
  from mark_all_append [OF k2 m2' nn]
  obtain xs2 where r: "r = xs2 @ added"
    and a2: "list_all2 (flag_raised is_namespace (title ` set (children g3))) xs1 xs2"
    and e2: "\<forall>s \<in> set (children g3). \<exists>obj \<in> set xs1. is_namespace obj \<and> name obj = title s"
    by blast
  have e2': "\<forall>s \<in> set (children g3). \<exists>obj \<in> set objects. is_namespace obj \<and> name obj = title s"
  proof
    fix s assume "s \<in> set (children g3)"
    then obtain o1 where o1: "o1 \<in> set xs1" "is_namespace o1" "name o1 = title s"
      using e2 by blast
    from list_all2_flag_raised_set [OF a1 o1(1)] obtain x where
      "x \<in> set objects" "name x = name o1" "is_namespace x = is_namespace o1"
      by blast
    then show "\<exists>obj \<in> set objects. is_namespace obj \<and> name obj = title s" using o1 by auto
  qed
  have "list_all2 (\<lambda>obj obj'. obj' = obj \<or>
        global_set obj obj' \<and>
        (is_class obj \<and> name obj \<in> (\<lambda>s. constructor_key (title s)) ` set (children g2) \<or>
         is_namespace obj \<and> name obj \<in> title ` set (children g3))) objects xs2"
    using a1 a2
  proof (induction arbitrary: xs2 rule: list_all2_induct)
    case Nil
    then show ?case by simp
  next
    case (Cons x xs y ys)
    from Cons.prems obtain z zs where "xs2 = z # zs"
      "flag_raised is_namespace (title ` set (children g3)) y z"
      "list_all2 (flag_raised is_namespace (title ` set (children g3))) ys zs"
      by (auto simp: list_all2_Cons1)
    then show ?case using Cons.IH Cons.hyps(1) two_flag_steps [of _ x y _ z] by auto
  qed
  then show thesis by (rule that [OF g c t0 t1 t2 t3 r st _ e1 e2'])
qed

section \<open>The global flag propagator: claims\<close>

text \<open>
  Claim C7. The propagator fails unless the clause \<open>The Global Object\<close> is there with
  exactly four children titled, in order, \<open>Value Properties of the Global Object\<close>,
  \<open>Function Properties of the Global Object\<close>, \<open>Constructor Properties of the Global
  Object\<close> and \<open>Other Properties of the Global Object\<close>. It fails whenever a child of the
  constructor properties names no class of the catalog, and whenever a child of the other
  properties names no namespace of the catalog.
\<close>

theorem propagate_fatal:
  "(\<not> (\<exists>g g0 g1 g2 g3.
          find (\<lambda>s. title s = ''The Global Object'') toc = Some g \<and>
          children g = [g0, g1, g2, g3] \<and>
          title g0 = ''Value Properties of the Global Object'' \<and>
          title g1 = ''Function Properties of the Global Object'' \<and>
          title g2 = ''Constructor Properties of the Global Object'' \<and>
          title g3 = ''Other Properties of the Global Object'') \<longrightarrow>
      (\<exists>e. propagate doc toc objects = Inl e)) \<and>
   (find (\<lambda>s. title s = ''The Global Object'') toc = Some g \<and>
    children g = [g0, g1, g2, g3] \<and>
    (\<exists>s \<in> set (children g2). \<forall>obj \<in> set objects.
        \<not> (is_class obj \<and> name obj = js_replace (title s) '' ( . . . )'' [])) \<longrightarrow>
      (\<exists>e. propagate doc toc objects = Inl e)) \<and>
   (find (\<lambda>s. title s = ''The Global Object'') toc = Some g \<and>
    children g = [g0, g1, g2, g3] \<and>
    (\<exists>s \<in> set (children g3). \<forall>obj \<in> set objects.
        \<not> (is_namespace obj \<and> name obj = title s)) \<longrightarrow>
      (\<exists>e. propagate doc toc objects = Inl e))"
proof (intro conjI impI)
  assume n: "\<not> (\<exists>g g0 g1 g2 g3.
          find (\<lambda>s. title s = ''The Global Object'') toc = Some g \<and>
          children g = [g0, g1, g2, g3] \<and>
          title g0 = ''Value Properties of the Global Object'' \<and>
          title g1 = ''Function Properties of the Global Object'' \<and>
          title g2 = ''Constructor Properties of the Global Object'' \<and>
          title g3 = ''Other Properties of the Global Object'')"
  show "\<exists>e. propagate doc toc objects = Inl e"
  proof (cases "propagate doc toc objects")
    case (Inl e)
    then show ?thesis by blast
  next
    case (Inr r)
    show ?thesis
    proof (rule propagate_result [OF Inr])
      fix g g0 g1 g2 g3 :: Section
      assume "find (\<lambda>s. title s = ''The Global Object'') toc = Some g"
        "children g = [g0, g1, g2, g3]"
        "title g0 = ''Value Properties of the Global Object''"
        "title g1 = ''Function Properties of the Global Object''"
        "title g2 = ''Constructor Properties of the Global Object''"
        "title g3 = ''Other Properties of the Global Object''"
      then have "\<exists>g g0 g1 g2 g3.
          find (\<lambda>s. title s = ''The Global Object'') toc = Some g \<and>
          children g = [g0, g1, g2, g3] \<and>
          title g0 = ''Value Properties of the Global Object'' \<and>
          title g1 = ''Function Properties of the Global Object'' \<and>
          title g2 = ''Constructor Properties of the Global Object'' \<and>
          title g3 = ''Other Properties of the Global Object''"
        by (intro exI conjI)
      then show ?thesis using n by (rule notE [rotated])
    qed
  qed
next
  assume h: "find (\<lambda>s. title s = ''The Global Object'') toc = Some g \<and>
    children g = [g0, g1, g2, g3] \<and>
    (\<exists>s \<in> set (children g2). \<forall>obj \<in> set objects.
        \<not> (is_class obj \<and> name obj = js_replace (title s) '' ( . . . )'' []))"
  show "\<exists>e. propagate doc toc objects = Inl e"
  proof (cases "propagate doc toc objects")
    case (Inl e)
    then show ?thesis by blast
  next
    case (Inr r)
    show ?thesis
    proof (rule propagate_result [OF Inr])
      fix g' g0' g1' g2' g3' :: Section
      assume "find (\<lambda>s. title s = ''The Global Object'') toc = Some g'"
        and "children g' = [g0', g1', g2', g3']"
        and e: "\<forall>s \<in> set (children g2'). \<exists>obj \<in> set objects. is_class obj \<and> name obj = constructor_key (title s)"
      then have "g2' = g2" using h by simp
      then have "\<forall>s \<in> set (children g2). \<exists>obj \<in> set objects. is_class obj \<and> name obj = js_replace (title s) '' ( . . . )'' []"
        using e by (simp add: constructor_key_def)
      moreover obtain s where "s \<in> set (children g2)"
        "\<forall>obj \<in> set objects. \<not> (is_class obj \<and> name obj = js_replace (title s) '' ( . . . )'' [])"
        using h by blast
      ultimately have False by blast
      then show ?thesis ..
    qed
  qed
next
  assume h: "find (\<lambda>s. title s = ''The Global Object'') toc = Some g \<and>
    children g = [g0, g1, g2, g3] \<and>
    (\<exists>s \<in> set (children g3). \<forall>obj \<in> set objects.
        \<not> (is_namespace obj \<and> name obj = title s))"
  show "\<exists>e. propagate doc toc objects = Inl e"
  proof (cases "propagate doc toc objects")
    case (Inl e)
    then show ?thesis by blast
  next
    case (Inr r)
    show ?thesis
    proof (rule propagate_result [OF Inr])
      fix g' g0' g1' g2' g3' :: Section
      assume "find (\<lambda>s. title s = ''The Global Object'') toc = Some g'"
        and "children g' = [g0', g1', g2', g3']"
        and e: "\<forall>s \<in> set (children g3'). \<exists>obj \<in> set objects. is_namespace obj \<and> name obj = title s"
      then have "g3' = g3" using h by simp
      then have "\<forall>s \<in> set (children g3). \<exists>obj \<in> set objects. is_namespace obj \<and> name obj = title s"
        using e by simp
      moreover obtain s where "s \<in> set (children g3)"
        "\<forall>obj \<in> set objects. \<not> (is_namespace obj \<and> name obj = title s)"
        using h by blast
      ultimately have False by blast
      then show ?thesis ..
    qed
  qed
qed

theorem propagate_fatal_witness:
  "\<not> (\<exists>g g0 g1 g2 g3.
          find (\<lambda>s. title s = ''The Global Object'') [short_global_object_example] = Some g \<and>
          children g = [g0, g1, g2, g3] \<and>
          title g0 = ''Value Properties of the Global Object'' \<and>
          title g1 = ''Function Properties of the Global Object'' \<and>
          title g2 = ''Constructor Properties of the Global Object'' \<and>
          title g3 = ''Other Properties of the Global Object'') \<and>
   (\<exists>e. propagate doc_globals [short_global_object_example] [reflect_namespace, foo_class] = Inl e) \<and>
   find (\<lambda>s. title s = ''The Global Object'') [global_object_example] = Some global_object_example \<and>
   (\<exists>s \<in> set (children (children global_object_example ! 2)). \<forall>obj \<in> set [reflect_namespace].
       \<not> (is_class obj \<and> name obj = js_replace (title s) '' ( . . . )'' [])) \<and>
   (\<exists>e. propagate doc_globals [global_object_example] [reflect_namespace] = Inl e) \<and>
   (\<exists>s \<in> set (children (children global_object_example ! 3)). \<forall>obj \<in> set [foo_class].
       \<not> (is_namespace obj \<and> name obj = title s)) \<and>
   (\<exists>e. propagate doc_globals [global_object_example] [foo_class] = Inl e)"
proof -
  have a: "\<not> (\<exists>g g0 g1 g2 g3.
          find (\<lambda>s. title s = ''The Global Object'') [short_global_object_example] = Some g \<and>
          children g = [g0, g1, g2, g3] \<and>
          title g0 = ''Value Properties of the Global Object'' \<and>
          title g1 = ''Function Properties of the Global Object'' \<and>
          title g2 = ''Constructor Properties of the Global Object'' \<and>
          title g3 = ''Other Properties of the Global Object'')"
    by (simp add: short_global_object_example_def)
  have f: "find (\<lambda>s. title s = ''The Global Object'') [global_object_example] = Some global_object_example"
    by (simp add: global_object_example_def)
  have c: "children global_object_example =
      [children global_object_example ! 0, children global_object_example ! 1,
       children global_object_example ! 2, children global_object_example ! 3]"
    by (simp add: global_object_example_def)
  have b2: "\<exists>s \<in> set (children (children global_object_example ! 2)). \<forall>obj \<in> set [reflect_namespace].
       \<not> (is_class obj \<and> name obj = js_replace (title s) '' ( . . . )'' [])"
    by (simp add: global_object_example_def reflect_namespace_def is_class_def)
  have b3: "\<exists>s \<in> set (children (children global_object_example ! 3)). \<forall>obj \<in> set [foo_class].
       \<not> (is_namespace obj \<and> name obj = title s)"
    by (simp add: global_object_example_def foo_class_def is_namespace_def)
  show ?thesis
    using a f b2 b3
      propagate_fatal [where toc = "[short_global_object_example]" and doc = doc_globals
        and objects = "[reflect_namespace, foo_class]"]
      propagate_fatal [where toc = "[global_object_example]" and doc = doc_globals
        and objects = "[reflect_namespace]" and g = global_object_example
        and ?g0.0 = "children global_object_example ! 0" and ?g1.0 = "children global_object_example ! 1"
        and ?g2.0 = "children global_object_example ! 2" and ?g3.0 = "children global_object_example ! 3"]
      propagate_fatal [where toc = "[global_object_example]" and doc = doc_globals
        and objects = "[foo_class]" and g = global_object_example
        and ?g0.0 = "children global_object_example ! 0" and ?g1.0 = "children global_object_example ! 1"
        and ?g2.0 = "children global_object_example ! 2" and ?g3.0 = "children global_object_example ! 3"]
      c
    by blast
qed

text \<open>
  Claim C8. When the propagator succeeds, the catalog it returns is the catalog it was
  given, each descriptor either as it was or, for a class named by a child of the
  constructor properties or a namespace named by a child of the other properties, with its
  flag true and every other field as it was, followed by appended descriptors that are
  all global properties or functions with the flag true.
\<close>

theorem propagate_frame:
  assumes "propagate doc toc objects = Inr r"
  shows "\<exists>g g0 g1 g2 g3 kept added.
           find (\<lambda>s. title s = ''The Global Object'') toc = Some g \<and>
           children g = [g0, g1, g2, g3] \<and>
           r = kept @ added \<and>
           list_all2 (\<lambda>obj obj'. obj' = obj \<or>
        global_set obj obj' \<and>
        (is_class obj \<and> name obj \<in> (\<lambda>s. js_replace (title s) '' ( . . . )'' []) ` set (children g2) \<or>
         is_namespace obj \<and> name obj \<in> title ` set (children g3))) objects kept \<and>
           list_all standalone added"
proof (rule propagate_result [OF assms])
  fix g g0 g1 g2 g3 kept added
  assume "find (\<lambda>s. title s = ''The Global Object'') toc = Some g"
    "children g = [g0, g1, g2, g3]"
    "r = kept @ added" "list_all standalone added"
    "list_all2 (\<lambda>obj obj'. obj' = obj \<or>
        global_set obj obj' \<and>
        (is_class obj \<and> name obj \<in> (\<lambda>s. constructor_key (title s)) ` set (children g2) \<or>
         is_namespace obj \<and> name obj \<in> title ` set (children g3))) objects kept"
  then show ?thesis unfolding constructor_key_def by (intro exI conjI)
qed

theorem propagate_frame_witness:
  "propagate doc_globals [global_object_example] [reflect_namespace, foo_class] =
     Inr [Namespace ''Reflect'' True
            [DataProperty ''Reflect[@@toStringTag]'' ''wc'']
            [Method ''Reflect.apply()'' \<lparr>required = 3, optional = 0, rest = False\<rparr> None],
          Class ''Foo'' True
            (Some (Constructor ''Foo()'' \<lparr>required = 1, optional = 0, rest = False\<rparr>))
            [DataProperty ''Foo.prototype'' ''wc'']
            [Method ''Foo.bar()'' \<lparr>required = 2, optional = 0, rest = False\<rparr> None]
            [DataProperty ''Foo.prototype.constructor'' ''wc'']
            [Method ''Foo.prototype.baz()'' \<lparr>required = 1, optional = 0, rest = False\<rparr> None]
            [DataProperty ''length'' ''wc''],
          GlobalProperty ''globalThis'' (Some ''wc''),
          Function ''parseInt()'' \<lparr>required = 2, optional = 0, rest = False\<rparr> True,
          Function ''decodeURI()'' \<lparr>required = 1, optional = 0, rest = False\<rparr> True] \<and>
   (\<exists>g g0 g1 g2 g3 kept added.
      find (\<lambda>s. title s = ''The Global Object'') [global_object_example] = Some g \<and>
      children g = [g0, g1, g2, g3] \<and>
      [Namespace ''Reflect'' True
            [DataProperty ''Reflect[@@toStringTag]'' ''wc'']
            [Method ''Reflect.apply()'' \<lparr>required = 3, optional = 0, rest = False\<rparr> None],
          Class ''Foo'' True
            (Some (Constructor ''Foo()'' \<lparr>required = 1, optional = 0, rest = False\<rparr>))
            [DataProperty ''Foo.prototype'' ''wc'']
            [Method ''Foo.bar()'' \<lparr>required = 2, optional = 0, rest = False\<rparr> None]
            [DataProperty ''Foo.prototype.constructor'' ''wc'']
            [Method ''Foo.prototype.baz()'' \<lparr>required = 1, optional = 0, rest = False\<rparr> None]
            [DataProperty ''length'' ''wc''],
          GlobalProperty ''globalThis'' (Some ''wc''),
          Function ''parseInt()'' \<lparr>required = 2, optional = 0, rest = False\<rparr> True,
          Function ''decodeURI()'' \<lparr>required = 1, optional = 0, rest = False\<rparr> True] = kept @ added \<and>
      list_all2 (\<lambda>obj obj'. obj' = obj \<or>
        global_set obj obj' \<and>
        (is_class obj \<and> name obj \<in> (\<lambda>s. js_replace (title s) '' ( . . . )'' []) ` set (children g2) \<or>
         is_namespace obj \<and> name obj \<in> title ` set (children g3))) [reflect_namespace, foo_class] kept \<and>
      list_all standalone added)"
proof -
  have h: "propagate doc_globals [global_object_example] [reflect_namespace, foo_class] =
     Inr [Namespace ''Reflect'' True
            [DataProperty ''Reflect[@@toStringTag]'' ''wc'']
            [Method ''Reflect.apply()'' \<lparr>required = 3, optional = 0, rest = False\<rparr> None],
          Class ''Foo'' True
            (Some (Constructor ''Foo()'' \<lparr>required = 1, optional = 0, rest = False\<rparr>))
            [DataProperty ''Foo.prototype'' ''wc'']
            [Method ''Foo.bar()'' \<lparr>required = 2, optional = 0, rest = False\<rparr> None]
            [DataProperty ''Foo.prototype.constructor'' ''wc'']
            [Method ''Foo.prototype.baz()'' \<lparr>required = 1, optional = 0, rest = False\<rparr> None]
            [DataProperty ''length'' ''wc''],
          GlobalProperty ''globalThis'' (Some ''wc''),
          Function ''parseInt()'' \<lparr>required = 2, optional = 0, rest = False\<rparr> True,
          Function ''decodeURI()'' \<lparr>required = 1, optional = 0, rest = False\<rparr> True]"
    by code_simp
  show ?thesis
    using h propagate_frame [OF h] by (intro conjI)
qed

lemma makeProperty_name: "makeProperty doc s = Inr p \<Longrightarrow> prop_name p = property_name s"
  by (auto simp: makeProperty_def property_name_def split: if_splits elim!: on_okE)

lemma map_err_names:
  assumes "map_err f xs = Inr ys" "\<And>x y. f x = Inr y \<Longrightarrow> h y = k x"
  shows "map h ys = map k xs"
proof -
  have "list_all2 (\<lambda>x y. f x = Inr y) xs ys" using assms(1) by (rule map_err_all2)
  then show ?thesis by (induction rule: list_all2_induct) (simp_all add: assms(2))
qed

lemma assemble_class_names:
  assumes a: "assemble_class doc t cs = Inr g"
    and s: "getSubsections (re_between ''Properties of '' '' Constructor'') cs = Inr staticPropSecs"
    and i: "getSubsections (re_between ''Properties of '' '' Instances'') cs = Inr instancePropSecs"
    and p: "getSubsections (re_between ''Properties of '' '' Prototype Object'') cs = Inr protoPropSecs"
  shows "is_class g"
    "map prop_name (instanceProperties g) = map property_name instancePropSecs"
    "map prop_name (prototypeProperties g) =
       map property_name (filter (\<lambda>s. \<not> ends_paren (title s)) protoPropSecs)"
    "map prop_name (staticProperties g) =
       map property_name (filter (\<lambda>s. \<not> ends_paren (title s)) staticPropSecs)"
proof -
  from a obtain sp sm pp im ip c where
    sp: "makeProperties_false doc staticPropSecs = Inr sp"
    and pp: "makeProperties_false doc protoPropSecs = Inr pp"
    and ip: "map_err (makeProperty doc) instancePropSecs = Inr ip"
    and g: "g = Class (class_name t) False c sp sm pp im ip"
    unfolding assemble_class_def s i p Let_def
    by (auto elim!: on_okE)
  show "is_class g" using g by (simp add: is_class_def)
  show "map prop_name (instanceProperties g) = map property_name instancePropSecs"
    using map_err_names [OF ip makeProperty_name] g by simp
  show "map prop_name (prototypeProperties g) =
       map property_name (filter (\<lambda>s. \<not> ends_paren (title s)) protoPropSecs)"
    using map_err_names [OF pp [unfolded makeProperties_false_def] makeProperty_name] g
    by (simp add: makeProperties_filter_def)
  show "map prop_name (staticProperties g) =
       map property_name (filter (\<lambda>s. \<not> ends_paren (title s)) staticPropSecs)"
    using map_err_names [OF sp [unfolded makeProperties_false_def] makeProperty_name] g
    by (simp add: makeProperties_filter_def)
qed

lemma expanded_names:
  "map prop_name (instanceProperties (expanded g a t)) = map prop_name (instanceProperties g)"
  "map prop_name (prototypeProperties (expanded g a t)) =
     map (\<lambda>p. js_replace (prop_name p) a t) (prototypeProperties g)"
  "map prop_name (staticProperties (expanded g a t)) =
     map (\<lambda>p. js_replace (prop_name p) a t) (staticProperties g)"
  by (simp_all add: expanded_def expandSection_property_sel comp_def)

lemma expand_cases:
  assumes "is_class g" "expand typedArrayTypes errorTypes g = Inr siblings" "c \<in> set siblings"
  shows "c = g \<or> (\<exists>t. c = expanded g ''_TypedArray_'' t) \<or> (\<exists>t. c = expanded g ''_NativeError_'' t)"
proof -
  consider "name g = ''_TypedArray_''"
    | "name g \<noteq> ''_TypedArray_''" "name g = ''_NativeError_ Object Structure''"
    | "name g \<noteq> ''_TypedArray_''" "name g \<noteq> ''_NativeError_ Object Structure''"
    by blast
  then show ?thesis
  proof cases
    case 1
    then have "siblings = map (expanded g ''_TypedArray_'') typedArrayTypes"
      using assms(1,2) by (simp add: expand_def expand_list)
    then show ?thesis using assms(3) by auto
  next
    case 2
    then have "siblings = map (expanded g ''_NativeError_'') errorTypes"
      using assms(1,2) by (simp add: expand_def expand_list)
    then show ?thesis using assms(3) by auto
  next
    case 3
    then have "siblings = [g]" using assms(1,2) by (simp add: expand_def)
    then show ?thesis using assms(3) by simp
  qed
qed

lemma list_all2_member:
  assumes "list_all2 R xs ys" "y \<in> set ys"
  shows "\<exists>x \<in> set xs. R x y"
  using assms by (induction rule: list_all2_induct) auto

lemma map_err_member:
  assumes "map_err f xs = Inr ys" "y \<in> set ys"
  shows "\<exists>x \<in> set xs. f x = Inr y"
  using list_all2_member [OF map_err_all2 [OF assms(1)] assms(2)] .

lemma build_objects_member:
  assumes "build_objects doc ta et toc = Inr objs" "c \<in> set objs"
  obtains groups grp g siblings where
    "reclassified toc = Inr groups" "grp \<in> set groups"
    "assemble doc grp = Inr g" "expand ta et g = Inr siblings" "c \<in> set siblings"
proof -
  from assms(1) obtain groups globals expanded where
    r: "reclassified toc = Inr groups"
    and a: "map_err (assemble doc) groups = Inr globals"
    and e: "map_err (expand ta et) globals = Inr expanded"
    and o: "objs = concat expanded"
    unfolding build_objects_def by (auto elim!: on_okE)
  from assms(2) o obtain siblings where s: "siblings \<in> set expanded" "c \<in> set siblings"
    by auto
  from map_err_member [OF e s(1)] obtain g where g: "g \<in> set globals" "expand ta et g = Inr siblings"
    by blast
  from map_err_member [OF a g(1)] obtain grp where "grp \<in> set groups" "assemble doc grp = Inr g"
    by blast
  then show thesis using that r g(2) s(2) by blast
qed

lemma assemble_namespace_kind: "assemble_namespace doc t cs = Inr g \<Longrightarrow> \<not> is_class g"
  unfolding assemble_namespace_def by (auto simp: is_class_def elim!: on_okE)

lemma assemble_class_subsections:
  assumes "assemble_class doc t cs = Inr g"
  obtains staticPropSecs instancePropSecs protoPropSecs where
    "getSubsections (re_between ''Properties of '' '' Constructor'') cs = Inr staticPropSecs"
    "getSubsections (re_between ''Properties of '' '' Instances'') cs = Inr instancePropSecs"
    "getSubsections (re_between ''Properties of '' '' Prototype Object'') cs = Inr protoPropSecs"
  using assms unfolding assemble_class_def by (elim on_okE) blast

lemma global_set_class_fields:
  assumes "c' = c \<or> global_set c c'" "is_class c'"
  shows "is_class c" "instanceProperties c' = instanceProperties c"
    "prototypeProperties c' = prototypeProperties c" "staticProperties c' = staticProperties c"
  using assms by (cases c; auto simp: global_set_def is_class_def)+

lemma catalog_class:
  assumes "catalog doc ta et toc = Inr objs" "c' \<in> set objs" "is_class c'"
  obtains groups grp g siblings c where
    "reclassified toc = Inr groups" "grp \<in> set groups"
    "assemble doc grp = Inr g" "expand ta et g = Inr siblings" "c \<in> set siblings"
    "c' = c \<or> global_set c c'"
proof -
  from assms(1) obtain objs0 where b: "build_objects doc ta et toc = Inr objs0"
    and p: "propagate doc toc objs0 = Inr objs"
    unfolding catalog_def by (auto elim!: on_okE)
  show thesis
  proof (rule propagate_result [OF p])
    fix g g0 g1 g2 g3 :: Section and kept added
    assume r: "objs = kept @ added" and st: "list_all standalone added"
      and k: "list_all2 (\<lambda>obj obj'. obj' = obj \<or>
        global_set obj obj' \<and>
        (is_class obj \<and> name obj \<in> (\<lambda>s. constructor_key (title s)) ` set (children g2) \<or>
         is_namespace obj \<and> name obj \<in> title ` set (children g3))) objs0 kept"
    have "c' \<notin> set added"
      using st assms(3) standalone_kind by (auto simp: list_all_iff)
    then have "c' \<in> set kept" using assms(2) r by simp
    from list_all2_member [OF k this] obtain c where c: "c \<in> set objs0" "c' = c \<or> global_set c c'"
      by blast
    show thesis
    proof (rule build_objects_member [OF b c(1)])
      fix groups grp g siblings
      assume "reclassified toc = Inr groups" "grp \<in> set groups"
        "assemble doc grp = Inr g" "expand ta et g = Inr siblings" "c \<in> set siblings"
      then show thesis using that c(2) by blast
    qed
  qed
qed

lemma expand_not_class: "\<not> is_class g \<Longrightarrow> expand ta et g = Inr siblings \<Longrightarrow> siblings = [g]"
  by (simp add: expand_def)

lemma assemble_class_group:
  assumes "assemble doc grp = Inr g" "is_class g"
  obtains s where "grp = Some s" "assemble_class doc (title s) (children s) = Inr g"
proof -
  from assms(1) obtain s where s: "grp = Some s"
    by (cases grp) (simp_all add: assemble_def)
  have "\<not> suffix ''Object'' (title s)"
  proof
    assume "suffix ''Object'' (title s)"
    then have "assemble_namespace doc (title s) (children s) = Inr g"
      using assms(1) s by (simp add: assemble_def)
    then show False using assms(2) assemble_namespace_kind by blast
  qed
  then have "assemble_class doc (title s) (children s) = Inr g"
    using assms(1) s by (simp add: assemble_def)
  then show thesis using that s by blast
qed

section \<open>The catalog: claims\<close>

text \<open>
  Claim C9, as stated: in every class descriptor of the final catalog the names of the
  instance properties are disjoint from those of the prototype properties and of the static
  properties. It fails: nothing in the script compares names. A class whose instances
  subsection and whose prototype subsection each have a child titled \<open>length\<close> gets the
  name \<open>length\<close> in both lists.
\<close>

theorem catalog_overlap_counterexample:
  "catalog doc_none [] [] bar_toc =
     Inr [Class ''Bar'' True None [] [] [DataProperty ''length'' ''wc''] [] [DataProperty ''length'' ''wc'']] \<and>
   (\<exists>objs c. catalog doc_none [] [] bar_toc = Inr objs \<and> c \<in> set objs \<and> is_class c \<and>
      set (map prop_name (instanceProperties c)) \<inter> set (map prop_name (prototypeProperties c)) \<noteq> {})"
proof -
  have h: "catalog doc_none [] [] bar_toc =
     Inr [Class ''Bar'' True None [] [] [DataProperty ''length'' ''wc''] [] [DataProperty ''length'' ''wc'']]"
    by code_simp
  have "is_class (Class ''Bar'' True None [] [] [DataProperty ''length'' ''wc''] [] [DataProperty ''length'' ''wc''])"
    by (simp add: is_class_def)
  then have "\<exists>c. c \<in> set [Class ''Bar'' True None [] [] [DataProperty ''length'' ''wc''] [] [DataProperty ''length'' ''wc'']] \<and>
      is_class c \<and>
      set (map prop_name (instanceProperties c)) \<inter> set (map prop_name (prototypeProperties c)) \<noteq> {}"
    by simp
  then show ?thesis using h by simp
qed

text \<open>
  Claim C9, amended: every class descriptor of the final catalog comes from one
  reclassified group. The names of its instance properties are the names that
  \<open>makeProperty\<close> derives from the children of the group's instances subsection; the names
  of its prototype and static properties are those derived from the children, with a title
  not ending in a closing parenthesis, of the prototype and constructor subsections, with
  the first occurrence of the placeholder replaced by the concrete name when the class is
  an expanded sibling. So the name sets of a class are disjoint exactly when these names
  of the document are.
\<close>

theorem catalog_property_names:
  assumes "catalog doc typedArrayTypes errorTypes toc = Inr objs" "c \<in> set objs" "is_class c"
  shows "\<exists>groups s staticPropSecs instancePropSecs protoPropSecs f.
           reclassified toc = Inr groups \<and> Some s \<in> set groups \<and>
           getSubsections (re_between ''Properties of '' '' Constructor'') (children s) = Inr staticPropSecs \<and>
           getSubsections (re_between ''Properties of '' '' Instances'') (children s) = Inr instancePropSecs \<and>
           getSubsections (re_between ''Properties of '' '' Prototype Object'') (children s) = Inr protoPropSecs \<and>
           (f = (\<lambda>n. n) \<or> (\<exists>t. f = (\<lambda>n. js_replace n ''_TypedArray_'' t)) \<or>
            (\<exists>t. f = (\<lambda>n. js_replace n ''_NativeError_'' t))) \<and>
           map prop_name (instanceProperties c) = map property_name instancePropSecs \<and>
           map prop_name (prototypeProperties c) =
             map (\<lambda>s. f (property_name s)) (filter (\<lambda>s. \<not> ends_paren (title s)) protoPropSecs) \<and>
           map prop_name (staticProperties c) =
             map (\<lambda>s. f (property_name s)) (filter (\<lambda>s. \<not> ends_paren (title s)) staticPropSecs) \<and>
           (set (map prop_name (instanceProperties c)) \<inter> set (map prop_name (prototypeProperties c)) = {} \<longleftrightarrow>
              property_name ` set instancePropSecs \<inter>
              (\<lambda>s. f (property_name s)) ` set (filter (\<lambda>s. \<not> ends_paren (title s)) protoPropSecs) = {}) \<and>
           (set (map prop_name (instanceProperties c)) \<inter> set (map prop_name (staticProperties c)) = {} \<longleftrightarrow>
              property_name ` set instancePropSecs \<inter>
              (\<lambda>s. f (property_name s)) ` set (filter (\<lambda>s. \<not> ends_paren (title s)) staticPropSecs) = {})"
proof (rule catalog_class [OF assms])
  fix groups grp g siblings c0
  assume r: "reclassified toc = Inr groups" and m: "grp \<in> set groups"
    and a: "assemble doc grp = Inr g"
    and e: "expand typedArrayTypes errorTypes g = Inr siblings" and c0: "c0 \<in> set siblings"
    and cc: "c = c0 \<or> global_set c0 c"
  note F = global_set_class_fields [OF cc assms(3)]
  have gc: "is_class g"
  proof (rule ccontr)
    assume "\<not> is_class g"
    then have "siblings = [g]" using e by (rule expand_not_class)
    then show False using c0 F(1) \<open>\<not> is_class g\<close> by simp
  qed
  from assemble_class_group [OF a gc] obtain s where
    s: "grp = Some s" and ac: "assemble_class doc (title s) (children s) = Inr g"
    by blast
  from assemble_class_subsections [OF ac] obtain sps ips pps where
    S: "getSubsections (re_between ''Properties of '' '' Constructor'') (children s) = Inr sps"
    and I: "getSubsections (re_between ''Properties of '' '' Instances'') (children s) = Inr ips"
    and P: "getSubsections (re_between ''Properties of '' '' Prototype Object'') (children s) = Inr pps"
    by blast
  note N = assemble_class_names [OF ac S I P]
  from expand_cases [OF gc e c0] obtain f where
    f: "f = (\<lambda>n. n) \<or> (\<exists>t. f = (\<lambda>n. js_replace n ''_TypedArray_'' t)) \<or>
        (\<exists>t. f = (\<lambda>n. js_replace n ''_NativeError_'' t))"
    and i0: "map prop_name (instanceProperties c0) = map prop_name (instanceProperties g)"
    and p0: "map prop_name (prototypeProperties c0) = map (\<lambda>p. f (prop_name p)) (prototypeProperties g)"
    and s0: "map prop_name (staticProperties c0) = map (\<lambda>p. f (prop_name p)) (staticProperties g)"
  proof (elim disjE exE)
    assume "c0 = g"
    then show thesis using that [of "\<lambda>n. n"] by simp
  next
    fix t assume "c0 = expanded g ''_TypedArray_'' t"
    then show thesis using that [of "\<lambda>n. js_replace n ''_TypedArray_'' t"] expanded_names by blast
  next
    fix t assume "c0 = expanded g ''_NativeError_'' t"
    then show thesis using that [of "\<lambda>n. js_replace n ''_NativeError_'' t"] expanded_names by blast
  qed
  have mf: "map (\<lambda>p. f (prop_name p)) ps = map f (map prop_name ps)" for ps
    by simp
  have i: "map prop_name (instanceProperties c) = map property_name ips"
    using F(2) i0 N(2) by simp
  have p: "map prop_name (prototypeProperties c) =
             map (\<lambda>s. f (property_name s)) (filter (\<lambda>s. \<not> ends_paren (title s)) pps)"
    unfolding F(3) p0 mf N(3) by simp
  have st: "map prop_name (staticProperties c) =
             map (\<lambda>s. f (property_name s)) (filter (\<lambda>s. \<not> ends_paren (title s)) sps)"
    unfolding F(4) s0 mf N(4) by simp
  have d1: "set (map prop_name (instanceProperties c)) \<inter> set (map prop_name (prototypeProperties c)) = {} \<longleftrightarrow>
              property_name ` set ips \<inter>
              (\<lambda>s. f (property_name s)) ` set (filter (\<lambda>s. \<not> ends_paren (title s)) pps) = {}"
    unfolding i p by (simp only: set_map)
  have d2: "set (map prop_name (instanceProperties c)) \<inter> set (map prop_name (staticProperties c)) = {} \<longleftrightarrow>
              property_name ` set ips \<inter>
              (\<lambda>s. f (property_name s)) ` set (filter (\<lambda>s. \<not> ends_paren (title s)) sps) = {}"
    unfolding i st by (simp only: set_map)
  have m': "Some s \<in> set groups" using m s by simp
  show ?thesis
    by (intro exI conjI) (rule r m' S I P f i p st d1 d2)+
qed

theorem catalog_property_names_witness:
  "catalog doc_globals [] [] foo_toc =
     Inr [foo_class_global,
          Namespace ''Reflect'' True
            [DataProperty ''Reflect[@@toStringTag]'' ''wc'']
            [Method ''Reflect.apply()'' \<lparr>required = 3, optional = 0, rest = False\<rparr> None],
          GlobalProperty ''globalThis'' (Some ''wc''),
          Function ''parseInt()'' \<lparr>required = 2, optional = 0, rest = False\<rparr> True,
          Function ''decodeURI()'' \<lparr>required = 1, optional = 0, rest = False\<rparr> True] \<and>
   is_class foo_class_global \<and>
   (\<exists>groups s staticPropSecs instancePropSecs protoPropSecs f.
           reclassified foo_toc = Inr groups \<and> Some s \<in> set groups \<and>
           getSubsections (re_between ''Properties of '' '' Constructor'') (children s) = Inr staticPropSecs \<and>
           getSubsections (re_between ''Properties of '' '' Instances'') (children s) = Inr instancePropSecs \<and>
           getSubsections (re_between ''Properties of '' '' Prototype Object'') (children s) = Inr protoPropSecs \<and>
           (f = (\<lambda>n. n) \<or> (\<exists>t. f = (\<lambda>n. js_replace n ''_TypedArray_'' t)) \<or>
            (\<exists>t. f = (\<lambda>n. js_replace n ''_NativeError_'' t))) \<and>
           map prop_name (instanceProperties foo_class_global) = map property_name instancePropSecs \<and>
           map prop_name (prototypeProperties foo_class_global) =
             map (\<lambda>s. f (property_name s)) (filter (\<lambda>s. \<not> ends_paren (title s)) protoPropSecs) \<and>
           map prop_name (staticProperties foo_class_global) =
             map (\<lambda>s. f (property_name s)) (filter (\<lambda>s. \<not> ends_paren (title s)) staticPropSecs) \<and>
           (set (map prop_name (instanceProperties foo_class_global)) \<inter>
            set (map prop_name (prototypeProperties foo_class_global)) = {} \<longleftrightarrow>
              property_name ` set instancePropSecs \<inter>
              (\<lambda>s. f (property_name s)) ` set (filter (\<lambda>s. \<not> ends_paren (title s)) protoPropSecs) = {}) \<and>
           (set (map prop_name (instanceProperties foo_class_global)) \<inter>
            set (map prop_name (staticProperties foo_class_global)) = {} \<longleftrightarrow>
              property_name ` set instancePropSecs \<inter>
              (\<lambda>s. f (property_name s)) ` set (filter (\<lambda>s. \<not> ends_paren (title s)) staticPropSecs) = {}))"
proof -
  have h: "catalog doc_globals [] [] foo_toc =
     Inr [foo_class_global,
          Namespace ''Reflect'' True
            [DataProperty ''Reflect[@@toStringTag]'' ''wc'']
            [Method ''Reflect.apply()'' \<lparr>required = 3, optional = 0, rest = False\<rparr> None],
          GlobalProperty ''globalThis'' (Some ''wc''),
          Function ''parseInt()'' \<lparr>required = 2, optional = 0, rest = False\<rparr> True,
          Function ''decodeURI()'' \<lparr>required = 1, optional = 0, rest = False\<rparr> True]"
    by code_simp
  have m: "foo_class_global \<in> set [foo_class_global,
          Namespace ''Reflect'' True
            [DataProperty ''Reflect[@@toStringTag]'' ''wc'']
            [Method ''Reflect.apply()'' \<lparr>required = 3, optional = 0, rest = False\<rparr> None],
          GlobalProperty ''globalThis'' (Some ''wc''),
          Function ''parseInt()'' \<lparr>required = 2, optional = 0, rest = False\<rparr> True,
          Function ''decodeURI()'' \<lparr>required = 1, optional = 0, rest = False\<rparr> True]"
    by simp
  have c: "is_class foo_class_global"
    by (simp add: foo_class_global_def is_class_def)
  show ?thesis
    using h c catalog_property_names [OF h m c] by (intro conjI)
qed

end
